theory Spec2Isabelle
  imports Complex_Main "HOL-Library.Word"
begin

section \<open>Strings\<close>

text \<open>
  The client and the server are TypeScript. A JavaScript string is a sequence of UTF-16
  code units: \<open>length\<close>, \<open>substring\<close>, \<open>split\<close> and a regular expression without the
  \<open>u\<close> flag all work on code units. A string is therefore a list of 16-bit words, and
  \<open>js\<close> embeds an ASCII literal.
\<close>

type_synonym code_unit = "16 word"
type_synonym jstring = "code_unit list"

definition js :: "string \<Rightarrow> jstring" where
  "js s = map of_char s"

text \<open>A string is truthy exactly when it is not empty.\<close>

definition truthy :: "jstring \<Rightarrow> bool" where
  "truthy s \<longleftrightarrow> s \<noteq> []"

section \<open>The client: \<open>src/client/components/CloudUploader.tsx\<close>\<close>

subsection \<open>\<open>sanitizeFileName\<close>\<close>

text \<open>
  \<^verbatim>\<open>
  fileName.replace(/[^a-zA-Z0-9._-]/g, '_').replace(/_{2,}/g, '_').substring(0, 255)
  \<close>
  \<open>is_file_char\<close> is the character class \<open>[a-zA-Z0-9._-]\<close>; \<open>replace_unsafe\<close> is the
  first replacement, \<open>collapse_underscores\<close> the second (every maximal run of two or more
  underscores becomes one underscore), and \<open>take 255\<close> is \<open>substring(0, 255)\<close>.
\<close>

definition underscore :: code_unit where
  "underscore = 0x5F"

definition is_file_char :: "code_unit \<Rightarrow> bool" where
  "is_file_char c \<longleftrightarrow>
     (0x61 \<le> c \<and> c \<le> 0x7A) \<or> (0x41 \<le> c \<and> c \<le> 0x5A) \<or> (0x30 \<le> c \<and> c \<le> 0x39)
     \<or> c = 0x2E \<or> c = 0x5F \<or> c = 0x2D"

definition replace_unsafe :: "jstring \<Rightarrow> jstring" where
  "replace_unsafe s = map (\<lambda>c. if is_file_char c then c else underscore) s"

fun collapse_underscores :: "jstring \<Rightarrow> jstring" where
  "collapse_underscores (a # b # cs) =
     (if a = underscore \<and> b = underscore then collapse_underscores (b # cs)
      else a # collapse_underscores (b # cs))"
| "collapse_underscores cs = cs"

definition sanitizeFileName :: "jstring \<Rightarrow> jstring" where
  "sanitizeFileName fileName = take 255 (collapse_underscores (replace_unsafe fileName))"

text \<open>\<open>no_double_underscore s\<close>: the pattern \<open>/_{2,}/\<close> has no match in \<open>s\<close>.\<close>

fun no_double_underscore :: "jstring \<Rightarrow> bool" where
  "no_double_underscore (a # b # cs) =
     (\<not> (a = underscore \<and> b = underscore) \<and> no_double_underscore (b # cs))"
| "no_double_underscore cs = True"

lemma is_file_char_underscore: "is_file_char underscore"
  by (simp add: is_file_char_def underscore_def)

lemma replace_unsafe_chars: "list_all is_file_char (replace_unsafe s)"
  by (induction s) (simp_all add: replace_unsafe_def is_file_char_underscore)

lemma replace_unsafe_id: "list_all is_file_char s \<Longrightarrow> replace_unsafe s = s"
  by (induction s) (simp_all add: replace_unsafe_def)

lemma collapse_underscores_subset: "set (collapse_underscores s) \<subseteq> set s"
  by (induction s rule: collapse_underscores.induct) auto

lemma collapse_underscores_chars:
  "list_all is_file_char s \<Longrightarrow> list_all is_file_char (collapse_underscores s)"
  using collapse_underscores_subset [of s] by (auto simp: list_all_iff)

lemma collapse_underscores_length: "length (collapse_underscores s) \<le> length s"
  by (induction s rule: collapse_underscores.induct) auto

lemma collapse_underscores_head: "\<exists>ds. collapse_underscores (a # cs) = a # ds"
proof (induction cs arbitrary: a)
  case Nil
  then show ?case by simp
next
  case (Cons b cs)
  from Cons [of b] obtain ds where "collapse_underscores (b # cs) = b # ds" by blast
  then show ?case by auto
qed

lemma collapse_underscores_no_double: "no_double_underscore (collapse_underscores s)"
proof (induction s rule: collapse_underscores.induct)
  case (1 a b cs)
  obtain ds where ds: "collapse_underscores (b # cs) = b # ds"
    using collapse_underscores_head by blast
  show ?case
  proof (cases "a = underscore \<and> b = underscore")
    case True
    with 1 show ?thesis by simp
  next
    case False
    with 1 have "no_double_underscore (b # ds)" using ds by auto
    with False ds show ?thesis by auto
  qed
qed simp_all

lemma collapse_underscores_id: "no_double_underscore s \<Longrightarrow> collapse_underscores s = s"
  by (induction s rule: collapse_underscores.induct) auto

lemma no_double_underscore_take: "no_double_underscore s \<Longrightarrow> no_double_underscore (take n s)"
proof (induction s arbitrary: n rule: no_double_underscore.induct)
  case (1 a b cs)
  show ?case
  proof (cases n)
    case 0
    then show ?thesis by simp
  next
    case (Suc m)
    show ?thesis
    proof (cases m)
      case 0
      with Suc show ?thesis by simp
    next
      case (Suc k)
      from "1.prems" have "no_double_underscore (b # cs)" by simp
      then have "no_double_underscore (take (Suc k) (b # cs))" by (rule "1.IH")
      with "1.prems" \<open>n = Suc m\<close> Suc show ?thesis by simp
    qed
  qed
qed (simp_all add: take_Cons')

lemma sanitizeFileName_chars: "list_all is_file_char (sanitizeFileName s)"
proof -
  have "list_all is_file_char (collapse_underscores (replace_unsafe s))"
    by (simp add: collapse_underscores_chars replace_unsafe_chars)
  then show ?thesis
    unfolding sanitizeFileName_def list_all_iff by (meson in_set_takeD)
qed

lemma sanitizeFileName_no_double: "no_double_underscore (sanitizeFileName s)"
  by (simp add: sanitizeFileName_def no_double_underscore_take collapse_underscores_no_double)

lemma sanitizeFileName_length: "length (sanitizeFileName s) \<le> 255"
  by (simp add: sanitizeFileName_def)

lemma sanitizeFileName_fixed:
  assumes "list_all is_file_char s" "no_double_underscore s" "length s \<le> 255"
  shows "sanitizeFileName s = s"
  using assms by (simp add: sanitizeFileName_def replace_unsafe_id collapse_underscores_id)

text \<open>
  C4. For every input string, \<open>sanitizeFileName\<close> replaces every code unit outside
  \<open>[A-Za-z0-9._-]\<close> by an underscore, collapses runs of underscores and keeps at most 255
  code units; applying it twice gives the same result as applying it once, and its result
  has at most 255 code units, all of them in \<open>[A-Za-z0-9._-]\<close>, with no two underscores
  in a row.
\<close>

theorem sanitizeFileName_idempotent:
  "sanitizeFileName (sanitizeFileName s) = sanitizeFileName s
   \<and> length (sanitizeFileName s) \<le> 255
   \<and> list_all is_file_char (sanitizeFileName s)
   \<and> no_double_underscore (sanitizeFileName s)
   \<and> sanitizeFileName s = take 255 (collapse_underscores (map (\<lambda>c. if is_file_char c then c else underscore) s))"
proof -
  have "sanitizeFileName (sanitizeFileName s) = sanitizeFileName s"
    by (rule sanitizeFileName_fixed)
      (simp_all add: sanitizeFileName_chars sanitizeFileName_no_double sanitizeFileName_length)
  moreover have "sanitizeFileName s = take 255 (collapse_underscores (map (\<lambda>c. if is_file_char c then c else underscore) s))"
    by (simp add: sanitizeFileName_def replace_unsafe_def)
  ultimately show ?thesis
    using sanitizeFileName_chars sanitizeFileName_no_double sanitizeFileName_length by blast
qed

theorem sanitizeFileName_idempotent_witness:
  "sanitizeFileName (js ''my  file (1)__.txt'') = js ''my_file_1_.txt''
   \<and> sanitizeFileName (sanitizeFileName (js ''my  file (1)__.txt'')) = js ''my_file_1_.txt''"
proof -
  have e: "sanitizeFileName (js ''my  file (1)__.txt'') = js ''my_file_1_.txt''"
    by (simp add: sanitizeFileName_def replace_unsafe_def js_def is_file_char_def underscore_def)
  from sanitizeFileName_idempotent [of "js ''my  file (1)__.txt''"]
  have "sanitizeFileName (sanitizeFileName (js ''my  file (1)__.txt''))
      = sanitizeFileName (js ''my  file (1)__.txt'')"
    by blast
  with e show ?thesis by simp
qed

subsection \<open>URL intake: \<open>sanitizeUrl\<close>, \<open>isValidUrl\<close>, \<open>parseUrls\<close>\<close>

text \<open>
  \<^verbatim>\<open>
  input.split(/[,\n\r]+/).map(sanitizeUrl).filter(url => url && isValidUrl(url))
  \<close>
  \<open>split_separators\<close> is \<open>String.prototype.split\<close> with the pattern \<open>/[,\n\r]+/\<close>: the
  text up to the next match is a piece, the match (a maximal run of separators) is
  skipped, and a separator at either end of the input leaves an empty piece there.
  \<open>split_each\<close> splits at every single separator instead; it is how the specification
  words the split and is only used to compare.
\<close>

definition is_separator :: "code_unit \<Rightarrow> bool" where
  "is_separator c \<longleftrightarrow> c = 0x2C \<or> c = 0x0A \<or> c = 0x0D"

function split_separators :: "jstring \<Rightarrow> jstring list" where
  "split_separators s =
     (let tok = takeWhile (\<lambda>c. \<not> is_separator c) s;
          rest = dropWhile (\<lambda>c. \<not> is_separator c) s
      in if rest = [] then [tok] else tok # split_separators (dropWhile is_separator rest))"
  by pat_completeness auto
termination
proof (relation "measure length")
  fix s :: jstring and tok rest
  assume r: "rest = dropWhile (\<lambda>c. \<not> is_separator c) s" and ne: "rest \<noteq> []"
  from ne obtain c cs where rc: "rest = c # cs" by (cases rest) auto
  have "is_separator (hd rest)"
    using hd_dropWhile [of "\<lambda>c. \<not> is_separator c" s] ne r by simp
  with rc have "is_separator c" by simp
  with rc have "length (dropWhile is_separator rest) \<le> length cs"
    by (simp add: length_dropWhile_le)
  moreover have "length rest \<le> length s" using r by (simp add: length_dropWhile_le)
  ultimately show "(dropWhile is_separator rest, s) \<in> measure length" using rc by simp
qed simp

function split_each :: "jstring \<Rightarrow> jstring list" where
  "split_each s =
     (let tok = takeWhile (\<lambda>c. \<not> is_separator c) s;
          rest = dropWhile (\<lambda>c. \<not> is_separator c) s
      in if rest = [] then [tok] else tok # split_each (tl rest))"
  by pat_completeness auto
termination
proof (relation "measure length")
  fix s :: jstring and tok rest
  assume r: "rest = dropWhile (\<lambda>c. \<not> is_separator c) s" and ne: "rest \<noteq> []"
  have "length rest \<le> length s" using r by (simp add: length_dropWhile_le)
  with ne show "(tl rest, s) \<in> measure length" by (cases rest) auto
qed simp


text \<open>
  \<open>trim\<close> removes ECMAScript white space and line terminators from both ends;
  \<open>sanitizeUrl\<close> is \<open>url.trim().replace(/[<>'"]/g, '')\<close>.
\<close>

definition is_whitespace :: "code_unit \<Rightarrow> bool" where
  "is_whitespace c \<longleftrightarrow>
     (0x09 \<le> c \<and> c \<le> 0x0D) \<or> c = 0x20 \<or> c = 0xA0 \<or> c = 0x1680
     \<or> (0x2000 \<le> c \<and> c \<le> 0x200A) \<or> c = 0x2028 \<or> c = 0x2029 \<or> c = 0x202F
     \<or> c = 0x205F \<or> c = 0x3000 \<or> c = 0xFEFF"

definition trim :: "jstring \<Rightarrow> jstring" where
  "trim s = rev (dropWhile is_whitespace (rev (dropWhile is_whitespace s)))"

definition is_markup_char :: "code_unit \<Rightarrow> bool" where
  "is_markup_char c \<longleftrightarrow> c = 0x3C \<or> c = 0x3E \<or> c = 0x27 \<or> c = 0x22"

definition sanitizeUrl :: "jstring \<Rightarrow> jstring" where
  "sanitizeUrl url = filter (\<lambda>c. \<not> is_markup_char c) (trim url)"

text \<open>\<open>sanitizeInput\<close> is \<open>input.trim().replace(/[<>'"&]/g, '')\<close>.\<close>

definition is_input_markup :: "code_unit \<Rightarrow> bool" where
  "is_input_markup c \<longleftrightarrow> is_markup_char c \<or> c = 0x26"

definition sanitizeInput :: "jstring \<Rightarrow> jstring" where
  "sanitizeInput input = filter (\<lambda>c. \<not> is_input_markup c) (trim input)"

text \<open>
  \<open>new URL(url)\<close> is the platform's URL parser, not code of this repository. It is a
  parameter: \<open>URL_protocol url\<close> is \<open>Some\<close> of the parsed URL's \<open>protocol\<close>, or \<open>None\<close>
  when the constructor throws. Without a base, the constructor accepts absolute URLs only.
\<close>

definition isValidUrl :: "(jstring \<Rightarrow> jstring option) \<Rightarrow> jstring \<Rightarrow> bool" where
  "isValidUrl URL_protocol url =
     (case URL_protocol url of
        None \<Rightarrow> False
      | Some protocol \<Rightarrow> protocol \<in> set [js ''http:'', js ''https:''])"

definition parseUrls :: "(jstring \<Rightarrow> jstring option) \<Rightarrow> jstring \<Rightarrow> jstring list" where
  "parseUrls URL_protocol input =
     filter (\<lambda>url. truthy url \<and> isValidUrl URL_protocol url)
       (map sanitizeUrl (split_separators input))"

text \<open>
  The intake as the specification words it: split on \<open>,\<close> or a newline character, trim
  and strip each candidate, keep the candidates that parse with scheme http or https.
\<close>

definition intake_spec :: "(jstring \<Rightarrow> jstring option) \<Rightarrow> jstring \<Rightarrow> jstring list" where
  "intake_spec URL_protocol input =
     filter (\<lambda>u. \<exists>p. URL_protocol u = Some p \<and> (p = js ''http:'' \<or> p = js ''https:''))
       (map (\<lambda>cand. filter (\<lambda>c. \<not> is_markup_char c) (trim cand)) (split_each input))"

lemmas [simp del] = split_separators.simps split_each.simps

lemma split_each_skip:
  "filter (\<lambda>t. t \<noteq> []) (split_each (dropWhile is_separator s)) = filter (\<lambda>t. t \<noteq> []) (split_each s)"
proof (induction s)
  case Nil
  then show ?case by simp
next
  case (Cons c s)
  show ?case
  proof (cases "is_separator c")
    case True
    then have "split_each (c # s) = [] # split_each s"
      by (subst split_each.simps) simp
    with True Cons show ?thesis by simp
  next
    case False
    then show ?thesis by simp
  qed
qed

lemma split_separators_nonempty_tokens:
  "filter (\<lambda>t. t \<noteq> []) (split_separators s) = filter (\<lambda>t. t \<noteq> []) (split_each s)"
proof (induction s rule: split_separators.induct)
  case (1 s)
  define tok where "tok = takeWhile (\<lambda>c. \<not> is_separator c) s"
  define rest where "rest = dropWhile (\<lambda>c. \<not> is_separator c) s"
  show ?case
  proof (cases "rest = []")
    case True
    then have r0: "dropWhile (\<lambda>c. \<not> is_separator c) s = []"
      by (simp add: rest_def)
    have "split_separators s = [tok]"
      by (subst split_separators.simps) (simp add: r0 tok_def)
    moreover have "split_each s = [tok]"
      by (subst split_each.simps) (simp add: r0 tok_def)
    ultimately show ?thesis by simp
  next
    case False
    then obtain c cs where rc: "rest = c # cs" by (cases rest) auto
    have "is_separator (hd rest)"
      using hd_dropWhile [of "\<lambda>c. \<not> is_separator c" s] False rest_def by simp
    with rc have sep: "is_separator c" by simp
    have r1: "dropWhile (\<lambda>c. \<not> is_separator c) s = c # cs"
      using rc by (simp add: rest_def)
    have a: "split_separators s = tok # split_separators (dropWhile is_separator rest)"
      by (subst split_separators.simps) (simp add: r1 rc tok_def)
    have b: "split_each s = tok # split_each (tl rest)"
      by (subst split_each.simps) (simp add: r1 rc tok_def)
    have "filter (\<lambda>t. t \<noteq> []) (split_separators (dropWhile is_separator rest))
        = filter (\<lambda>t. t \<noteq> []) (split_each (dropWhile is_separator rest))"
      using "1.IH" [OF tok_def rest_def False] .
    also have "\<dots> = filter (\<lambda>t. t \<noteq> []) (split_each (dropWhile is_separator cs))"
      using rc sep by simp
    also have "\<dots> = filter (\<lambda>t. t \<noteq> []) (split_each (tl rest))"
      using rc by (simp add: split_each_skip)
    finally show ?thesis using a b by simp
  qed
qed

lemma sanitizeUrl_empty: "sanitizeUrl [] = []"
  by (simp add: sanitizeUrl_def trim_def)

lemma filter_map_nonempty:
  assumes "f [] = []"
  shows "filter (\<lambda>u. u \<noteq> [] \<and> P u) (map f xs)
       = filter (\<lambda>u. u \<noteq> [] \<and> P u) (map f (filter (\<lambda>t. t \<noteq> []) xs))"
  using assms by (induction xs) auto

lemma isValidUrl_iff:
  "isValidUrl U u \<longleftrightarrow> (\<exists>p. U u = Some p \<and> (p = js ''http:'' \<or> p = js ''https:''))"
  by (auto simp: isValidUrl_def split: option.splits)

lemma parseUrls_split_each:
  "parseUrls U s = filter (\<lambda>u. u \<noteq> [] \<and> isValidUrl U u) (map sanitizeUrl (split_each s))"
proof -
  have "parseUrls U s
      = filter (\<lambda>u. u \<noteq> [] \<and> isValidUrl U u) (map sanitizeUrl (filter (\<lambda>t. t \<noteq> []) (split_separators s)))"
    unfolding parseUrls_def truthy_def
    by (rule filter_map_nonempty) (rule sanitizeUrl_empty)
  also have "\<dots> = filter (\<lambda>u. u \<noteq> [] \<and> isValidUrl U u) (map sanitizeUrl (filter (\<lambda>t. t \<noteq> []) (split_each s)))"
    by (simp only: split_separators_nonempty_tokens)
  also have "\<dots> = filter (\<lambda>u. u \<noteq> [] \<and> isValidUrl U u) (map sanitizeUrl (split_each s))"
    by (rule filter_map_nonempty [symmetric]) (rule sanitizeUrl_empty)
  finally show ?thesis .
qed

lemma parseUrls_spec:
  assumes "U [] = None"
  shows "parseUrls U s = intake_spec U s"
proof -
  have "(\<lambda>u. u \<noteq> [] \<and> isValidUrl U u) = (\<lambda>u. \<exists>p. U u = Some p \<and> (p = js ''http:'' \<or> p = js ''https:''))"
    using assms by (auto simp: isValidUrl_iff fun_eq_iff)
  then show ?thesis
    unfolding parseUrls_split_each intake_spec_def sanitizeUrl_def by simp
qed

lemma split_example:
  "split_separators (js ''https://x.com/f1.jpg,not-a-url,https://x.com/f2.png'')
   = [js ''https://x.com/f1.jpg'', js ''not-a-url'', js ''https://x.com/f2.png'']"
  by (simp add: split_separators.simps js_def is_separator_def)

lemma sanitizeUrl_example:
  "sanitizeUrl (js ''https://x.com/f1.jpg'') = js ''https://x.com/f1.jpg''"
  "sanitizeUrl (js ''not-a-url'') = js ''not-a-url''"
  "sanitizeUrl (js ''https://x.com/f2.png'') = js ''https://x.com/f2.png''"
  by (simp_all add: sanitizeUrl_def trim_def js_def is_whitespace_def is_markup_char_def)

lemma split_separators_pieces:
  "\<forall>t \<in> set (split_separators s). \<forall>c \<in> set t. \<not> is_separator c"
proof (induction s rule: split_separators.induct)
  case (1 s)
  define tok where "tok = takeWhile (\<lambda>c. \<not> is_separator c) s"
  define rest where "rest = dropWhile (\<lambda>c. \<not> is_separator c) s"
  have tk: "\<forall>c \<in> set tok. \<not> is_separator c"
    unfolding tok_def by (auto dest: set_takeWhileD)
  show ?case
  proof (cases "rest = []")
    case True
    then have r0: "dropWhile (\<lambda>c. \<not> is_separator c) s = []"
      by (simp add: rest_def)
    have "split_separators s = [tok]"
      by (subst split_separators.simps) (simp add: r0 tok_def)
    with tk show ?thesis by simp
  next
    case False
    then obtain c cs where rc: "rest = c # cs" by (cases rest) auto
    have r1: "dropWhile (\<lambda>c. \<not> is_separator c) s = c # cs"
      using rc by (simp add: rest_def)
    have a: "split_separators s = tok # split_separators (dropWhile is_separator rest)"
      by (subst split_separators.simps) (simp add: r1 rc tok_def)
    from "1.IH" [OF tok_def rest_def False] tk show ?thesis
      unfolding a by simp
  qed
qed

lemma filter_dropWhile_separators:
  "filter (\<lambda>c. \<not> is_separator c) (dropWhile is_separator xs) = filter (\<lambda>c. \<not> is_separator c) xs"
  by (induction xs) simp_all

lemma split_separators_concat:
  "concat (split_separators s) = filter (\<lambda>c. \<not> is_separator c) s"
proof (induction s rule: split_separators.induct)
  case (1 s)
  define tok where "tok = takeWhile (\<lambda>c. \<not> is_separator c) s"
  define rest where "rest = dropWhile (\<lambda>c. \<not> is_separator c) s"
  have s: "s = tok @ rest" by (simp add: tok_def rest_def)
  have ft: "filter (\<lambda>c. \<not> is_separator c) tok = tok"
    unfolding tok_def by (simp add: filter_id_conv) (auto dest: set_takeWhileD)
  show ?case
  proof (cases "rest = []")
    case True
    then have r0: "dropWhile (\<lambda>c. \<not> is_separator c) s = []"
      by (simp add: rest_def)
    have "split_separators s = [tok]"
      by (subst split_separators.simps) (simp add: r0 tok_def)
    moreover have "filter (\<lambda>c. \<not> is_separator c) s = tok"
      using s True ft by simp
    ultimately show ?thesis by simp
  next
    case False
    then obtain c cs where rc: "rest = c # cs" by (cases rest) auto
    have r1: "dropWhile (\<lambda>c. \<not> is_separator c) s = c # cs"
      using rc by (simp add: rest_def)
    have a: "split_separators s = tok # split_separators (dropWhile is_separator rest)"
      by (subst split_separators.simps) (simp add: r1 rc tok_def)
    have "concat (split_separators s)
        = tok @ filter (\<lambda>c. \<not> is_separator c) (dropWhile is_separator rest)"
      unfolding a using "1.IH" [OF tok_def rest_def False] by simp
    also have "\<dots> = tok @ filter (\<lambda>c. \<not> is_separator c) rest"
      by (simp only: filter_dropWhile_separators)
    also have "\<dots> = filter (\<lambda>c. \<not> is_separator c) (tok @ rest)"
      using ft by simp
    finally show ?thesis using s by simp
  qed
qed

lemma trim_removes_ends:
  "\<exists>a b. s = a @ trim s @ b \<and> (\<forall>c \<in> set a \<union> set b. is_whitespace c)"
proof -
  define m where "m = dropWhile is_whitespace s"
  have 1: "s = takeWhile is_whitespace s @ m" by (simp add: m_def)
  have "rev (dropWhile is_whitespace (rev m)) @ rev (takeWhile is_whitespace (rev m))
      = rev (takeWhile is_whitespace (rev m) @ dropWhile is_whitespace (rev m))"
    by (simp only: rev_append)
  also have "\<dots> = m" by (simp only: takeWhile_dropWhile_id rev_rev_ident)
  finally have 2: "m = trim s @ rev (takeWhile is_whitespace (rev m))"
    by (simp add: trim_def m_def)
  have 3: "\<forall>c \<in> set (takeWhile is_whitespace s) \<union> set (rev (takeWhile is_whitespace (rev m))). is_whitespace c"
    by (auto dest: set_takeWhileD)
  from 1 2 have "s = takeWhile is_whitespace s @ trim s @ rev (takeWhile is_whitespace (rev m))"
    by simp
  with 3 show ?thesis by blast
qed

lemma trim_ends:
  assumes "trim s \<noteq> []"
  shows "\<not> is_whitespace (hd (trim s))" "\<not> is_whitespace (last (trim s))"
proof -
  define m where "m = dropWhile is_whitespace s"
  define d where "d = dropWhile is_whitespace (rev m)"
  have t: "trim s = rev d" by (simp add: trim_def m_def d_def)
  with assms have dne: "d \<noteq> []" by simp
  then have "\<not> is_whitespace (hd d)"
    unfolding d_def using hd_dropWhile [of is_whitespace "rev m"] by simp
  then show "\<not> is_whitespace (last (trim s))"
    using t dne by (simp add: last_rev)
  from dne have mne: "m \<noteq> []" by (auto simp: d_def)
  then have hm: "\<not> is_whitespace (hd m)"
    unfolding m_def using hd_dropWhile [of is_whitespace s] by simp
  have "rev d @ rev (takeWhile is_whitespace (rev m))
      = rev (takeWhile is_whitespace (rev m) @ dropWhile is_whitespace (rev m))"
    by (simp only: rev_append d_def)
  also have "\<dots> = m" by (simp only: takeWhile_dropWhile_id rev_rev_ident)
  finally have "m = rev d @ rev (takeWhile is_whitespace (rev m))" by simp
  with dne have "hd m = hd (rev d)" by (metis hd_append2 rev_is_Nil_conv)
  with hm t show "\<not> is_whitespace (hd (trim s))" by simp
qed

lemma parseUrls_no_markup:
  "\<forall>u \<in> set (parseUrls U s). \<forall>c \<in> set u. \<not> is_markup_char c"
  by (auto simp: parseUrls_def sanitizeUrl_def)

definition pasted_lines :: jstring where
  "pasted_lines =
     js ''  <https://x.com/f1.jpg> '' @ [0x0D, 0x0A]
     @ [0x22] @ js ''not-a-url'' @ [0x22] @ js '','' @ [0x0A, 0x09]
     @ [0x27] @ js ''https://x.com/f2.png'' @ [0x27, 0x0A]"

lemma split_pasted_lines:
  "split_separators pasted_lines
   = [js ''  <https://x.com/f1.jpg> '', 0x22 # js ''not-a-url'' @ [0x22],
      0x09 # 0x27 # js ''https://x.com/f2.png'' @ [0x27], []]"
  by (simp add: pasted_lines_def split_separators.simps js_def is_separator_def)

lemma sanitizeUrl_pasted_lines:
  "sanitizeUrl (js ''  <https://x.com/f1.jpg> '') = js ''https://x.com/f1.jpg''"
  "sanitizeUrl (0x22 # js ''not-a-url'' @ [0x22]) = js ''not-a-url''"
  "sanitizeUrl (0x09 # 0x27 # js ''https://x.com/f2.png'' @ [0x27]) = js ''https://x.com/f2.png''"
  by (simp_all add: sanitizeUrl_def trim_def js_def is_whitespace_def is_markup_char_def)

lemma parseUrls_pasted_lines:
  assumes "U (js ''https://x.com/f1.jpg'') = Some (js ''https:'')" "U (js ''not-a-url'') = None"
    "U (js ''https://x.com/f2.png'') = Some (js ''https:'')"
  shows "parseUrls U pasted_lines = [js ''https://x.com/f1.jpg'', js ''https://x.com/f2.png'']"
proof -
  have ne: "js ''https://x.com/f1.jpg'' \<noteq> []" "js ''https://x.com/f2.png'' \<noteq> []"
    by (simp_all add: js_def)
  show ?thesis
    unfolding parseUrls_def split_pasted_lines
    using assms ne by (simp add: sanitizeUrl_pasted_lines sanitizeUrl_empty isValidUrl_def truthy_def)
qed

lemma character_classes:
  "is_separator c \<longleftrightarrow> c \<in> {0x2C, 0x0A, 0x0D}"
  "is_markup_char c \<longleftrightarrow> c \<in> {0x3C, 0x3E, 0x27, 0x22}"
  by (auto simp: is_separator_def is_markup_char_def)


text \<open>
  C5. For every raw intake string, \<open>parseUrls\<close> splits on \<open>,\<close>, line feed and carriage
  return, trims each candidate and strips \<open><\<close>, \<open>>\<close>, \<open>'\<close> and \<open>"\<close> from it, and keeps
  exactly the candidates that parse as an absolute URL with protocol \<open>http:\<close> or
  \<open>https:\<close>; splitting at runs of separators or at single separators makes no
  difference. Every kept entry is one of the split and sanitized candidates, and with a
  URL parser that rejects the empty string the result is the specification's intake.
  For the input \<open>https://x.com/f1.jpg,not-a-url,https://x.com/f2.png\<close>, with a parser
  that accepts the two URLs and rejects \<open>not-a-url\<close>, exactly the two URLs are kept.

  The three steps, character by character. The separators are the code units
  \<open>0x2C\<close> (comma), \<open>0x0A\<close> (line feed) and \<open>0x0D\<close> (carriage return): no candidate
  contains one of them, and the candidates together are the input without them. A
  candidate is some white space, its trimmed text, and some white space, where the
  trimmed text neither begins nor ends with white space; white space is the code units
  \<open>0x09\<close> to \<open>0x0D\<close>, \<open>0x20\<close>, \<open>0xA0\<close>, \<open>0x1680\<close>, \<open>0x2000\<close> to \<open>0x200A\<close>, \<open>0x2028\<close>,
  \<open>0x2029\<close>, \<open>0x202F\<close>, \<open>0x205F\<close>, \<open>0x3000\<close> and \<open>0xFEFF\<close>, among them space, tab, line
  feed and carriage return. The sanitized candidate is the trimmed text without
  the code units \<open>0x3C\<close>, \<open>0x3E\<close>, \<open>0x27\<close> and \<open>0x22\<close>, and no kept entry contains one
  of them. For \<open>pasted_lines\<close>, whose three candidates are separated by a carriage return
  and line feed and by a comma and line feed, padded with spaces and a tab, and wrapped
  in angle brackets and quotes, the same parser keeps the same two URLs.
\<close>

theorem parseUrls_intake:
  "parseUrls U input
     = filter (\<lambda>u. u \<noteq> [] \<and> isValidUrl U u) (map sanitizeUrl (split_each input))
   \<and> set (parseUrls U input) \<subseteq> sanitizeUrl ` set (split_separators input)
   \<and> (\<forall>u \<in> set (parseUrls U input). \<exists>p. U u = Some p \<and> (p = js ''http:'' \<or> p = js ''https:''))
   \<and> (U [] = None \<longrightarrow> parseUrls U input = intake_spec U input)
   \<and> (U (js ''https://x.com/f1.jpg'') = Some (js ''https:'') \<and> U (js ''not-a-url'') = None
        \<and> U (js ''https://x.com/f2.png'') = Some (js ''https:'')
      \<longrightarrow> parseUrls U (js ''https://x.com/f1.jpg,not-a-url,https://x.com/f2.png'')
          = [js ''https://x.com/f1.jpg'', js ''https://x.com/f2.png''])
   \<and> (\<forall>t \<in> set (split_separators input). \<forall>c \<in> set t. c \<noteq> 0x2C \<and> c \<noteq> 0x0A \<and> c \<noteq> 0x0D)
   \<and> concat (split_separators input) = filter (\<lambda>c. c \<noteq> 0x2C \<and> c \<noteq> 0x0A \<and> c \<noteq> 0x0D) input
   \<and> (\<forall>cand. \<exists>a b. cand = a @ trim cand @ b \<and> (\<forall>c \<in> set a \<union> set b. is_whitespace c)
         \<and> (trim cand \<noteq> [] \<longrightarrow> \<not> is_whitespace (hd (trim cand))
                                  \<and> \<not> is_whitespace (last (trim cand))))
   \<and> is_whitespace 0x20 \<and> is_whitespace 0x09 \<and> is_whitespace 0x0A \<and> is_whitespace 0x0D
   \<and> (\<forall>c. is_whitespace c \<longleftrightarrow>
         c \<in> {0x09..0x0D} \<union> {0x20, 0xA0, 0x1680} \<union> {0x2000..0x200A}
             \<union> {0x2028, 0x2029, 0x202F, 0x205F, 0x3000, 0xFEFF})
   \<and> (\<forall>cand. sanitizeUrl cand
         = filter (\<lambda>c. c \<noteq> 0x3C \<and> c \<noteq> 0x3E \<and> c \<noteq> 0x27 \<and> c \<noteq> 0x22) (trim cand))
   \<and> (\<forall>u \<in> set (parseUrls U input). \<forall>c \<in> set u. c \<noteq> 0x3C \<and> c \<noteq> 0x3E \<and> c \<noteq> 0x27 \<and> c \<noteq> 0x22)
   \<and> (U (js ''https://x.com/f1.jpg'') = Some (js ''https:'') \<and> U (js ''not-a-url'') = None
        \<and> U (js ''https://x.com/f2.png'') = Some (js ''https:'')
      \<longrightarrow> parseUrls U pasted_lines = [js ''https://x.com/f1.jpg'', js ''https://x.com/f2.png''])"
proof -
  have c2: "set (parseUrls U input) \<subseteq> sanitizeUrl ` set (split_separators input)"
    by (auto simp: parseUrls_def)
  have c3: "\<forall>u \<in> set (parseUrls U input). \<exists>p. U u = Some p \<and> (p = js ''http:'' \<or> p = js ''https:'')"
    by (simp add: parseUrls_def isValidUrl_iff)
  have c5: "U (js ''https://x.com/f1.jpg'') = Some (js ''https:'') \<and> U (js ''not-a-url'') = None
        \<and> U (js ''https://x.com/f2.png'') = Some (js ''https:'')
      \<longrightarrow> parseUrls U (js ''https://x.com/f1.jpg,not-a-url,https://x.com/f2.png'')
          = [js ''https://x.com/f1.jpg'', js ''https://x.com/f2.png'']"
  proof
    assume a: "U (js ''https://x.com/f1.jpg'') = Some (js ''https:'') \<and> U (js ''not-a-url'') = None
        \<and> U (js ''https://x.com/f2.png'') = Some (js ''https:'')"
    have ne: "js ''https://x.com/f1.jpg'' \<noteq> []" "js ''https://x.com/f2.png'' \<noteq> []"
      by (simp_all add: js_def)
    show "parseUrls U (js ''https://x.com/f1.jpg,not-a-url,https://x.com/f2.png'')
          = [js ''https://x.com/f1.jpg'', js ''https://x.com/f2.png'']"
      unfolding parseUrls_def split_example
      using a ne by (simp add: sanitizeUrl_example isValidUrl_def truthy_def)
  qed
  have sep: "\<And>c. (\<not> is_separator c) = (c \<noteq> 0x2C \<and> c \<noteq> 0x0A \<and> c \<noteq> 0x0D)"
    by (simp add: is_separator_def)
  have mk: "\<And>c. (\<not> is_markup_char c) = (c \<noteq> 0x3C \<and> c \<noteq> 0x3E \<and> c \<noteq> 0x27 \<and> c \<noteq> 0x22)"
    by (simp add: is_markup_char_def)
  have c6: "\<forall>t \<in> set (split_separators input). \<forall>c \<in> set t. c \<noteq> 0x2C \<and> c \<noteq> 0x0A \<and> c \<noteq> 0x0D"
    using split_separators_pieces [of input] by (simp only: sep)
  have c7: "concat (split_separators input) = filter (\<lambda>c. c \<noteq> 0x2C \<and> c \<noteq> 0x0A \<and> c \<noteq> 0x0D) input"
    using split_separators_concat [of input] by (simp only: sep)
  have c8: "\<forall>cand. \<exists>a b. cand = a @ trim cand @ b \<and> (\<forall>c \<in> set a \<union> set b. is_whitespace c)
         \<and> (trim cand \<noteq> [] \<longrightarrow> \<not> is_whitespace (hd (trim cand))
                                  \<and> \<not> is_whitespace (last (trim cand)))"
    using trim_removes_ends trim_ends by blast
  have c9: "is_whitespace 0x20 \<and> is_whitespace 0x09 \<and> is_whitespace 0x0A \<and> is_whitespace 0x0D"
    by (simp add: is_whitespace_def)
  have c10: "\<forall>c. is_whitespace c \<longleftrightarrow>
         c \<in> {0x09..0x0D} \<union> {0x20, 0xA0, 0x1680} \<union> {0x2000..0x200A}
             \<union> {0x2028, 0x2029, 0x202F, 0x205F, 0x3000, 0xFEFF}"
    by (auto simp: is_whitespace_def)
  have c11: "\<forall>cand. sanitizeUrl cand
         = filter (\<lambda>c. c \<noteq> 0x3C \<and> c \<noteq> 0x3E \<and> c \<noteq> 0x27 \<and> c \<noteq> 0x22) (trim cand)"
    by (simp only: sanitizeUrl_def mk) simp
  have c12: "\<forall>u \<in> set (parseUrls U input). \<forall>c \<in> set u. c \<noteq> 0x3C \<and> c \<noteq> 0x3E \<and> c \<noteq> 0x27 \<and> c \<noteq> 0x22"
    using parseUrls_no_markup [of U input] by (simp only: mk)
  have c13: "U (js ''https://x.com/f1.jpg'') = Some (js ''https:'') \<and> U (js ''not-a-url'') = None
        \<and> U (js ''https://x.com/f2.png'') = Some (js ''https:'')
      \<longrightarrow> parseUrls U pasted_lines = [js ''https://x.com/f1.jpg'', js ''https://x.com/f2.png'']"
    using parseUrls_pasted_lines [of U] by blast
  from parseUrls_split_each [of U input] parseUrls_spec [of U input]
    c2 c3 c5 c6 c7 c8 c9 c10 c11 c12 c13
  show ?thesis by (intro conjI impI) (assumption | blast)+
qed

theorem parseUrls_intake_witness:
  "parseUrls (\<lambda>u. if u = js ''not-a-url'' \<or> u = [] then None else Some (js ''https:''))
      (js ''https://x.com/f1.jpg,not-a-url,https://x.com/f2.png'')
     = [js ''https://x.com/f1.jpg'', js ''https://x.com/f2.png'']
   \<and> intake_spec (\<lambda>u. if u = js ''not-a-url'' \<or> u = [] then None else Some (js ''https:''))
      (js ''https://x.com/f1.jpg,not-a-url,https://x.com/f2.png'')
     = [js ''https://x.com/f1.jpg'', js ''https://x.com/f2.png'']
   \<and> parseUrls (\<lambda>u. if u = js ''https://x.com/f1.jpg'' \<or> u = js ''https://x.com/f2.png''
                     then Some (js ''https:'') else None) pasted_lines
     = [js ''https://x.com/f1.jpg'', js ''https://x.com/f2.png'']
   \<and> intake_spec (\<lambda>u. if u = js ''https://x.com/f1.jpg'' \<or> u = js ''https://x.com/f2.png''
                     then Some (js ''https:'') else None) pasted_lines
     = [js ''https://x.com/f1.jpg'', js ''https://x.com/f2.png'']"
proof -
  let ?U = "\<lambda>u. if u = js ''not-a-url'' \<or> u = [] then None else Some (js ''https:'')"
  let ?V = "\<lambda>u. if u = js ''https://x.com/f1.jpg'' \<or> u = js ''https://x.com/f2.png''
                     then Some (js ''https:'') else None"
  let ?input = "js ''https://x.com/f1.jpg,not-a-url,https://x.com/f2.png''"
  have h: "?U (js ''https://x.com/f1.jpg'') = Some (js ''https:'') \<and> ?U (js ''not-a-url'') = None
        \<and> ?U (js ''https://x.com/f2.png'') = Some (js ''https:'')"
    by (simp add: js_def)
  have e: "?U [] = None" by simp
  note t = parseUrls_intake [of ?U ?input]
  from t h have p: "parseUrls ?U ?input = [js ''https://x.com/f1.jpg'', js ''https://x.com/f2.png'']"
    by blast
  from t e have q: "parseUrls ?U ?input = intake_spec ?U ?input"
    by blast
  have h': "?V (js ''https://x.com/f1.jpg'') = Some (js ''https:'') \<and> ?V (js ''not-a-url'') = None
        \<and> ?V (js ''https://x.com/f2.png'') = Some (js ''https:'')"
    by (simp add: js_def)
  have e': "?V [] = None" by (simp add: js_def)
  note t' = parseUrls_intake [of ?V pasted_lines]
  from t' h' have p': "parseUrls ?V pasted_lines = [js ''https://x.com/f1.jpg'', js ''https://x.com/f2.png'']"
    by blast
  from t' e' have q': "parseUrls ?V pasted_lines = intake_spec ?V pasted_lines"
    by blast
  from p q p' q' show ?thesis by simp
qed

subsection \<open>Configuration: \<open>CloudConfig\<close> and \<open>isCloudConfigured\<close>\<close>

text \<open>
  The interfaces \<open>S3Config\<close>, \<open>GCPConfig\<close>, \<open>AzureConfig\<close> and \<open>CloudConfig\<close>. A property
  marked \<open>?\<close> in the source is an \<open>option\<close>; \<open>None\<close> is \<open>undefined\<close>.
\<close>

datatype provider = S3 | GCP | Azure

record S3Config =
  bucket :: jstring
  region :: jstring
  accessKeyId :: jstring
  secretAccessKey :: jstring
  sessionToken :: "jstring option"
  endpoint :: "jstring option"

record GCPConfig =
  bucket :: jstring
  projectId :: jstring
  keyFile :: jstring

record AzureConfig =
  accountName :: jstring
  containerName :: jstring
  accountKey :: "jstring option"
  sasToken :: "jstring option"

record CloudConfig =
  provider :: provider
  s3 :: "S3Config option"
  gcp :: "GCPConfig option"
  azure :: "AzureConfig option"

text \<open>
  \<open>present v\<close> is the truthiness of an optional string: defined and not empty.
  In \<open>isCloudConfigured\<close> the optional chaining \<open>config?.field\<close> makes every test false when
  the active provider's variant is \<open>undefined\<close>. The S3 branch reads \<open>bucket\<close>,
  \<open>accessKeyId\<close> and \<open>secretAccessKey\<close>; it does not read \<open>region\<close>.
\<close>

definition present :: "jstring option \<Rightarrow> bool" where
  "present v = (case v of None \<Rightarrow> False | Some s \<Rightarrow> truthy s)"

definition isCloudConfigured :: "CloudConfig \<Rightarrow> bool" where
  "isCloudConfigured cloudConfig =
     (case provider cloudConfig of
        S3 \<Rightarrow>
          (case s3 cloudConfig of
             None \<Rightarrow> False
           | Some s3Config \<Rightarrow>
               truthy (S3Config.bucket s3Config) \<and> truthy (accessKeyId s3Config)
               \<and> truthy (secretAccessKey s3Config))
      | GCP \<Rightarrow>
          (case gcp cloudConfig of
             None \<Rightarrow> False
           | Some gcpConfig \<Rightarrow>
               truthy (GCPConfig.bucket gcpConfig) \<and> truthy (projectId gcpConfig)
               \<and> truthy (keyFile gcpConfig))
      | Azure \<Rightarrow>
          (case azure cloudConfig of
             None \<Rightarrow> False
           | Some azureConfig \<Rightarrow>
               truthy (accountName azureConfig) \<and> truthy (containerName azureConfig)
               \<and> (present (accountKey azureConfig) \<or> present (sasToken azureConfig))))"

text \<open>
  The predicate as the specification words it: every required field of the active
  variant is non-empty, where S3 requires bucket, region, access key id and secret access
  key, GCP requires bucket, project id and key file, and Azure requires account name,
  container name and an account key or a SAS token.
\<close>

definition required_fields_spec :: "CloudConfig \<Rightarrow> bool" where
  "required_fields_spec c =
     (case provider c of
        S3 \<Rightarrow> (\<exists>s. s3 c = Some s \<and> S3Config.bucket s \<noteq> [] \<and> region s \<noteq> []
                  \<and> accessKeyId s \<noteq> [] \<and> secretAccessKey s \<noteq> [])
      | GCP \<Rightarrow> (\<exists>g. gcp c = Some g \<and> GCPConfig.bucket g \<noteq> [] \<and> projectId g \<noteq> [] \<and> keyFile g \<noteq> [])
      | Azure \<Rightarrow> (\<exists>a. azure c = Some a \<and> accountName a \<noteq> [] \<and> containerName a \<noteq> []
                  \<and> ((\<exists>k. accountKey a = Some k \<and> k \<noteq> []) \<or> (\<exists>t. sasToken a = Some t \<and> t \<noteq> []))))"

text \<open>
  The initial value of the \<open>cloudConfig\<close> state. The region starts as \<open>us-east-1\<close> and the
  form edits it through a \<open>select\<close> with eight fixed, non-empty options.
\<close>

definition initialCloudConfig :: CloudConfig where
  "initialCloudConfig =
     \<lparr>provider = S3,
      s3 = Some \<lparr>S3Config.bucket = [], region = js ''us-east-1'', accessKeyId = [],
                 secretAccessKey = [], sessionToken = Some [], endpoint = Some []\<rparr>,
      gcp = Some \<lparr>GCPConfig.bucket = [], projectId = [], keyFile = []\<rparr>,
      azure = Some \<lparr>accountName = [], containerName = [], accountKey = Some [], sasToken = Some []\<rparr>\<rparr>"


subsection \<open>Upload items and aggregate progress\<close>

text \<open>
  The interfaces \<open>UploadItem\<close> and \<open>UploadState\<close>. The field \<open>id\<close> is named \<open>item_id\<close> here.
  An id is the string \<open>Date.now().toString()\<close> for a single upload and
  \<open>`${Date.now()}-${index}`\<close> for an item of a batch; the two decimal numerals and the
  dash determine the pair of numbers, so an id is kept as the numbers it is printed from.
  \<open>progress\<close> only ever receives \<open>0\<close>, \<open>100\<close> and the result of \<open>Math.round\<close>, so it is an
  integer.
\<close>

datatype status = Pending | Uploading | Success | Error

datatype item_id = SingleId nat | BatchId nat nat

record UploadItem =
  item_id :: item_id
  url :: jstring
  status :: status
  progress :: int
  error :: "jstring option"
  fileName :: "jstring option"

record UploadState =
  items :: "UploadItem list"
  isUploading :: bool

text \<open>
  \<^verbatim>\<open>
  if (uploadState.items.length === 0) return 0;
  const total = uploadState.items.reduce((sum, item) => sum + item.progress, 0);
  return Math.round(total / uploadState.items.length);
  \<close>
  \<open>Math.round\<close> rounds to the nearest integer, a tie towards \<open>+\<infinity>\<close>, as \<open>round\<close> does.
  The quotient is taken in the reals: for integer progress values the double nearest to
  \<open>total / length\<close> rounds to the same integer unless the list has more than \<open>2^46\<close> items.
\<close>

definition getOverallProgress :: "UploadState \<Rightarrow> int" where
  "getOverallProgress uploadState =
     (if length (items uploadState) = 0 then 0
      else
        let total = foldl (\<lambda>sum item. sum + progress item) 0 (items uploadState)
        in round (real_of_int total / real (length (items uploadState))))"

text \<open>The arithmetic mean of the items' progress values, as the specification words it.\<close>

definition mean_progress :: "UploadState \<Rightarrow> real" where
  "mean_progress st = real_of_int (sum_list (map progress (items st))) / real (length (items st))"

definition item_with_progress :: "int \<Rightarrow> status \<Rightarrow> UploadItem" where
  "item_with_progress p s =
     \<lparr>item_id = SingleId 0, url = [], status = s, progress = p, error = None, fileName = None\<rparr>"

lemma foldl_progress: "foldl (\<lambda>sum item. sum + progress item) a xs = a + sum_list (map progress xs)"
  by (induction xs arbitrary: a) simp_all

lemma getOverallProgress_round:
  "getOverallProgress st = (if items st = [] then 0 else round (mean_progress st))"
  by (simp add: getOverallProgress_def mean_progress_def foldl_progress)

lemma round_half_up_int:
  assumes "0 < n"
  shows "round (real_of_int t / real n) = (2 * t + int n) div (2 * int n)"
proof -
  have "real_of_int t / real n + 1 / 2 = real_of_int (2 * t + int n) / real_of_int (2 * int n)"
    using assms by (simp add: field_simps)
  then show ?thesis
    unfolding round_def by (simp only: floor_divide_of_int_eq)
qed

lemma getOverallProgress_int:
  "getOverallProgress st =
     (if items st = [] then 0
      else (2 * sum_list (map progress (items st)) + int (length (items st)))
             div (2 * int (length (items st))))"
proof (cases "items st = []")
  case True
  then show ?thesis by (simp add: getOverallProgress_def)
next
  case False
  then have "0 < length (items st)" by simp
  from round_half_up_int [OF this] False show ?thesis
    by (simp add: getOverallProgress_def foldl_progress)
qed

lemma round_bounds: "x - 1 / 2 < real_of_int (round x) \<and> real_of_int (round x) \<le> x + 1 / 2"
  unfolding round_def by linarith

lemma mean_exact:
  assumes "items st \<noteq> []" "int (length (items st)) dvd sum_list (map progress (items st))"
  shows "real_of_int (getOverallProgress st) = mean_progress st"
proof -
  from assms(2) obtain k where k: "sum_list (map progress (items st)) = int (length (items st)) * k"
    by (auto simp: dvd_def)
  from assms(1) have n: "real (length (items st)) \<noteq> 0" by simp
  have "mean_progress st = real_of_int k"
    using n by (simp add: mean_progress_def k)
  then show ?thesis using assms(1) by (simp add: getOverallProgress_round)
qed

text \<open>
  The configuration form. \<open>setCloudConfig\<close> is called at thirteen places: the three provider
  buttons, and one \<open>onChange\<close> handler per field. A text field's handler stores
  \<open>sanitizeInput(e.target.value)\<close>, except for the S3 secret access key, the GCP key file
  and the Azure account key, which are stored as typed. The region is a \<open>select\<close>: its
  \<open>e.target.value\<close> is the \<open>value\<close> of one of its eight options, so the handler's argument
  is an option. There is no field for the S3 endpoint. \<open>config_edit\<close> names the thirteen
  calls and \<open>setCloudConfig e prev\<close> is the state after the call \<open>e\<close>. In
  \<open>{ ...prev.s3!, bucket: v }\<close> the variant \<open>prev.s3\<close> is never \<open>undefined\<close> (lemma
  \<open>configured_by_variants\<close>), so \<open>map_option\<close> loses no case. \<open>configured_by edits\<close> is the
  configuration after the user's edits, from the initial state.
\<close>

datatype region_option =
  UsEast1 | UsEast2 | UsWest1 | UsWest2 | EuWest1 | EuCentral1 | ApSoutheast1 | ApNortheast1

definition region_value :: "region_option \<Rightarrow> jstring" where
  "region_value r =
     (case r of
        UsEast1 \<Rightarrow> js ''us-east-1'' | UsEast2 \<Rightarrow> js ''us-east-2''
      | UsWest1 \<Rightarrow> js ''us-west-1'' | UsWest2 \<Rightarrow> js ''us-west-2''
      | EuWest1 \<Rightarrow> js ''eu-west-1'' | EuCentral1 \<Rightarrow> js ''eu-central-1''
      | ApSoutheast1 \<Rightarrow> js ''ap-southeast-1'' | ApNortheast1 \<Rightarrow> js ''ap-northeast-1'')"

datatype config_edit =
  SelectProvider provider
| EditS3Bucket jstring
| SelectS3Region region_option
| EditS3AccessKeyId jstring
| EditS3SecretAccessKey jstring
| EditS3SessionToken jstring
| EditGcpBucket jstring
| EditGcpProjectId jstring
| EditGcpKeyFile jstring
| EditAzureAccountName jstring
| EditAzureContainerName jstring
| EditAzureAccountKey jstring
| EditAzureSasToken jstring

fun setCloudConfig :: "config_edit \<Rightarrow> CloudConfig \<Rightarrow> CloudConfig" where
  "setCloudConfig (SelectProvider p) prev = prev\<lparr>provider := p\<rparr>"
| "setCloudConfig (EditS3Bucket v) prev =
     prev\<lparr>s3 := map_option (\<lambda>c. c\<lparr>S3Config.bucket := sanitizeInput v\<rparr>) (s3 prev)\<rparr>"
| "setCloudConfig (SelectS3Region r) prev =
     prev\<lparr>s3 := map_option (\<lambda>c. c\<lparr>region := region_value r\<rparr>) (s3 prev)\<rparr>"
| "setCloudConfig (EditS3AccessKeyId v) prev =
     prev\<lparr>s3 := map_option (\<lambda>c. c\<lparr>accessKeyId := sanitizeInput v\<rparr>) (s3 prev)\<rparr>"
| "setCloudConfig (EditS3SecretAccessKey v) prev =
     prev\<lparr>s3 := map_option (\<lambda>c. c\<lparr>secretAccessKey := v\<rparr>) (s3 prev)\<rparr>"
| "setCloudConfig (EditS3SessionToken v) prev =
     prev\<lparr>s3 := map_option (\<lambda>c. c\<lparr>sessionToken := Some (sanitizeInput v)\<rparr>) (s3 prev)\<rparr>"
| "setCloudConfig (EditGcpBucket v) prev =
     prev\<lparr>gcp := map_option (\<lambda>c. c\<lparr>GCPConfig.bucket := sanitizeInput v\<rparr>) (gcp prev)\<rparr>"
| "setCloudConfig (EditGcpProjectId v) prev =
     prev\<lparr>gcp := map_option (\<lambda>c. c\<lparr>projectId := sanitizeInput v\<rparr>) (gcp prev)\<rparr>"
| "setCloudConfig (EditGcpKeyFile v) prev =
     prev\<lparr>gcp := map_option (\<lambda>c. c\<lparr>keyFile := v\<rparr>) (gcp prev)\<rparr>"
| "setCloudConfig (EditAzureAccountName v) prev =
     prev\<lparr>azure := map_option (\<lambda>c. c\<lparr>accountName := sanitizeInput v\<rparr>) (azure prev)\<rparr>"
| "setCloudConfig (EditAzureContainerName v) prev =
     prev\<lparr>azure := map_option (\<lambda>c. c\<lparr>containerName := sanitizeInput v\<rparr>) (azure prev)\<rparr>"
| "setCloudConfig (EditAzureAccountKey v) prev =
     prev\<lparr>azure := map_option (\<lambda>c. c\<lparr>accountKey := Some v\<rparr>) (azure prev)\<rparr>"
| "setCloudConfig (EditAzureSasToken v) prev =
     prev\<lparr>azure := map_option (\<lambda>c. c\<lparr>sasToken := Some (sanitizeInput v)\<rparr>) (azure prev)\<rparr>"

definition configured_by :: "config_edit list \<Rightarrow> CloudConfig" where
  "configured_by edits = foldl (\<lambda>prev e. setCloudConfig e prev) initialCloudConfig edits"

subsection \<open>Results on \<open>isCloudConfigured\<close> and \<open>getOverallProgress\<close>\<close>

text \<open>
  What \<open>isCloudConfigured\<close> reads, for any value of the type \<open>CloudConfig\<close>: the S3 branch
  does not read the region, and agrees with the specification's predicate whenever the
  region is non-empty.
\<close>

lemma isCloudConfigured_fields:
  "(isCloudConfigured c \<longleftrightarrow>
      (case provider c of
         S3 \<Rightarrow> (\<exists>s. s3 c = Some s \<and> S3Config.bucket s \<noteq> [] \<and> accessKeyId s \<noteq> []
                   \<and> secretAccessKey s \<noteq> [])
       | GCP \<Rightarrow> (\<exists>g. gcp c = Some g \<and> GCPConfig.bucket g \<noteq> [] \<and> projectId g \<noteq> []
                   \<and> keyFile g \<noteq> [])
       | Azure \<Rightarrow> (\<exists>a. azure c = Some a \<and> accountName a \<noteq> [] \<and> containerName a \<noteq> []
                   \<and> ((\<exists>k. accountKey a = Some k \<and> k \<noteq> [])
                        \<or> (\<exists>t. sasToken a = Some t \<and> t \<noteq> [])))))
   \<and> ((\<forall>s. s3 c = Some s \<longrightarrow> region s \<noteq> [])
        \<longrightarrow> (isCloudConfigured c \<longleftrightarrow> required_fields_spec c))"
  by (auto simp: isCloudConfigured_def required_fields_spec_def truthy_def present_def
      split: provider.splits option.splits)

text \<open>Every option of the region \<open>select\<close> has a non-empty value.\<close>

lemma region_value_nonempty: "region_value r \<noteq> []"
  by (cases r) (simp_all add: region_value_def js_def)

definition variants_present :: "CloudConfig \<Rightarrow> bool" where
  "variants_present c \<longleftrightarrow>
     (\<exists>s. s3 c = Some s \<and> region s \<noteq> []) \<and> gcp c \<noteq> None \<and> azure c \<noteq> None"

lemma variants_present_initial: "variants_present initialCloudConfig"
  by (simp add: variants_present_def initialCloudConfig_def js_def)

lemma variants_present_step: "variants_present c \<Longrightarrow> variants_present (setCloudConfig e c)"
  by (cases e) (auto simp: variants_present_def region_value_nonempty)

lemma variants_present_foldl:
  "variants_present c \<Longrightarrow> variants_present (foldl (\<lambda>prev e. setCloudConfig e prev) c edits)"
  by (induction edits arbitrary: c) (simp_all add: variants_present_step)

lemma configured_by_variants:
  "\<exists>s g a. s3 (configured_by edits) = Some s \<and> region s \<noteq> []
     \<and> gcp (configured_by edits) = Some g \<and> azure (configured_by edits) = Some a"
  using variants_present_foldl [OF variants_present_initial, of edits]
  by (auto simp: configured_by_def variants_present_def)

text \<open>
  C9. For every configuration state, that is for the configuration after any sequence
  of edits of the form, \<open>isCloudConfigured\<close> is true if and only if every required field
  of the active provider's variant is non-empty: bucket, region, access key id and
  secret access key for S3; bucket, project id and key file for GCP; account name,
  container name and the account key or the SAS token for Azure. The region is never
  empty in such a state, which is why the predicate need not read it.
\<close>

theorem isCloudConfigured_required_fields:
  "(isCloudConfigured (configured_by edits) \<longleftrightarrow> required_fields_spec (configured_by edits))
   \<and> (isCloudConfigured (configured_by edits) \<longleftrightarrow>
        (case provider (configured_by edits) of
           S3 \<Rightarrow> (\<exists>s. s3 (configured_by edits) = Some s \<and> S3Config.bucket s \<noteq> []
                     \<and> region s \<noteq> [] \<and> accessKeyId s \<noteq> [] \<and> secretAccessKey s \<noteq> [])
         | GCP \<Rightarrow> (\<exists>g. gcp (configured_by edits) = Some g \<and> GCPConfig.bucket g \<noteq> []
                     \<and> projectId g \<noteq> [] \<and> keyFile g \<noteq> [])
         | Azure \<Rightarrow> (\<exists>a. azure (configured_by edits) = Some a \<and> accountName a \<noteq> []
                     \<and> containerName a \<noteq> []
                     \<and> ((\<exists>k. accountKey a = Some k \<and> k \<noteq> [])
                          \<or> (\<exists>t. sasToken a = Some t \<and> t \<noteq> [])))))"
proof -
  from configured_by_variants [of edits]
  have r: "\<forall>s. s3 (configured_by edits) = Some s \<longrightarrow> region s \<noteq> []" by auto
  with isCloudConfigured_fields [of "configured_by edits"]
  have "isCloudConfigured (configured_by edits) \<longleftrightarrow> required_fields_spec (configured_by edits)"
    by blast
  then show ?thesis by (simp add: required_fields_spec_def)
qed

text \<open>
  Two configurations the form reaches: Azure with a SAS token only, and S3 with its
  three text fields filled in and the region chosen.
\<close>

definition edits_azure_sas :: "config_edit list" where
  "edits_azure_sas =
     [SelectProvider Azure, EditAzureAccountName (js ''acct''),
      EditAzureContainerName (js '' files ''), EditAzureSasToken (js ''sv=2022&sig=abc'')]"

definition edits_s3 :: "config_edit list" where
  "edits_s3 =
     [EditS3Bucket (js ''my-bucket''), SelectS3Region EuWest1,
      EditS3AccessKeyId (js ''AKIAEXAMPLE''), EditS3SecretAccessKey (js ''secret'')]"

theorem isCloudConfigured_required_fields_witness:
  "isCloudConfigured (configured_by edits_azure_sas)
   \<and> isCloudConfigured (configured_by edits_s3)
   \<and> \<not> isCloudConfigured (configured_by (butlast edits_s3))
   \<and> \<not> isCloudConfigured (configured_by [])"
proof -
  have san: "sanitizeInput (js ''acct'') = js ''acct''" "sanitizeInput (js '' files '') = js ''files''"
    "sanitizeInput (js ''sv=2022&sig=abc'') = js ''sv=2022sig=abc''"
    "sanitizeInput (js ''my-bucket'') = js ''my-bucket''"
    "sanitizeInput (js ''AKIAEXAMPLE'') = js ''AKIAEXAMPLE''"
    by (simp_all add: sanitizeInput_def trim_def is_input_markup_def is_markup_char_def
        is_whitespace_def js_def)
  have a: "required_fields_spec (configured_by edits_azure_sas)"
    by (simp add: configured_by_def edits_azure_sas_def initialCloudConfig_def san
        required_fields_spec_def) (simp add: js_def)
  have b: "required_fields_spec (configured_by edits_s3)"
    by (simp add: configured_by_def edits_s3_def initialCloudConfig_def san
        required_fields_spec_def region_value_def) (simp add: js_def)
  have c: "\<not> required_fields_spec (configured_by (butlast edits_s3))"
    by (simp add: configured_by_def edits_s3_def initialCloudConfig_def san
        required_fields_spec_def region_value_def)
  have d: "\<not> required_fields_spec (configured_by [])"
    by (simp add: configured_by_def initialCloudConfig_def required_fields_spec_def)
  from isCloudConfigured_required_fields [of edits_azure_sas]
    isCloudConfigured_required_fields [of edits_s3]
    isCloudConfigured_required_fields [of "butlast edits_s3"]
    isCloudConfigured_required_fields [of "[]"] a b c d
  show ?thesis by blast
qed

text \<open>A batch of three: one item done, two failed.\<close>

definition one_done_two_failed :: UploadState where
  "one_done_two_failed =
     \<lparr>items = [item_with_progress 100 Success, item_with_progress 0 Error,
               item_with_progress 0 Error],
      isUploading = True\<rparr>"

text \<open>
  C8, as stated, fails: for progress values 100, 0 and 0 the mean is \<open>100 / 3\<close> and the
  aggregate is 33.
\<close>

theorem getOverallProgress_mean_counterexample:
  "getOverallProgress one_done_two_failed = 33
   \<and> mean_progress one_done_two_failed = 100 / 3
   \<and> real_of_int (getOverallProgress one_done_two_failed) \<noteq> mean_progress one_done_two_failed"
proof -
  have a: "getOverallProgress one_done_two_failed = 33"
    by (simp add: getOverallProgress_int one_done_two_failed_def item_with_progress_def)
  have b: "mean_progress one_done_two_failed = 100 / 3"
    by (simp add: mean_progress_def one_done_two_failed_def item_with_progress_def)
  show ?thesis unfolding a b by simp
qed

text \<open>
  C8, amended. The aggregate progress is 0 for an empty batch and otherwise the mean of
  the items' progress values rounded to the nearest integer, a tie rounded up; it
  differs from the mean by at most one half, and equals the mean whenever the number of
  items divides the sum of the progress values.
\<close>

theorem getOverallProgress_rounded_mean:
  "(items st = [] \<longrightarrow> getOverallProgress st = 0)
   \<and> (items st \<noteq> [] \<longrightarrow>
        getOverallProgress st = round (mean_progress st)
        \<and> mean_progress st - 1 / 2 < real_of_int (getOverallProgress st)
        \<and> real_of_int (getOverallProgress st) \<le> mean_progress st + 1 / 2)
   \<and> (items st \<noteq> [] \<and> int (length (items st)) dvd sum_list (map progress (items st))
        \<longrightarrow> real_of_int (getOverallProgress st) = mean_progress st)"
  using round_bounds [of "mean_progress st"] mean_exact [of st]
  by (simp add: getOverallProgress_round)

theorem getOverallProgress_rounded_mean_witness:
  "getOverallProgress one_done_two_failed = round (mean_progress one_done_two_failed)
   \<and> getOverallProgress \<lparr>items = [], isUploading = False\<rparr> = 0
   \<and> real_of_int (getOverallProgress \<lparr>items = [item_with_progress 100 Success, item_with_progress 0 Error], isUploading = True\<rparr>)
       = mean_progress \<lparr>items = [item_with_progress 100 Success, item_with_progress 0 Error], isUploading = True\<rparr>"
proof -
  let ?two = "\<lparr>items = [item_with_progress 100 Success, item_with_progress 0 Error], isUploading = True\<rparr>"
  have a: "items one_done_two_failed \<noteq> []"
    by (simp add: one_done_two_failed_def)
  have b: "items ?two \<noteq> [] \<and> int (length (items ?two)) dvd sum_list (map progress (items ?two))"
    by (simp add: item_with_progress_def)
  have c: "items \<lparr>items = [], isUploading = False\<rparr> = []" by simp
  from getOverallProgress_rounded_mean [of one_done_two_failed] a
  have "getOverallProgress one_done_two_failed = round (mean_progress one_done_two_failed)"
    by blast
  moreover from getOverallProgress_rounded_mean [of "\<lparr>items = [], isUploading = False\<rparr>"] c
  have "getOverallProgress \<lparr>items = [], isUploading = False\<rparr> = 0" by blast
  moreover from getOverallProgress_rounded_mean [of ?two] b
  have "real_of_int (getOverallProgress ?two) = mean_progress ?two" by blast
  ultimately show ?thesis by blast
qed

subsection \<open>What the network answers\<close>

text \<open>
  A value that is thrown or that rejects a promise is either an \<open>Error\<close> object with its
  message or some other value; \<open>processUpload\<close> tells them apart with \<open>instanceof\<close>.
  \<open>error_message\<close> is \<open>error instanceof Error ? error.message : 'Upload failed'\<close>.
  An awaited call is modelled by its result, \<open>Inl\<close> what it rejects with.
\<close>

datatype thrown = ErrorObject jstring | OtherValue

definition error_message :: "thrown \<Rightarrow> jstring" where
  "error_message e = (case e of ErrorObject message \<Rightarrow> message | OtherValue \<Rightarrow> js ''Upload failed'')"

text \<open>\<open>decimal n\<close> is the string a template literal prints for the number \<open>n\<close>.\<close>

function decimal :: "nat \<Rightarrow> jstring" where
  "decimal n = (if n < 10 then [of_nat (48 + n)] else decimal (n div 10) @ [of_nat (48 + n mod 10)])"
  by pat_completeness auto
termination
  by (relation "measure id") auto

declare decimal.simps [simp del]

text \<open>
  The three network operations of one item are answered by the environment:
  \<^item> \<open>source\<close>: \<open>fetch(item.url)\<close> rejects, or gives a response with \<open>ok\<close>, \<open>statusText\<close> and
    \<open>blob()\<close>, which rejects or gives a blob of some media type;
  \<^item> \<open>broker\<close>: the POST to the credential broker, a function of the request body; it
    rejects, or the response is ok and \<open>json()\<close> rejects or holds \<open>signedUrl\<close>, or the
    response is not ok and \<open>json()\<close> rejects or holds \<open>error?.message\<close>;
  \<^item> \<open>transfer\<close>: the \<open>XMLHttpRequest\<close> PUT to the signed URL: the upload's progress events
    in order, then \<open>load\<close> with the final HTTP status or \<open>error\<close>; or \<open>open\<close>,
    \<open>setRequestHeader\<close> or \<open>send\<close> throws inside the promise's executor, which rejects
    the promise before any event. A progress event carries
    \<open>lengthComputable\<close> and the value of \<open>Math.round((e.loaded / e.total) * 100)\<close>, a
    floating-point computation that is left to the runtime. The upload's progress
    events are dispatched before the request's \<open>load\<close> or \<open>error\<close> event.
\<close>

record presign_request =
  endpoint :: jstring
  req_fileName :: jstring
  req_fileType :: jstring
  req_config :: CloudConfig

datatype broker_reply =
  ReplyOk "thrown + jstring"
| ReplyNotOk "thrown + jstring option"

record source_response =
  ok :: bool
  statusText :: jstring
  blob :: "thrown + jstring"

datatype progress_event = ProgressEvent (lengthComputable: bool) (percent: int)

datatype xhr_end = Load nat | NetworkError | SetupThrows thrown

record outcome =
  source :: "thrown + source_response"
  broker :: "presign_request \<Rightarrow> thrown + broker_reply"
  transfer :: "jstring \<Rightarrow> progress_event list \<times> xhr_end"

subsection \<open>\<open>getPresignedUrl\<close>\<close>

text \<open>\<open>or_else v d\<close> is \<open>v || d\<close> for an optional string \<open>v\<close>.\<close>

definition or_else :: "jstring option \<Rightarrow> jstring \<Rightarrow> jstring" where
  "or_else v d = (case v of None \<Rightarrow> d | Some x \<Rightarrow> if truthy x then x else d)"

definition provider_upper :: "provider \<Rightarrow> jstring" where
  "provider_upper p = (case p of S3 \<Rightarrow> js ''S3'' | GCP \<Rightarrow> js ''GCP'' | Azure \<Rightarrow> js ''AZURE'')"

text \<open>
  \<open>check_config\<close> is the validation at the head of \<open>getPresignedUrl\<close>; it throws
  \<open>'S3 configuration required'\<close> (and likewise for GCP and Azure) before any request is
  made. \<open>getPresignedUrl\<close> then posts the sanitized file name and type with the active
  variant's configuration, throws the broker's error message (or a default) when the
  response is not ok, and returns \<open>signedUrl\<close> otherwise.
\<close>

definition check_config :: "CloudConfig \<Rightarrow> thrown + unit" where
  "check_config cloudConfig =
     (case provider cloudConfig of
        S3 \<Rightarrow>
          (if (case s3 cloudConfig of
                 None \<Rightarrow> True
               | Some s3Config \<Rightarrow>
                   \<not> truthy (S3Config.bucket s3Config) \<or> \<not> truthy (accessKeyId s3Config)
                   \<or> \<not> truthy (secretAccessKey s3Config))
           then Inl (ErrorObject (js ''S3 configuration required'')) else Inr ())
      | GCP \<Rightarrow>
          (if (case gcp cloudConfig of
                 None \<Rightarrow> True
               | Some gcpConfig \<Rightarrow>
                   \<not> truthy (GCPConfig.bucket gcpConfig) \<or> \<not> truthy (projectId gcpConfig)
                   \<or> \<not> truthy (keyFile gcpConfig))
           then Inl (ErrorObject (js ''GCP configuration required'')) else Inr ())
      | Azure \<Rightarrow>
          (if (case azure cloudConfig of
                 None \<Rightarrow> True
               | Some azureConfig \<Rightarrow>
                   \<not> truthy (accountName azureConfig) \<or> \<not> truthy (containerName azureConfig)
                   \<or> (\<not> present (accountKey azureConfig) \<and> \<not> present (sasToken azureConfig)))
           then Inl (ErrorObject (js ''Azure configuration required'')) else Inr ()))"

definition broker_endpoint :: "provider \<Rightarrow> jstring" where
  "broker_endpoint p =
     (if p = S3 then js ''/api/s3-presigned-url''
      else if p = GCP then js ''/api/gcp-signed-url''
      else js ''/api/azure-sas-url'')"

definition getPresignedUrl ::
  "CloudConfig \<Rightarrow> (presign_request \<Rightarrow> thrown + broker_reply) \<Rightarrow> jstring \<Rightarrow> jstring \<Rightarrow> thrown + jstring" where
  "getPresignedUrl cloudConfig post file_name file_type =
     (case check_config cloudConfig of
        Inl e \<Rightarrow> Inl e
      | Inr _ \<Rightarrow>
          (case post \<lparr>endpoint = broker_endpoint (provider cloudConfig),
                      req_fileName = sanitizeFileName file_name,
                      req_fileType = sanitizeInput file_type,
                      req_config = cloudConfig\<rparr> of
             Inl e \<Rightarrow> Inl e
           | Inr (ReplyNotOk errorData) \<Rightarrow>
               (case errorData of
                  Inl e \<Rightarrow> Inl e
                | Inr message \<Rightarrow>
                    Inl (ErrorObject
                      (or_else message
                         (js ''Failed to get '' @ provider_upper (provider cloudConfig)
                          @ js '' signed URL''))))
           | Inr (ReplyOk body) \<Rightarrow> body))"

subsection \<open>\<open>uploadFileToCloud\<close> and \<open>processUpload\<close>\<close>

text \<open>
  Every state update in these functions has the form
  \<open>setUploadState(prev => ({...prev, items: prev.items.map(i => i.id === id ? f(i) : i)}))\<close>;
  this is \<open>update_item id f\<close>. A function that calls \<open>setUploadState\<close> returns the list of
  the states it sets, in order. \<open>progress_trace\<close> is the \<open>progress\<close> listener applied to the
  events in turn; \<open>uploadFileToCloud\<close> resolves for a final status 200 or 201 and rejects
  otherwise.
\<close>

definition update_item :: "item_id \<Rightarrow> (UploadItem \<Rightarrow> UploadItem) \<Rightarrow> UploadState \<Rightarrow> UploadState" where
  "update_item i f prev =
     prev\<lparr>items := map (\<lambda>item. if item_id item = i then f item else item) (items prev)\<rparr>"

fun progress_trace :: "item_id \<Rightarrow> progress_event list \<Rightarrow> UploadState \<Rightarrow> UploadState list" where
  "progress_trace itemId [] st = []"
| "progress_trace itemId (e # es) st =
     (if lengthComputable e
      then (let st' = update_item itemId (\<lambda>item. item\<lparr>progress := percent e\<rparr>) st
            in st' # progress_trace itemId es st')
      else progress_trace itemId es st)"

definition uploadFileToCloud ::
  "(jstring \<Rightarrow> progress_event list \<times> xhr_end) \<Rightarrow> jstring \<Rightarrow> item_id \<Rightarrow> UploadState
     \<Rightarrow> UploadState list \<times> (thrown + unit)" where
  "uploadFileToCloud xhr signedUrl itemId st =
     (case xhr signedUrl of
        (events, fin) \<Rightarrow>
          (case fin of
             SetupThrows e \<Rightarrow> ([], Inl e)
           | Load xhr_status \<Rightarrow>
               (progress_trace itemId events st,
                if xhr_status = 200 \<or> xhr_status = 201 then Inr ()
                else Inl (ErrorObject (js ''Upload failed: '' @ decimal xhr_status)))
           | NetworkError \<Rightarrow>
               (progress_trace itemId events st, Inl (ErrorObject (js ''Network error'')))))"

text \<open>
  \<open>last_segment u\<close> is \<open>u.split('/').pop()\<close>, and \<open>upload_name\<close> is
  \<open>item.fileName || item.url.split('/').pop() || 'uploaded-file'\<close>. \<open>try_upload\<close> is the
  body of the \<open>try\<close> block after the first state update; \<open>processUpload\<close> marks the item
  \<open>uploading\<close>, runs that body, and ends with \<open>success\<close> and progress 100, or, in the
  \<open>catch\<close> block, with \<open>error\<close>, progress 0 and the message.
\<close>

definition last_segment :: "jstring \<Rightarrow> jstring" where
  "last_segment u = rev (takeWhile (\<lambda>c. c \<noteq> 0x2F) (rev u))"

definition upload_name :: "UploadItem \<Rightarrow> jstring" where
  "upload_name item =
     or_else (fileName item)
       (if truthy (last_segment (url item)) then last_segment (url item)
        else js ''uploaded-file'')"

definition try_upload ::
  "CloudConfig \<Rightarrow> outcome \<Rightarrow> UploadItem \<Rightarrow> UploadState \<Rightarrow> UploadState list \<times> (thrown + unit)" where
  "try_upload cloudConfig env item st =
     (case source env of
        Inl e \<Rightarrow> ([], Inl e)
      | Inr response \<Rightarrow>
          if \<not> ok response
          then ([], Inl (ErrorObject (js ''Fetch failed: '' @ statusText response)))
          else
            (case blob response of
               Inl e \<Rightarrow> ([], Inl e)
             | Inr blob_type \<Rightarrow>
                 (let name = sanitizeFileName (upload_name item)
                  in case getPresignedUrl cloudConfig (broker env) name blob_type of
                       Inl e \<Rightarrow> ([], Inl e)
                     | Inr presignedUrl \<Rightarrow>
                         uploadFileToCloud (transfer env) presignedUrl (item_id item) st)))"

definition processUpload ::
  "CloudConfig \<Rightarrow> outcome \<Rightarrow> UploadItem \<Rightarrow> UploadState \<Rightarrow> UploadState list" where
  "processUpload cloudConfig env item st0 =
     (let st1 = update_item (item_id item) (\<lambda>i. i\<lparr>status := Uploading, progress := 0\<rparr>) st0
      in case try_upload cloudConfig env item st1 of
           (sts, result) \<Rightarrow>
             st1 # sts @
             [case result of
                Inr _ \<Rightarrow>
                  update_item (item_id item) (\<lambda>i. i\<lparr>status := Success, progress := 100\<rparr>)
                    (last (st1 # sts))
              | Inl e \<Rightarrow>
                  update_item (item_id item)
                    (\<lambda>i. i\<lparr>status := Error, progress := 0, error := Some (error_message e)\<rparr>)
                    (last (st1 # sts))])"

subsection \<open>\<open>handleBulkUpload\<close>, \<open>handleFileUpload\<close> and \<open>handleSingleUpload\<close>\<close>

text \<open>
  \<open>now index\<close> is the value of \<open>Date.now()\<close> read when the item with that index is created,
  and \<open>net\<close> gives each item the answers of the network. \<open>process_all\<close> is the loop
  \<open>for (const item of items) await processUpload(item)\<close>. A handler sets the fresh items
  with \<open>isUploading: true\<close>, processes them one after the other and clears \<open>isUploading\<close>;
  a handler that returns before any state update has the empty trace. \<open>handleFileUpload\<close> takes
  the chosen file, if any, as the result of \<open>file.text()\<close>. The traces are those of a
  batch during which the user removes no item from the list; \<open>clearAll\<close> and the three
  handlers are disabled while a batch runs.
\<close>

definition make_items :: "(nat \<Rightarrow> nat) \<Rightarrow> jstring list \<Rightarrow> UploadItem list" where
  "make_items now urls =
     map (\<lambda>(index, u). \<lparr>item_id = BatchId (now index) index, url = u, status = Pending,
                         progress = 0, error = None, fileName = None\<rparr>)
       (enumerate 0 urls)"

fun process_all ::
  "CloudConfig \<Rightarrow> (item_id \<Rightarrow> outcome) \<Rightarrow> UploadItem list \<Rightarrow> UploadState \<Rightarrow> UploadState list" where
  "process_all cloudConfig net [] st = []"
| "process_all cloudConfig net (item # rest) st =
     (let tr = processUpload cloudConfig (net (item_id item)) item st
      in tr @ process_all cloudConfig net rest (last tr))"

definition handleBulkUpload ::
  "CloudConfig \<Rightarrow> (jstring \<Rightarrow> jstring option) \<Rightarrow> (nat \<Rightarrow> nat) \<Rightarrow> (item_id \<Rightarrow> outcome) \<Rightarrow> jstring
     \<Rightarrow> UploadState list" where
  "handleBulkUpload cloudConfig URL_protocol now net bulkUrls =
     (let urls = parseUrls URL_protocol bulkUrls
      in if length urls = 0 then []
         else
           (let its = make_items now urls;
                st0 = \<lparr>items = its, isUploading = True\<rparr>;
                tr = st0 # process_all cloudConfig net its st0
            in tr @ [(last tr)\<lparr>isUploading := False\<rparr>]))"

definition handleFileUpload ::
  "CloudConfig \<Rightarrow> (jstring \<Rightarrow> jstring option) \<Rightarrow> (nat \<Rightarrow> nat) \<Rightarrow> (item_id \<Rightarrow> outcome)
     \<Rightarrow> (thrown + jstring) option \<Rightarrow> UploadState list" where
  "handleFileUpload cloudConfig URL_protocol now net file =
     (case file of
        None \<Rightarrow> []
      | Some file_text \<Rightarrow>
          (case file_text of
             Inl e \<Rightarrow> []
           | Inr text \<Rightarrow>
               (let urls = parseUrls URL_protocol text
                in if length urls = 0 then []
                   else
                     (let its = make_items now urls;
                          st0 = \<lparr>items = its, isUploading = True\<rparr>;
                          tr = st0 # process_all cloudConfig net its st0
                      in tr @ [(last tr)\<lparr>isUploading := False\<rparr>]))))"

definition handleSingleUpload ::
  "CloudConfig \<Rightarrow> (jstring \<Rightarrow> jstring option) \<Rightarrow> (nat \<Rightarrow> nat) \<Rightarrow> (item_id \<Rightarrow> outcome) \<Rightarrow> jstring
     \<Rightarrow> UploadState list" where
  "handleSingleUpload cloudConfig URL_protocol now net singleUrl =
     (let sanitized = sanitizeUrl singleUrl
      in if \<not> isValidUrl URL_protocol sanitized then []
         else
           (let item = \<lparr>item_id = SingleId (now 0), url = sanitized, status = Pending,
                          progress = 0, error = None, fileName = None\<rparr>;
                st0 = \<lparr>items = [item], isUploading = True\<rparr>;
                tr = st0 # processUpload cloudConfig (net (item_id item)) item st0
            in tr @ [(last tr)\<lparr>isUploading := False\<rparr>]))"

subsection \<open>The shape of a batch's trace\<close>

text \<open>
  \<open>run_batch its\<close> is the trace the three handlers have in common, for the items \<open>its\<close>.
\<close>

definition run_batch ::
  "CloudConfig \<Rightarrow> (item_id \<Rightarrow> outcome) \<Rightarrow> UploadItem list \<Rightarrow> UploadState list" where
  "run_batch cloudConfig net its =
     (let st0 = \<lparr>items = its, isUploading = True\<rparr>;
          tr = st0 # process_all cloudConfig net its st0
      in tr @ [(last tr)\<lparr>isUploading := False\<rparr>])"

lemma handleBulkUpload_run_batch:
  "handleBulkUpload cfg U now net bulkUrls =
     (if parseUrls U bulkUrls = [] then []
      else run_batch cfg net (make_items now (parseUrls U bulkUrls)))"
  by (simp add: handleBulkUpload_def run_batch_def Let_def)

lemma handleFileUpload_run_batch:
  "handleFileUpload cfg U now net chosen =
     (case chosen of
        Some (Inr contents) \<Rightarrow> handleBulkUpload cfg U now net contents
      | _ \<Rightarrow> [])"
  by (simp add: handleFileUpload_def handleBulkUpload_def Let_def split: option.splits sum.splits)

text \<open>
  \<open>upload_result\<close> is how the \<open>try\<close> block of an item ends (it does not depend on the upload
  state), \<open>finish\<close> is the item's last update, and \<open>settled\<close> is the item as the batch
  leaves it. \<open>terminal\<close> holds of \<open>success\<close> and \<open>error\<close>.
\<close>

definition finish :: "thrown + unit \<Rightarrow> UploadItem \<Rightarrow> UploadItem" where
  "finish result x =
     (case result of
        Inr _ \<Rightarrow> x\<lparr>status := Success, progress := 100\<rparr>
      | Inl e \<Rightarrow> x\<lparr>status := Error, progress := 0, error := Some (error_message e)\<rparr>)"

definition upload_result :: "CloudConfig \<Rightarrow> outcome \<Rightarrow> UploadItem \<Rightarrow> thrown + unit" where
  "upload_result cloudConfig env item =
     snd (try_upload cloudConfig env item \<lparr>items = [], isUploading = False\<rparr>)"

definition settled :: "CloudConfig \<Rightarrow> (item_id \<Rightarrow> outcome) \<Rightarrow> UploadItem \<Rightarrow> UploadItem" where
  "settled cloudConfig net x = finish (upload_result cloudConfig (net (item_id x)) x) x"

definition terminal :: "status \<Rightarrow> bool" where
  "terminal s \<longleftrightarrow> s = Success \<or> s = Error"

lemma update_item_split:
  assumes "item_id x = i" "i \<notin> item_id ` set A" "i \<notin> item_id ` set B"
  shows "update_item i f (st\<lparr>items := A @ x # B\<rparr>) = st\<lparr>items := A @ f x # B\<rparr>"
proof -
  have "map (\<lambda>item. if item_id item = i then f item else item) A = A"
    using assms(2) by (intro map_idI) auto
  moreover have "map (\<lambda>item. if item_id item = i then f item else item) B = B"
    using assms(3) by (intro map_idI) auto
  ultimately show ?thesis using assms(1) by (simp add: update_item_def)
qed

lemma progress_trace_shape:
  assumes "item_id x = i" "i \<notin> item_id ` set A" "i \<notin> item_id ` set B"
  shows "\<forall>st' \<in> set (progress_trace i es (st\<lparr>items := A @ x # B\<rparr>)).
           \<exists>p. st' = st\<lparr>items := A @ x\<lparr>progress := p\<rparr> # B\<rparr>"
  using assms(1)
proof (induction es arbitrary: x)
  case Nil
  then show ?case by simp
next
  case (Cons e es)
  show ?case
  proof (cases "lengthComputable e")
    case False
    with Cons show ?thesis by simp
  next
    case True
    let ?x' = "x\<lparr>progress := percent e\<rparr>"
    have u: "update_item i (\<lambda>item. item\<lparr>progress := percent e\<rparr>) (st\<lparr>items := A @ x # B\<rparr>)
           = st\<lparr>items := A @ ?x' # B\<rparr>"
      using Cons.prems assms(2,3) by (rule update_item_split)
    have "item_id ?x' = i" using Cons.prems by simp
    from Cons.IH [OF this]
    have "\<forall>st' \<in> set (progress_trace i es (st\<lparr>items := A @ ?x' # B\<rparr>)).
            \<exists>p. st' = st\<lparr>items := A @ x\<lparr>progress := p\<rparr> # B\<rparr>"
      by simp
    with True u show ?thesis by (auto simp: Let_def)
  qed
qed

lemma try_upload_shape:
  assumes "item_id x = item_id item" "item_id item \<notin> item_id ` set A" "item_id item \<notin> item_id ` set B"
  shows "\<forall>st' \<in> set (fst (try_upload cfg env item (st\<lparr>items := A @ x # B\<rparr>))).
           \<exists>p. st' = st\<lparr>items := A @ x\<lparr>progress := p\<rparr> # B\<rparr>"
  using progress_trace_shape [OF assms, of es st for es]
  by (auto simp: try_upload_def uploadFileToCloud_def Let_def
      split: sum.splits prod.splits xhr_end.splits)

lemma try_upload_result: "snd (try_upload cfg env item st) = upload_result cfg env item"
  by (simp add: upload_result_def try_upload_def uploadFileToCloud_def Let_def
      split: sum.splits prod.splits xhr_end.splits)

lemma processUpload_trace:
  assumes "item_id x = item_id item" "item_id item \<notin> item_id ` set A" "item_id item \<notin> item_id ` set B"
  shows "\<exists>tr. processUpload cfg env item (st\<lparr>items := A @ x # B\<rparr>)
               = tr @ [st\<lparr>items := A @ finish (upload_result cfg env item) x # B\<rparr>]
            \<and> tr \<noteq> []
            \<and> (\<forall>st' \<in> set tr. \<exists>p. st' = st\<lparr>items := A @ x\<lparr>status := Uploading, progress := p\<rparr> # B\<rparr>)"
proof -
  let ?i = "item_id item"
  let ?x1 = "x\<lparr>status := Uploading, progress := 0\<rparr>"
  let ?st1 = "st\<lparr>items := A @ ?x1 # B\<rparr>"
  obtain sts r where t: "try_upload cfg env item ?st1 = (sts, r)"
    by (cases "try_upload cfg env item ?st1")
  have r: "r = upload_result cfg env item"
    using try_upload_result [of cfg env item ?st1] t by simp
  have u1: "update_item ?i (\<lambda>i. i\<lparr>status := Uploading, progress := 0\<rparr>) (st\<lparr>items := A @ x # B\<rparr>) = ?st1"
    using assms by (rule update_item_split)
  have id1: "item_id ?x1 = ?i" using assms(1) by simp
  have sh: "\<forall>st' \<in> set sts. \<exists>p. st' = st\<lparr>items := A @ x\<lparr>status := Uploading, progress := p\<rparr> # B\<rparr>"
    using try_upload_shape [OF id1 assms(2,3), of cfg env st] t by simp
  have "last (?st1 # sts) \<in> set (?st1 # sts)" by (rule last_in_set) simp
  then obtain p where l: "last (?st1 # sts) = st\<lparr>items := A @ x\<lparr>status := Uploading, progress := p\<rparr> # B\<rparr>"
    using sh by auto
  have idp: "item_id (x\<lparr>status := Uploading, progress := p\<rparr>) = ?i" using assms(1) by simp
  have fin: "(case r of
                Inr _ \<Rightarrow> update_item ?i (\<lambda>i. i\<lparr>status := Success, progress := 100\<rparr>) (last (?st1 # sts))
              | Inl e \<Rightarrow> update_item ?i (\<lambda>i. i\<lparr>status := Error, progress := 0, error := Some (error_message e)\<rparr>)
                          (last (?st1 # sts)))
             = st\<lparr>items := A @ finish r x # B\<rparr>"
    unfolding l
    by (cases r) (simp_all add: update_item_split [OF idp assms(2,3)] finish_def)
  have "processUpload cfg env item (st\<lparr>items := A @ x # B\<rparr>)
        = (?st1 # sts) @ [st\<lparr>items := A @ finish r x # B\<rparr>]"
    unfolding processUpload_def Let_def u1 t using fin by simp
  moreover have "\<forall>st' \<in> set (?st1 # sts). \<exists>p. st' = st\<lparr>items := A @ x\<lparr>status := Uploading, progress := p\<rparr> # B\<rparr>"
    using sh by auto
  ultimately show ?thesis unfolding r by blast
qed

lemma item_id_finish: "item_id (finish r x) = item_id x"
  by (simp add: finish_def split: sum.splits)

lemma item_id_settled: "item_id (settled cfg net x) = item_id x"
  by (simp add: settled_def item_id_finish)

text \<open>
  \<open>in_turn its cur\<close>: the items \<open>cur\<close> are \<open>its\<close> with the first \<open>k\<close> settled, item \<open>k\<close>
  uploading or just settled, and the rest untouched.
\<close>

definition in_turn ::
  "CloudConfig \<Rightarrow> (item_id \<Rightarrow> outcome) \<Rightarrow> UploadItem list \<Rightarrow> UploadItem list \<Rightarrow> bool" where
  "in_turn cfg net its cur \<longleftrightarrow>
     (\<exists>k y. k < length its
        \<and> cur = map (settled cfg net) (take k its) @ y # drop (Suc k) its
        \<and> (y = settled cfg net (its ! k)
             \<or> (\<exists>p. y = (its ! k)\<lparr>status := Uploading, progress := p\<rparr>)))"

lemma in_turn_Cons:
  assumes "in_turn cfg net rest cur"
  shows "in_turn cfg net (x # rest) (settled cfg net x # cur)"
proof -
  from assms obtain k y where k: "k < length rest"
    and c: "cur = map (settled cfg net) (take k rest) @ y # drop (Suc k) rest"
    and y: "y = settled cfg net (rest ! k) \<or> (\<exists>p. y = (rest ! k)\<lparr>status := Uploading, progress := p\<rparr>)"
    unfolding in_turn_def by blast
  have "Suc k < length (x # rest)" using k by simp
  moreover have "settled cfg net x # cur
      = map (settled cfg net) (take (Suc k) (x # rest)) @ y # drop (Suc (Suc k)) (x # rest)"
    using c by simp
  moreover have "y = settled cfg net ((x # rest) ! Suc k)
      \<or> (\<exists>p. y = ((x # rest) ! Suc k)\<lparr>status := Uploading, progress := p\<rparr>)"
    using y by simp
  ultimately show ?thesis unfolding in_turn_def by blast
qed

lemma in_turn_first:
  assumes "y = settled cfg net x \<or> (\<exists>p. y = x\<lparr>status := Uploading, progress := p\<rparr>)"
  shows "in_turn cfg net (x # rest) (y # rest)"
  unfolding in_turn_def using assms by (intro exI [of _ 0] exI [of _ y]) simp

lemma process_all_trace:
  assumes "distinct (map item_id (A @ its))"
  shows "(\<forall>st' \<in> set (process_all cfg net its (st\<lparr>items := A @ its\<rparr>)).
            \<exists>cur. st' = st\<lparr>items := A @ cur\<rparr> \<and> in_turn cfg net its cur)
       \<and> last (st\<lparr>items := A @ its\<rparr> # process_all cfg net its (st\<lparr>items := A @ its\<rparr>))
           = st\<lparr>items := A @ map (settled cfg net) its\<rparr>"
  using assms
proof (induction its arbitrary: A)
  case Nil
  then show ?case by simp
next
  case (Cons x rest)
  let ?S = "st\<lparr>items := A @ x # rest\<rparr>"
  let ?S1 = "st\<lparr>items := A @ settled cfg net x # rest\<rparr>"
  have nA: "item_id x \<notin> item_id ` set A" and nB: "item_id x \<notin> item_id ` set rest"
    using Cons.prems by auto
  from processUpload_trace [OF refl nA nB, of cfg "net (item_id x)" st]
  obtain tr where tr: "processUpload cfg (net (item_id x)) x ?S = tr @ [?S1]"
    and trs: "\<forall>st' \<in> set tr. \<exists>p. st' = st\<lparr>items := A @ x\<lparr>status := Uploading, progress := p\<rparr> # rest\<rparr>"
    unfolding settled_def by blast
  have d: "distinct (map item_id ((A @ [settled cfg net x]) @ rest))"
    using Cons.prems by (simp add: item_id_settled)
  note ih = Cons.IH [OF d]
  have S1: "?S1 = st\<lparr>items := (A @ [settled cfg net x]) @ rest\<rparr>" by simp
  have pa: "process_all cfg net (x # rest) ?S = tr @ [?S1] @ process_all cfg net rest ?S1"
    by (simp add: tr Let_def)
  have a: "\<forall>st' \<in> set tr. \<exists>cur. st' = st\<lparr>items := A @ cur\<rparr> \<and> in_turn cfg net (x # rest) cur"
  proof
    fix st' assume "st' \<in> set tr"
    with trs obtain p where "st' = st\<lparr>items := A @ x\<lparr>status := Uploading, progress := p\<rparr> # rest\<rparr>"
      by blast
    moreover have "in_turn cfg net (x # rest) (x\<lparr>status := Uploading, progress := p\<rparr> # rest)"
      by (rule in_turn_first) blast
    ultimately show "\<exists>cur. st' = st\<lparr>items := A @ cur\<rparr> \<and> in_turn cfg net (x # rest) cur"
      by blast
  qed
  have b: "\<exists>cur. ?S1 = st\<lparr>items := A @ cur\<rparr> \<and> in_turn cfg net (x # rest) cur"
    using in_turn_first [of "settled cfg net x" cfg net x rest] by blast
  have c: "\<forall>st' \<in> set (process_all cfg net rest ?S1).
             \<exists>cur. st' = st\<lparr>items := A @ cur\<rparr> \<and> in_turn cfg net (x # rest) cur"
  proof
    fix st' assume "st' \<in> set (process_all cfg net rest ?S1)"
    with ih obtain cur where "st' = st\<lparr>items := (A @ [settled cfg net x]) @ cur\<rparr>"
      and "in_turn cfg net rest cur"
      unfolding S1 by blast
    then have "st' = st\<lparr>items := A @ (settled cfg net x # cur)\<rparr>"
      and "in_turn cfg net (x # rest) (settled cfg net x # cur)"
      by (simp_all add: in_turn_Cons)
    then show "\<exists>cur. st' = st\<lparr>items := A @ cur\<rparr> \<and> in_turn cfg net (x # rest) cur"
      by blast
  qed
  have l: "last (?S # process_all cfg net (x # rest) ?S) = st\<lparr>items := A @ map (settled cfg net) (x # rest)\<rparr>"
  proof -
    have "last (?S # process_all cfg net (x # rest) ?S) = last (?S1 # process_all cfg net rest ?S1)"
      unfolding pa by simp
    also have "\<dots> = st\<lparr>items := (A @ [settled cfg net x]) @ map (settled cfg net) rest\<rparr>"
      using ih unfolding S1 by blast
    finally show ?thesis by simp
  qed
  from a b c l show ?case unfolding pa by auto
qed

text \<open>The ids of a fresh batch differ: they carry their indices.\<close>

definition index_of :: "item_id \<Rightarrow> nat" where
  "index_of i = (case i of SingleId t \<Rightarrow> 0 | BatchId t index \<Rightarrow> index)"

lemma make_items_ids: "distinct (map item_id (make_items now urls))"
proof -
  have "map index_of (map item_id (make_items now urls))
      = map (\<lambda>p. index_of (BatchId (now (fst p)) (fst p))) (enumerate 0 urls)"
    by (simp add: make_items_def case_prod_beta comp_def)
  also have "\<dots> = map fst (enumerate 0 urls)"
    by (simp add: index_of_def)
  finally have "distinct (map index_of (map item_id (make_items now urls)))"
    by simp
  then show ?thesis
    using distinct_map [of index_of "map item_id (make_items now urls)"] by blast
qed

lemma make_items_pending:
  "\<forall>x \<in> set (make_items now urls). status x = Pending \<and> progress x = 0 \<and> error x = None"
  by (auto simp: make_items_def)

lemma make_items_length: "length (make_items now urls) = length urls"
  by (simp add: make_items_def)

lemma make_items_urls: "map url (make_items now urls) = urls"
  by (simp add: make_items_def case_prod_beta comp_def)

lemma terminal_finish: "terminal (status (finish r x))"
  by (simp add: finish_def terminal_def split: sum.splits)

lemma terminal_settled: "terminal (status (settled cfg net x))"
  by (simp add: settled_def terminal_finish)

lemma error_finish: "status (finish r x) = Error \<Longrightarrow> progress (finish r x) = 0 \<and> error (finish r x) \<noteq> None"
  by (auto simp: finish_def split: sum.splits)

lemma error_settled:
  "status (settled cfg net x) = Error \<Longrightarrow> progress (settled cfg net x) = 0 \<and> error (settled cfg net x) \<noteq> None"
  by (simp add: settled_def error_finish)

lemma in_turn_length: "in_turn cfg net its cur \<Longrightarrow> length cur = length its"
  unfolding in_turn_def by auto

lemma run_batch_eq:
  "run_batch cfg net its =
     (\<lparr>items = its, isUploading = True\<rparr>
        # process_all cfg net its \<lparr>items = its, isUploading = True\<rparr>)
     @ [\<lparr>items = map (settled cfg net) its, isUploading = False\<rparr>]"
  if "distinct (map item_id its)"
proof -
  let ?st0 = "\<lparr>items = its, isUploading = True\<rparr>"
  have e: "?st0\<lparr>items := [] @ its\<rparr> = ?st0" by simp
  from that have "distinct (map item_id ([] @ its))" by simp
  from process_all_trace [OF this, of cfg net ?st0]
  have "last (?st0 # process_all cfg net its ?st0) = ?st0\<lparr>items := [] @ map (settled cfg net) its\<rparr>"
    unfolding e by blast
  then show ?thesis by (simp add: run_batch_def Let_def)
qed

lemma run_batch_states:
  assumes "distinct (map item_id its)" "st \<in> set (run_batch cfg net its)"
  shows "items st = its \<or> in_turn cfg net its (items st) \<or> items st = map (settled cfg net) its"
proof -
  let ?st0 = "\<lparr>items = its, isUploading = True\<rparr>"
  have e: "?st0\<lparr>items := [] @ its\<rparr> = ?st0" by simp
  from assms(1) have "distinct (map item_id ([] @ its))" by simp
  from process_all_trace [OF this, of cfg net ?st0]
  have "\<forall>st' \<in> set (process_all cfg net its ?st0). \<exists>cur. st' = ?st0\<lparr>items := [] @ cur\<rparr> \<and> in_turn cfg net its cur"
    unfolding e by blast
  then have "\<forall>st' \<in> set (process_all cfg net its ?st0). in_turn cfg net its (items st')"
    by auto
  with assms(2) show ?thesis
    unfolding run_batch_eq [OF assms(1)] by auto
qed

text \<open>
  \<open>sequential xs\<close>: an item that has left \<open>pending\<close> is preceded by a settled item.
  \<open>failed_at_zero xs\<close>: every failed item has progress 0.
\<close>

definition sequential :: "UploadItem list \<Rightarrow> bool" where
  "sequential xs \<longleftrightarrow>
     (\<forall>i. Suc i < length xs \<longrightarrow> status (xs ! Suc i) \<noteq> Pending \<longrightarrow> terminal (status (xs ! i)))"

lemma sequential_shape:
  assumes "\<forall>x \<in> set P. terminal (status x)" "\<forall>x \<in> set S. status x = Pending"
  shows "sequential (P @ y # S)"
  unfolding sequential_def
proof (intro allI impI)
  fix i
  assume len: "Suc i < length (P @ y # S)" and np: "status ((P @ y # S) ! Suc i) \<noteq> Pending"
  show "terminal (status ((P @ y # S) ! i))"
  proof (cases "Suc i \<le> length P")
    case True
    then have "(P @ y # S) ! i = P ! i" "P ! i \<in> set P"
      by (simp_all add: nth_append)
    with assms(1) show ?thesis by simp
  next
    case False
    then obtain j where j: "Suc i = length P + Suc j"
      by (metis add_Suc_right le_add_diff_inverse not_less_eq_eq)
    with len have "j < length S" by simp
    moreover have "(P @ y # S) ! Suc i = S ! j"
      unfolding j by (simp add: nth_append)
    ultimately have "status ((P @ y # S) ! Suc i) = Pending"
      using assms(2) by simp
    with np show ?thesis by simp
  qed
qed

lemma sequential_in_turn:
  assumes "\<forall>x \<in> set its. status x = Pending" "in_turn cfg net its cur"
  shows "sequential cur"
proof -
  from assms(2) obtain k y where "cur = map (settled cfg net) (take k its) @ y # drop (Suc k) its"
    unfolding in_turn_def by blast
  moreover have "\<forall>x \<in> set (map (settled cfg net) (take k its)). terminal (status x)"
    by (simp add: terminal_settled)
  moreover have "\<forall>x \<in> set (drop (Suc k) its). status x = Pending"
    using assms(1) by (meson in_set_dropD)
  ultimately show ?thesis by (simp add: sequential_shape)
qed

lemma sequential_pending: "\<forall>x \<in> set its. status x = Pending \<Longrightarrow> sequential its"
  by (simp add: sequential_def)

lemma sequential_settled: "sequential (map (settled cfg net) its)"
  by (simp add: sequential_def terminal_settled)

lemma run_batch_sequential:
  assumes "distinct (map item_id its)" "\<forall>x \<in> set its. status x = Pending"
    "st \<in> set (run_batch cfg net its)"
  shows "sequential (items st)"
  using run_batch_states [OF assms(1,3)] assms(2)
  by (auto simp: sequential_in_turn sequential_pending sequential_settled)

definition failed_at_zero :: "UploadItem list \<Rightarrow> bool" where
  "failed_at_zero xs \<longleftrightarrow> (\<forall>x \<in> set xs. status x = Error \<longrightarrow> progress x = 0)"

lemma failed_at_zero_in_turn:
  assumes "\<forall>x \<in> set its. status x = Pending" "in_turn cfg net its cur"
  shows "failed_at_zero cur"
proof -
  from assms(2) obtain k y where k: "k < length its"
    and c: "cur = map (settled cfg net) (take k its) @ y # drop (Suc k) its"
    and y: "y = settled cfg net (its ! k) \<or> (\<exists>p. y = (its ! k)\<lparr>status := Uploading, progress := p\<rparr>)"
    unfolding in_turn_def by blast
  have "\<forall>x \<in> set (drop (Suc k) its). status x \<noteq> Error"
    using assms(1) by (metis in_set_dropD status.distinct(5))
  moreover have "status y = Error \<longrightarrow> progress y = 0"
    using y error_settled by auto
  ultimately show ?thesis
    unfolding c failed_at_zero_def using error_settled by auto
qed

lemma run_batch_failed_at_zero:
  assumes "distinct (map item_id its)" "\<forall>x \<in> set its. status x = Pending"
    "st \<in> set (run_batch cfg net its)"
  shows "failed_at_zero (items st)"
  using run_batch_states [OF assms(1,3)] assms(2) failed_at_zero_in_turn [of its cfg net "items st"]
  by (auto simp: failed_at_zero_def error_settled)

text \<open>
  \<open>stays_settled s s'\<close>: every item settled in \<open>s\<close> is the same in \<open>s'\<close>.
  \<open>hands_over a b\<close>: every item that has left \<open>pending\<close> in \<open>b\<close> is preceded by an item
  that was already settled in \<open>a\<close>.
\<close>

definition stays_settled :: "UploadState \<Rightarrow> UploadState \<Rightarrow> bool" where
  "stays_settled s s' \<longleftrightarrow>
     length (items s') = length (items s)
     \<and> (\<forall>i < length (items s). terminal (status (items s ! i)) \<longrightarrow> items s' ! i = items s ! i)"

lemma stays_settled_refl: "stays_settled s s"
  by (simp add: stays_settled_def)

lemma stays_settled_items: "items b = items c \<Longrightarrow> stays_settled a b \<Longrightarrow> stays_settled a c"
  by (simp add: stays_settled_def)

lemma stays_settled_before:
  assumes "\<not> terminal (status x')" "\<forall>y \<in> set rest. status y = Pending" "length cur = length rest"
  shows "stays_settled (st\<lparr>items := A @ x' # rest\<rparr>) (st'\<lparr>items := A @ z # cur\<rparr>)"
  unfolding stays_settled_def
proof (intro conjI allI impI)
  show "length (items (st'\<lparr>items := A @ z # cur\<rparr>)) = length (items (st\<lparr>items := A @ x' # rest\<rparr>))"
    using assms(3) by simp
next
  fix i
  assume i: "i < length (items (st\<lparr>items := A @ x' # rest\<rparr>))"
    and t: "terminal (status (items (st\<lparr>items := A @ x' # rest\<rparr>) ! i))"
  have "i < length A"
  proof (rule ccontr)
    assume "\<not> i < length A"
    then obtain j where j: "i = length A + j" by (metis le_add_diff_inverse not_less)
    show False
    proof (cases j)
      case 0
      with j t assms(1) show False by simp
    next
      case (Suc m)
      with j i have "m < length rest" by simp
      then have "status (rest ! m) = Pending" using assms(2) by simp
      with j Suc t show False by (simp add: nth_append terminal_def)
    qed
  qed
  then show "items (st'\<lparr>items := A @ z # cur\<rparr>) ! i = items (st\<lparr>items := A @ x' # rest\<rparr>) ! i"
    by (simp add: nth_append)
qed

lemma sorted_wrt_all_pairs: "(\<And>a b. a \<in> set xs \<Longrightarrow> b \<in> set xs \<Longrightarrow> R a b) \<Longrightarrow> sorted_wrt R xs"
  by (induction xs) auto

lemma process_all_stays:
  assumes "distinct (map item_id (A @ its))" "\<forall>x \<in> set its. status x = Pending"
  shows "sorted_wrt stays_settled
           (st\<lparr>items := A @ its\<rparr> # process_all cfg net its (st\<lparr>items := A @ its\<rparr>))"
  using assms
proof (induction its arbitrary: A)
  case Nil
  then show ?case by simp
next
  case (Cons x rest)
  let ?S = "st\<lparr>items := A @ x # rest\<rparr>"
  let ?S1 = "st\<lparr>items := A @ settled cfg net x # rest\<rparr>"
  have pend: "\<forall>y \<in> set rest. status y = Pending" and xp: "status x = Pending"
    using Cons.prems(2) by simp_all
  have nA: "item_id x \<notin> item_id ` set A" and nB: "item_id x \<notin> item_id ` set rest"
    using Cons.prems(1) by auto
  from processUpload_trace [OF refl nA nB, of cfg "net (item_id x)" st]
  obtain tr where tr: "processUpload cfg (net (item_id x)) x ?S = tr @ [?S1]"
    and trs: "\<forall>st' \<in> set tr. \<exists>p. st' = st\<lparr>items := A @ x\<lparr>status := Uploading, progress := p\<rparr> # rest\<rparr>"
    unfolding settled_def by blast
  have d: "distinct (map item_id ((A @ [settled cfg net x]) @ rest))"
    using Cons.prems(1) by (simp add: item_id_settled)
  have S1: "?S1 = st\<lparr>items := (A @ [settled cfg net x]) @ rest\<rparr>" by simp
  have pa: "?S # process_all cfg net (x # rest) ?S = (?S # tr) @ (?S1 # process_all cfg net rest ?S1)"
    by (simp add: tr Let_def)
  have before: "\<forall>a \<in> set (?S # tr). \<exists>x'. a = st\<lparr>items := A @ x' # rest\<rparr> \<and> \<not> terminal (status x')"
  proof
    fix a assume "a \<in> set (?S # tr)"
    then consider "a = ?S" | "a \<in> set tr" by auto
    then show "\<exists>x'. a = st\<lparr>items := A @ x' # rest\<rparr> \<and> \<not> terminal (status x')"
    proof cases
      case 1
      with xp show ?thesis by (auto simp: terminal_def)
    next
      case 2
      with trs obtain p where "a = st\<lparr>items := A @ x\<lparr>status := Uploading, progress := p\<rparr> # rest\<rparr>"
        by blast
      then show ?thesis by (auto simp: terminal_def)
    qed
  qed
  have after: "\<forall>b \<in> set (?S1 # process_all cfg net rest ?S1).
                 \<exists>cur. b = st\<lparr>items := A @ settled cfg net x # cur\<rparr> \<and> length cur = length rest"
  proof
    fix b assume "b \<in> set (?S1 # process_all cfg net rest ?S1)"
    then consider "b = ?S1" | "b \<in> set (process_all cfg net rest ?S1)" by auto
    then show "\<exists>cur. b = st\<lparr>items := A @ settled cfg net x # cur\<rparr> \<and> length cur = length rest"
    proof cases
      case 1
      then show ?thesis by blast
    next
      case 2
      with process_all_trace [OF d, of cfg net st]
      obtain cur where "b = st\<lparr>items := (A @ [settled cfg net x]) @ cur\<rparr>" "in_turn cfg net rest cur"
        unfolding S1 by blast
      then show ?thesis by (auto simp: in_turn_length)
    qed
  qed
  have 1: "sorted_wrt stays_settled (?S # tr)"
  proof (rule sorted_wrt_all_pairs)
    fix a b assume "a \<in> set (?S # tr)" "b \<in> set (?S # tr)"
    with before obtain x' x'' where "a = st\<lparr>items := A @ x' # rest\<rparr>" "\<not> terminal (status x')"
      "b = st\<lparr>items := A @ x'' # rest\<rparr>"
      by blast
    then show "stays_settled a b"
      using stays_settled_before [OF _ pend refl] by blast
  qed
  have 2: "sorted_wrt stays_settled (?S1 # process_all cfg net rest ?S1)"
    using Cons.IH [OF d pend] unfolding S1 .
  have 3: "\<forall>a \<in> set (?S # tr). \<forall>b \<in> set (?S1 # process_all cfg net rest ?S1). stays_settled a b"
  proof (intro ballI)
    fix a b assume "a \<in> set (?S # tr)" "b \<in> set (?S1 # process_all cfg net rest ?S1)"
    with before after obtain x' cur where "a = st\<lparr>items := A @ x' # rest\<rparr>" "\<not> terminal (status x')"
      "b = st\<lparr>items := A @ settled cfg net x # cur\<rparr>" "length cur = length rest"
      by blast
    then show "stays_settled a b"
      using stays_settled_before [OF _ pend] by blast
  qed
  from 1 2 3 show ?case unfolding pa sorted_wrt_append by blast
qed

lemma sorted_wrt_last:
  assumes "sorted_wrt R xs" "\<And>x. R x x" "a \<in> set xs"
  shows "R a (last xs)"
  using assms(1,3)
proof (induction xs)
  case Nil
  then show ?case by simp
next
  case (Cons x ys)
  show ?case
  proof (cases "ys = []")
    case True
    with Cons.prems assms(2) show ?thesis by simp
  next
    case False
    then have "last ys \<in> set ys" by simp
    with Cons False show ?thesis by auto
  qed
qed

lemma run_batch_stays:
  assumes "distinct (map item_id its)" "\<forall>x \<in> set its. status x = Pending"
  shows "sorted_wrt stays_settled (run_batch cfg net its)"
proof -
  let ?st0 = "\<lparr>items = its, isUploading = True\<rparr>"
  let ?tr = "?st0 # process_all cfg net its ?st0"
  let ?fin = "\<lparr>items = map (settled cfg net) its, isUploading = False\<rparr>"
  have e: "?st0\<lparr>items := [] @ its\<rparr> = ?st0" by simp
  from assms(1) have d: "distinct (map item_id ([] @ its))" by simp
  have s: "sorted_wrt stays_settled ?tr"
    using process_all_stays [OF d assms(2), of ?st0 cfg net] unfolding e .
  have l: "items (last ?tr) = items ?fin"
    using process_all_trace [OF d, of cfg net ?st0] unfolding e by simp
  have "\<forall>a \<in> set ?tr. stays_settled a ?fin"
  proof
    fix a assume "a \<in> set ?tr"
    with s have "stays_settled a (last ?tr)"
      by (rule sorted_wrt_last [OF _ stays_settled_refl])
    with l show "stays_settled a ?fin" by (rule stays_settled_items)
  qed
  with s show ?thesis
    unfolding run_batch_eq [OF assms(1)] sorted_wrt_append by simp
qed

definition hands_over :: "UploadState \<Rightarrow> UploadState \<Rightarrow> bool" where
  "hands_over a b \<longleftrightarrow>
     (\<forall>i. Suc i < length (items b) \<longrightarrow> status (items b ! Suc i) \<noteq> Pending
          \<longrightarrow> i < length (items a) \<and> terminal (status (items a ! i)))"

lemma hands_over_prefix:
  assumes "\<forall>y \<in> set A. terminal (status y)" "\<forall>y \<in> set rest. status y = Pending"
  shows "hands_over (st\<lparr>items := A @ ra\<rparr>) (st'\<lparr>items := A @ z # rest\<rparr>)"
  unfolding hands_over_def
proof (intro allI impI)
  fix i
  assume len: "Suc i < length (items (st'\<lparr>items := A @ z # rest\<rparr>))"
    and np: "status (items (st'\<lparr>items := A @ z # rest\<rparr>) ! Suc i) \<noteq> Pending"
  have "Suc i \<le> length A"
  proof (rule ccontr)
    assume "\<not> Suc i \<le> length A"
    then obtain j where j: "Suc i = length A + Suc j"
      by (metis add_Suc_right le_add_diff_inverse not_less_eq_eq)
    with len have "j < length rest" by simp
    then have "status (rest ! j) = Pending" using assms(2) by simp
    moreover have "(A @ z # rest) ! Suc i = rest ! j" unfolding j by (simp add: nth_append)
    ultimately show False using np by simp
  qed
  then have "i < length A" by simp
  then show "i < length (items (st\<lparr>items := A @ ra\<rparr>))
      \<and> terminal (status (items (st\<lparr>items := A @ ra\<rparr>) ! i))"
    using assms(1) by (simp add: nth_append)
qed

lemma hands_over_done:
  assumes "\<forall>y \<in> set (items a). terminal (status y)" "length (items b) = length (items a)"
  shows "hands_over a b"
  using assms by (simp add: hands_over_def)

lemma successively_nth:
  "successively R xs \<Longrightarrow> Suc j < length xs \<Longrightarrow> R (xs ! j) (xs ! Suc j)"
proof (induction R xs arbitrary: j rule: successively.induct)
  case (3 R x y xs)
  then show ?case by (cases j) auto
qed simp_all

lemma process_all_hands_over:
  assumes "distinct (map item_id (A @ its))" "\<forall>x \<in> set its. status x = Pending"
    "\<forall>y \<in> set A. terminal (status y)"
  shows "successively hands_over
           (st\<lparr>items := A @ its\<rparr> # process_all cfg net its (st\<lparr>items := A @ its\<rparr>))"
  using assms
proof (induction its arbitrary: A)
  case Nil
  then show ?case by simp
next
  case (Cons x rest)
  let ?S = "st\<lparr>items := A @ x # rest\<rparr>"
  let ?S1 = "st\<lparr>items := A @ settled cfg net x # rest\<rparr>"
  have pend: "\<forall>y \<in> set rest. status y = Pending"
    using Cons.prems(2) by simp
  have nA: "item_id x \<notin> item_id ` set A" and nB: "item_id x \<notin> item_id ` set rest"
    using Cons.prems(1) by auto
  from processUpload_trace [OF refl nA nB, of cfg "net (item_id x)" st]
  obtain tr where tr: "processUpload cfg (net (item_id x)) x ?S = tr @ [?S1]"
    and trs: "\<forall>st' \<in> set tr. \<exists>p. st' = st\<lparr>items := A @ x\<lparr>status := Uploading, progress := p\<rparr> # rest\<rparr>"
    unfolding settled_def by blast
  have d: "distinct (map item_id ((A @ [settled cfg net x]) @ rest))"
    using Cons.prems(1) by (simp add: item_id_settled)
  have tA: "\<forall>y \<in> set (A @ [settled cfg net x]). terminal (status y)"
    using Cons.prems(3) by (simp add: terminal_settled)
  have S1: "?S1 = st\<lparr>items := (A @ [settled cfg net x]) @ rest\<rparr>" by simp
  have pa: "?S # process_all cfg net (x # rest) ?S = (?S # tr) @ (?S1 # process_all cfg net rest ?S1)"
    by (simp add: tr Let_def)
  have before: "\<forall>a \<in> set (?S # tr). \<exists>x'. a = st\<lparr>items := A @ x' # rest\<rparr>"
    using trs by auto
  have "sorted_wrt hands_over (?S # tr)"
  proof (rule sorted_wrt_all_pairs)
    fix a b assume "a \<in> set (?S # tr)" "b \<in> set (?S # tr)"
    with before obtain x' x'' where "a = st\<lparr>items := A @ x' # rest\<rparr>" "b = st\<lparr>items := A @ x'' # rest\<rparr>"
      by blast
    then show "hands_over a b"
      using hands_over_prefix [OF Cons.prems(3) pend] by blast
  qed
  then have 1: "successively hands_over (?S # tr)"
    by (rule successively_if_sorted_wrt)
  have 2: "successively hands_over (?S1 # process_all cfg net rest ?S1)"
    using Cons.IH [OF d pend tA] unfolding S1 .
  have "last (?S # tr) \<in> set (?S # tr)" by (rule last_in_set) simp
  with before obtain x' where "last (?S # tr) = st\<lparr>items := A @ x' # rest\<rparr>" by blast
  then have 3: "hands_over (last (?S # tr)) ?S1"
    using hands_over_prefix [OF Cons.prems(3) pend] by simp
  from 1 2 3 show ?case unfolding pa successively_append_iff by simp
qed

lemma run_batch_hands_over:
  assumes "distinct (map item_id its)" "\<forall>x \<in> set its. status x = Pending"
  shows "successively hands_over (run_batch cfg net its)"
proof -
  let ?st0 = "\<lparr>items = its, isUploading = True\<rparr>"
  let ?tr = "?st0 # process_all cfg net its ?st0"
  let ?fin = "\<lparr>items = map (settled cfg net) its, isUploading = False\<rparr>"
  have e: "?st0\<lparr>items := [] @ its\<rparr> = ?st0" by simp
  from assms(1) have d: "distinct (map item_id ([] @ its))" by simp
  have s: "successively hands_over ?tr"
    using process_all_hands_over [OF d assms(2), of ?st0 cfg net] unfolding e by simp
  define lst where "lst = last ?tr"
  have l: "items lst = map (settled cfg net) its"
    using process_all_trace [OF d, of cfg net ?st0] unfolding e lst_def by simp
  have "hands_over lst ?fin"
    by (rule hands_over_done) (simp_all add: l terminal_settled)
  then have "hands_over (last ?tr) ?fin" by (simp only: lst_def)
  with s show ?thesis
    unfolding run_batch_eq [OF assms(1)] successively_append_iff by simp
qed

lemma process_all_attempts:
  assumes "distinct (map item_id (A @ its))" "k < length its"
  shows "\<exists>st' \<in> set (process_all cfg net its (st\<lparr>items := A @ its\<rparr>)).
           status (items st' ! (length A + k)) = Uploading"
  using assms
proof (induction its arbitrary: A k)
  case Nil
  then show ?case by simp
next
  case (Cons x rest)
  let ?S = "st\<lparr>items := A @ x # rest\<rparr>"
  let ?S1 = "st\<lparr>items := A @ settled cfg net x # rest\<rparr>"
  have nA: "item_id x \<notin> item_id ` set A" and nB: "item_id x \<notin> item_id ` set rest"
    using Cons.prems(1) by auto
  from processUpload_trace [OF refl nA nB, of cfg "net (item_id x)" st]
  obtain tr where tr: "processUpload cfg (net (item_id x)) x ?S = tr @ [?S1]" and ne: "tr \<noteq> []"
    and trs: "\<forall>st' \<in> set tr. \<exists>p. st' = st\<lparr>items := A @ x\<lparr>status := Uploading, progress := p\<rparr> # rest\<rparr>"
    unfolding settled_def by blast
  have pa: "process_all cfg net (x # rest) ?S = tr @ [?S1] @ process_all cfg net rest ?S1"
    by (simp add: tr Let_def)
  show ?case
  proof (cases k)
    case 0
    from ne obtain s0 where s0: "s0 \<in> set tr" by (cases tr) auto
    with trs obtain p where "s0 = st\<lparr>items := A @ x\<lparr>status := Uploading, progress := p\<rparr> # rest\<rparr>"
      by blast
    then have "status (items s0 ! (length A + k)) = Uploading" using 0 by simp
    with s0 show ?thesis unfolding pa by auto
  next
    case (Suc m)
    have d: "distinct (map item_id ((A @ [settled cfg net x]) @ rest))"
      using Cons.prems(1) by (simp add: item_id_settled)
    from Suc Cons.prems(2) have m: "m < length rest" by simp
    have S1: "?S1 = st\<lparr>items := (A @ [settled cfg net x]) @ rest\<rparr>" by simp
    from Cons.IH [OF d m] obtain s1 where "s1 \<in> set (process_all cfg net rest ?S1)"
      and "status (items s1 ! (length (A @ [settled cfg net x]) + m)) = Uploading"
      unfolding S1 by blast
    then show ?thesis unfolding pa using Suc by auto
  qed
qed

lemma run_batch_attempts:
  assumes "distinct (map item_id its)" "k < length its"
  shows "\<exists>st' \<in> set (run_batch cfg net its). status (items st' ! k) = Uploading"
proof -
  let ?st0 = "\<lparr>items = its, isUploading = True\<rparr>"
  have e: "?st0\<lparr>items := [] @ its\<rparr> = ?st0" by simp
  from assms(1) have d: "distinct (map item_id ([] @ its))" by simp
  from process_all_attempts [OF d assms(2), of cfg net ?st0]
  show ?thesis unfolding e run_batch_eq [OF assms(1)] by auto
qed

lemma handleSingleUpload_run_batch:
  "handleSingleUpload cfg U now net singleUrl =
     (if \<not> isValidUrl U (sanitizeUrl singleUrl) then []
      else run_batch cfg net
             [\<lparr>item_id = SingleId (now 0), url = sanitizeUrl singleUrl, status = Pending,
               progress = 0, error = None, fileName = None\<rparr>])"
  by (simp add: handleSingleUpload_def run_batch_def Let_def)

lemma handleFileUpload_cases:
  "handleFileUpload cfg U now net file = []
   \<or> (\<exists>text. handleFileUpload cfg U now net file = handleBulkUpload cfg U now net text)"
  by (auto simp: handleFileUpload_run_batch split: option.splits sum.splits)

subsection \<open>An example batch\<close>

text \<open>
  A complete S3 configuration, a network where everything succeeds, one whose broker
  answers with an error and one whose storage answers 403; and the bulk input
  \<open>http://a/1,not-a-url,http://b/2\<close> where the broker fails for the first item.
\<close>

definition s3_ready :: CloudConfig where
  "s3_ready =
     \<lparr>provider = S3,
      s3 = Some \<lparr>S3Config.bucket = js ''my-bucket'', region = js ''us-east-1'',
                 accessKeyId = js ''AKIAEXAMPLE'', secretAccessKey = js ''secret'',
                 sessionToken = Some [], endpoint = Some []\<rparr>,
      gcp = None, azure = None\<rparr>"

definition env_ok :: outcome where
  "env_ok = \<lparr>source = Inr \<lparr>ok = True, statusText = js ''OK'', blob = Inr (js ''image/png'')\<rparr>,
             broker = (\<lambda>r. Inr (ReplyOk (Inr (js ''https://bucket/put?sig'')))),
             transfer = (\<lambda>u. ([ProgressEvent True 40, ProgressEvent False 0, ProgressEvent True 100], Load 200))\<rparr>"

definition env_broker_fails :: outcome where
  "env_broker_fails = env_ok\<lparr>broker := (\<lambda>r. Inr (ReplyNotOk (Inr (Some (js ''Invalid request data'')))))\<rparr>"

definition demo_URL :: "jstring \<Rightarrow> jstring option" where
  "demo_URL u = (if u = js ''http://a/1'' \<or> u = js ''http://b/2'' then Some (js ''http:'') else None)"

definition demo_net :: "item_id \<Rightarrow> outcome" where
  "demo_net i = (if i = BatchId 7 0 then env_broker_fails else env_ok)"

definition demo_trace :: "UploadState list" where
  "demo_trace = handleBulkUpload s3_ready demo_URL (\<lambda>_. 7) demo_net (js ''http://a/1,not-a-url,http://b/2'')"


lemma demo_urls: "parseUrls demo_URL (js ''http://a/1,not-a-url,http://b/2'') = [js ''http://a/1'', js ''http://b/2'']"
  by (simp add: parseUrls_def split_separators.simps js_def is_separator_def sanitizeUrl_def trim_def
      is_whitespace_def is_markup_char_def isValidUrl_def demo_URL_def truthy_def)

lemma demo_items: "make_items (\<lambda>_. 7) [js ''http://a/1'', js ''http://b/2'']
  = [\<lparr>item_id = BatchId 7 0, url = js ''http://a/1'', status = Pending, progress = 0, error = None, fileName = None\<rparr>,
     \<lparr>item_id = BatchId 7 1, url = js ''http://b/2'', status = Pending, progress = 0, error = None, fileName = None\<rparr>]"
  by (simp add: make_items_def enumerate_eq_zip upt_rec)

definition demo_item :: "nat \<Rightarrow> jstring \<Rightarrow> status \<Rightarrow> int \<Rightarrow> jstring option \<Rightarrow> UploadItem" where
  "demo_item index u s p e =
     \<lparr>item_id = BatchId 7 index, url = u, status = s, progress = p, error = e, fileName = None\<rparr>"

definition demo_state :: "bool \<Rightarrow> status \<Rightarrow> int \<Rightarrow> jstring option \<Rightarrow> status \<Rightarrow> int \<Rightarrow> UploadState" where
  "demo_state up s0 p0 e0 s1 p1 =
     \<lparr>items = [demo_item 0 (js ''http://a/1'') s0 p0 e0, demo_item 1 (js ''http://b/2'') s1 p1 None],
      isUploading = up\<rparr>"

lemma demo_trace_eq:
  "demo_trace =
    [demo_state True Pending 0 None Pending 0,
     demo_state True Uploading 0 None Pending 0,
     demo_state True Error 0 (Some (js ''Invalid request data'')) Pending 0,
     demo_state True Error 0 (Some (js ''Invalid request data'')) Uploading 0,
     demo_state True Error 0 (Some (js ''Invalid request data'')) Uploading 40,
     demo_state True Error 0 (Some (js ''Invalid request data'')) Uploading 100,
     demo_state True Error 0 (Some (js ''Invalid request data'')) Success 100,
     demo_state False Error 0 (Some (js ''Invalid request data'')) Success 100]"
  unfolding demo_trace_def handleBulkUpload_run_batch demo_urls demo_items
  by (simp add: run_batch_def processUpload_def try_upload_def update_item_def demo_net_def
      env_ok_def env_broker_fails_def getPresignedUrl_def check_config_def s3_ready_def
      uploadFileToCloud_def truthy_def or_else_def error_message_def js_def Let_def
      demo_state_def demo_item_def)

subsection \<open>Results on batches\<close>

lemma handler_batch:
  assumes "tr = handleBulkUpload cfg U now net bulkUrls \<or> tr = handleFileUpload cfg U now net chosen
           \<or> tr = handleSingleUpload cfg U now net singleUrl"
    and "tr \<noteq> []"
  shows "\<exists>its. tr = run_batch cfg net its \<and> distinct (map item_id its)
           \<and> (\<forall>x \<in> set its. status x = Pending)"
proof -
  have bulk: "\<exists>its. tr = run_batch cfg net its \<and> distinct (map item_id its)
           \<and> (\<forall>x \<in> set its. status x = Pending)"
    if "tr = handleBulkUpload cfg U now net t" for t
    using that assms(2) make_items_ids [of now "parseUrls U t"] make_items_pending [of now "parseUrls U t"]
    by (auto simp: handleBulkUpload_run_batch split: if_splits)
  from assms(1) consider "tr = handleBulkUpload cfg U now net bulkUrls"
    | "tr = handleFileUpload cfg U now net chosen" | "tr = handleSingleUpload cfg U now net singleUrl"
    by blast
  then show ?thesis
  proof cases
    case 1
    then show ?thesis by (rule bulk)
  next
    case 2
    with assms(2) handleFileUpload_cases [of cfg U now net chosen]
    obtain t where "tr = handleBulkUpload cfg U now net t" by auto
    then show ?thesis by (rule bulk)
  next
    case 3
    with assms(2) show ?thesis
      by (auto simp: handleSingleUpload_run_batch split: if_splits)
  qed
qed

lemma run_batch_first:
  "distinct (map item_id its) \<Longrightarrow> run_batch cfg net its ! 0 = \<lparr>items = its, isUploading = True\<rparr>"
  by (simp add: run_batch_eq)

text \<open>
  C1. In every batch run by the orchestrator (bulk or file intake, and a single upload
  as a batch of one), items are processed strictly one after the other in input order:
  in every state the batch sets, an item \<open>i + 1\<close> that has left \<open>pending\<close> is preceded by
  an item \<open>i\<close> that is \<open>success\<close> or \<open>error\<close>, and item \<open>i\<close> was already so in an earlier
  state of the trace.
\<close>

theorem batch_items_in_order:
  assumes "tr = handleBulkUpload cfg U now net bulkUrls \<or> tr = handleFileUpload cfg U now net chosen
           \<or> tr = handleSingleUpload cfg U now net singleUrl"
    and "j < length tr"
    and "Suc i < length (items (tr ! j))"
    and "status (items (tr ! j) ! Suc i) \<noteq> Pending"
  shows "(status (items (tr ! j) ! i) = Success \<or> status (items (tr ! j) ! i) = Error)
       \<and> (\<exists>j' < j. i < length (items (tr ! j'))
             \<and> (status (items (tr ! j') ! i) = Success \<or> status (items (tr ! j') ! i) = Error))"
proof -
  from assms(2) have ne: "tr \<noteq> []" by auto
  from handler_batch [OF assms(1) ne] obtain its where tr: "tr = run_batch cfg net its"
    and d: "distinct (map item_id its)" and p: "\<forall>x \<in> set its. status x = Pending"
    by blast
  have mem: "tr ! j \<in> set tr" using assms(2) by simp
  have "sequential (items (tr ! j))"
    using run_batch_sequential [OF d p] mem unfolding tr by blast
  with assms(3,4) have now: "terminal (status (items (tr ! j) ! i))"
    unfolding sequential_def by blast
  have "j \<noteq> 0"
  proof
    assume "j = 0"
    then have "items (tr ! j) = its" unfolding tr by (simp add: run_batch_first [OF d])
    with assms(3) p have "status (items (tr ! j) ! Suc i) = Pending" by simp
    with assms(4) show False by simp
  qed
  then obtain j0 where j0: "j = Suc j0" by (cases j) auto
  have "successively hands_over tr"
    unfolding tr by (rule run_batch_hands_over [OF d p])
  then have "hands_over (tr ! j0) (tr ! Suc j0)"
    using assms(2) unfolding j0 by (rule successively_nth)
  with assms(3,4) have "i < length (items (tr ! j0)) \<and> terminal (status (items (tr ! j0) ! i))"
    unfolding hands_over_def j0 by blast
  with now j0 show ?thesis unfolding terminal_def by blast
qed

theorem batch_items_in_order_witness:
  "status (items (demo_trace ! 3) ! 1) = Uploading
   \<and> status (items (demo_trace ! 3) ! 0) = Error
   \<and> (\<exists>j' < 3. status (items (demo_trace ! j') ! 0) = Success \<or> status (items (demo_trace ! j') ! 0) = Error)"
proof -
  have h1: "demo_trace = handleBulkUpload s3_ready demo_URL (\<lambda>_. 7) demo_net (js ''http://a/1,not-a-url,http://b/2'')
      \<or> demo_trace = handleFileUpload s3_ready demo_URL (\<lambda>_. 7) demo_net None
      \<or> demo_trace = handleSingleUpload s3_ready demo_URL (\<lambda>_. 7) demo_net []"
    by (simp add: demo_trace_def)
  have h2: "(3::nat) < length demo_trace"
    by (simp add: demo_trace_eq)
  have h3: "Suc 0 < length (items (demo_trace ! 3))"
    by (simp add: demo_trace_eq demo_state_def)
  have s1: "status (items (demo_trace ! 3) ! 1) = Uploading"
    by (simp add: demo_trace_eq demo_state_def demo_item_def)
  then have h4: "status (items (demo_trace ! 3) ! Suc 0) \<noteq> Pending" by simp
  have s0: "status (items (demo_trace ! 3) ! 0) = Error"
    by (simp add: demo_trace_eq demo_state_def demo_item_def)
  from batch_items_in_order [OF h1 h2 h3 h4] s1 s0 show ?thesis by blast
qed

lemma upload_result_ok_iff:
  "upload_result cfg env item = Inr () \<longleftrightarrow>
     (\<exists>response blob_type signedUrl events code.
        source env = Inr response \<and> ok response \<and> blob response = Inr blob_type
        \<and> getPresignedUrl cfg (broker env) (sanitizeFileName (upload_name item)) blob_type = Inr signedUrl
        \<and> transfer env signedUrl = (events, Load code) \<and> (code = 200 \<or> code = 201))"
  by (auto simp: upload_result_def try_upload_def uploadFileToCloud_def Let_def
      split: sum.splits prod.splits xhr_end.splits if_splits)

lemma run_batch_last:
  "distinct (map item_id its) \<Longrightarrow>
   last (run_batch cfg net its) = \<lparr>items = map (settled cfg net) its, isUploading = False\<rparr>"
  by (simp add: run_batch_eq)

lemma run_batch_hd:
  "distinct (map item_id its) \<Longrightarrow> hd (run_batch cfg net its) = \<lparr>items = its, isUploading = True\<rparr>"
  by (simp add: run_batch_eq)

lemma run_batch_length_items:
  assumes "distinct (map item_id its)" "st \<in> set (run_batch cfg net its)"
  shows "length (items st) = length its"
  using run_batch_states [OF assms] by (auto simp: in_turn_length)

lemma check_config_isCloudConfigured:
  "check_config cfg =
     (if isCloudConfigured cfg then Inr ()
      else Inl (ErrorObject
             ((case provider cfg of S3 \<Rightarrow> js ''S3'' | GCP \<Rightarrow> js ''GCP'' | Azure \<Rightarrow> js ''Azure'')
              @ js '' configuration required'')))"
  by (auto simp: check_config_def isCloudConfigured_def js_def
      split: provider.splits option.splits)

lemma getPresignedUrl_cases:
  "getPresignedUrl cfg post n t =
     (if isCloudConfigured cfg
      then (case post \<lparr>endpoint = broker_endpoint (provider cfg),
                        req_fileName = sanitizeFileName n,
                        req_fileType = sanitizeInput t,
                        req_config = cfg\<rparr> of
              Inl e \<Rightarrow> Inl e
            | Inr (ReplyOk answer) \<Rightarrow> answer
            | Inr (ReplyNotOk (Inl e)) \<Rightarrow> Inl e
            | Inr (ReplyNotOk (Inr None)) \<Rightarrow>
                Inl (ErrorObject (js ''Failed to get '' @ provider_upper (provider cfg)
                                  @ js '' signed URL''))
            | Inr (ReplyNotOk (Inr (Some m))) \<Rightarrow>
                Inl (ErrorObject
                       (if m = [] then js ''Failed to get '' @ provider_upper (provider cfg)
                                       @ js '' signed URL''
                        else m)))
      else Inl (ErrorObject
             ((case provider cfg of S3 \<Rightarrow> js ''S3'' | GCP \<Rightarrow> js ''GCP'' | Azure \<Rightarrow> js ''Azure'')
              @ js '' configuration required'')))"
  unfolding getPresignedUrl_def check_config_isCloudConfigured
  by (simp add: or_else_def truthy_def split: sum.splits broker_reply.splits option.splits)

lemma upload_result_cases:
  "upload_result cfg env x =
     (case source env of
        Inl e \<Rightarrow> Inl e
      | Inr r \<Rightarrow>
          if \<not> ok r then Inl (ErrorObject (js ''Fetch failed: '' @ statusText r))
          else (case blob r of
                  Inl e \<Rightarrow> Inl e
                | Inr t \<Rightarrow>
                    (case getPresignedUrl cfg (broker env) (sanitizeFileName (upload_name x)) t of
                       Inl e \<Rightarrow> Inl e
                     | Inr u \<Rightarrow>
                         (case snd (transfer env u) of
                            Load code \<Rightarrow>
                              if code = 200 \<or> code = 201 then Inr ()
                              else Inl (ErrorObject (js ''Upload failed: '' @ decimal code))
                          | NetworkError \<Rightarrow> Inl (ErrorObject (js ''Network error''))
                          | SetupThrows e \<Rightarrow> Inl e))))"
  by (auto simp: upload_result_def try_upload_def uploadFileToCloud_def Let_def
      split: sum.splits prod.splits xhr_end.splits)


lemma finish_cases:
  assumes "y = finish (upload_result cfg env x) x"
  shows "(\<forall>e. source env = Inl e
        \<longrightarrow> y = x\<lparr>status := Error, progress := 0, error := Some (error_message e)\<rparr>)
   \<and> (\<forall>r. source env = Inr r \<and> \<not> ok r
        \<longrightarrow> y = x\<lparr>status := Error, progress := 0,
                 error := Some (js ''Fetch failed: '' @ statusText r)\<rparr>)
   \<and> (\<forall>r e. source env = Inr r \<and> ok r \<and> blob r = Inl e
        \<longrightarrow> y = x\<lparr>status := Error, progress := 0, error := Some (error_message e)\<rparr>)
   \<and> (\<forall>r t e. source env = Inr r \<and> ok r \<and> blob r = Inr t
          \<and> getPresignedUrl cfg (broker env) (sanitizeFileName (upload_name x)) t = Inl e
        \<longrightarrow> y = x\<lparr>status := Error, progress := 0, error := Some (error_message e)\<rparr>)
   \<and> (\<forall>r t u evs code. source env = Inr r \<and> ok r \<and> blob r = Inr t
          \<and> getPresignedUrl cfg (broker env) (sanitizeFileName (upload_name x)) t = Inr u
          \<and> transfer env u = (evs, Load code)
        \<longrightarrow> y = (if code = 200 \<or> code = 201 then x\<lparr>status := Success, progress := 100\<rparr>
               else x\<lparr>status := Error, progress := 0,
                      error := Some (js ''Upload failed: '' @ decimal code)\<rparr>))
   \<and> (\<forall>r t u evs. source env = Inr r \<and> ok r \<and> blob r = Inr t
          \<and> getPresignedUrl cfg (broker env) (sanitizeFileName (upload_name x)) t = Inr u
          \<and> transfer env u = (evs, NetworkError)
        \<longrightarrow> y = x\<lparr>status := Error, progress := 0, error := Some (js ''Network error'')\<rparr>)
   \<and> (\<forall>r t u evs e. source env = Inr r \<and> ok r \<and> blob r = Inr t
          \<and> getPresignedUrl cfg (broker env) (sanitizeFileName (upload_name x)) t = Inr u
          \<and> transfer env u = (evs, SetupThrows e)
        \<longrightarrow> y = x\<lparr>status := Error, progress := 0, error := Some (error_message e)\<rparr>)"
  unfolding assms by (simp add: upload_result_cases finish_def error_message_def)

lemma finish_status:
  assumes "y = finish (upload_result cfg env x) x"
  shows "(status y = Success \<or> status y = Error)
   \<and> (status y = Success \<longleftrightarrow>
        (\<exists>r t u evs code. source env = Inr r \<and> ok r \<and> blob r = Inr t
           \<and> getPresignedUrl cfg (broker env) (sanitizeFileName (upload_name x)) t = Inr u
           \<and> transfer env u = (evs, Load code) \<and> (code = 200 \<or> code = 201)))"
proof -
  define R where "R = upload_result cfg env x"
  have 1: "status (finish R x) = Success \<longleftrightarrow> R = Inr ()"
    by (cases R) (simp_all add: finish_def)
  have 2: "status (finish R x) = Success \<or> status (finish R x) = Error"
    by (cases R) (simp_all add: finish_def)
  have 3: "R = Inr () \<longleftrightarrow>
        (\<exists>r t u evs code. source env = Inr r \<and> ok r \<and> blob r = Inr t
           \<and> getPresignedUrl cfg (broker env) (sanitizeFileName (upload_name x)) t = Inr u
           \<and> transfer env u = (evs, Load code) \<and> (code = 200 \<or> code = 201))"
    unfolding R_def by (rule upload_result_ok_iff)
  from 1 2 3 show ?thesis unfolding assms R_def [symmetric] by blast
qed

text \<open>
  C6. For every batch and every item in it, how the item ends depends on the answers to
  its own fetch, credential request and transfer only: the batch's last state holds
  every item, in order, as \<open>success\<close> with progress 100, or as \<open>error\<close> with progress 0 and
  the message of its own failure. A failure changes no other item and does not stop the
  batch: every item is attempted (it is \<open>uploading\<close> in some state of the trace), and an
  item that is \<open>success\<close> or \<open>error\<close> is never changed again, so a failed item is not
  retried.

  The failures, one by one, for the item \<open>its ! k\<close> with the answers
  \<open>net (item_id (its ! k))\<close>. The item ends as \<open>error\<close> with progress 0 when its fetch
  rejects (with the rejection's message), when the fetched response is not ok (with
  \<open>Fetch failed: \<close> and the status text), when reading the blob rejects, when
  \<open>getPresignedUrl\<close> throws, when the transfer ends with a status other than 200 and 201
  (with \<open>Upload failed: \<close> and the status), when the transfer ends with a network error
  (with \<open>Network error\<close>), and when setting up the transfer throws. It ends as \<open>success\<close>
  exactly when the fetch, the blob, the credential request and the transfer all succeed
  and the final status is 200 or 201. \<open>getPresignedUrl\<close> throws when the configuration is
  incomplete, when the request to the broker rejects, when the broker's response is not
  ok (with the broker's message, or a default when there is none), or when reading the
  response rejects; otherwise it returns the signed URL of the response.
\<close>

theorem batch_failures_isolated:
  assumes "tr = handleBulkUpload cfg U now net bulkUrls \<or> tr = handleFileUpload cfg U now net chosen
           \<or> tr = handleSingleUpload cfg U now net singleUrl"
    and "tr \<noteq> []"
  shows "(\<exists>its. hd tr = \<lparr>items = its, isUploading = True\<rparr>
      \<and> last tr = \<lparr>items = map (\<lambda>x. finish (upload_result cfg (net (item_id x)) x) x) its,
                    isUploading = False\<rparr>
      \<and> (\<forall>k < length its.
            status (its ! k) = Pending
            \<and> (\<exists>j < length tr. status (items (tr ! j) ! k) = Uploading)
            \<and> (upload_result cfg (net (item_id (its ! k))) (its ! k) = Inr ()
                 \<longrightarrow> items (last tr) ! k = (its ! k)\<lparr>status := Success, progress := 100\<rparr>)
            \<and> (\<forall>e. upload_result cfg (net (item_id (its ! k))) (its ! k) = Inl e
                 \<longrightarrow> items (last tr) ! k
                     = (its ! k)\<lparr>status := Error, progress := 0, error := Some (error_message e)\<rparr>)
            \<and> (\<forall>e. source (net (item_id (its ! k))) = Inl e
                 \<longrightarrow> items (last tr) ! k
                     = (its ! k)\<lparr>status := Error, progress := 0, error := Some (error_message e)\<rparr>)
            \<and> (\<forall>r. source (net (item_id (its ! k))) = Inr r \<and> \<not> ok r
                 \<longrightarrow> items (last tr) ! k
                     = (its ! k)\<lparr>status := Error, progress := 0,
                                 error := Some (js ''Fetch failed: '' @ statusText r)\<rparr>)
            \<and> (\<forall>r e. source (net (item_id (its ! k))) = Inr r \<and> ok r \<and> blob r = Inl e
                 \<longrightarrow> items (last tr) ! k
                     = (its ! k)\<lparr>status := Error, progress := 0, error := Some (error_message e)\<rparr>)
            \<and> (\<forall>r t e. source (net (item_id (its ! k))) = Inr r \<and> ok r \<and> blob r = Inr t
                   \<and> getPresignedUrl cfg (broker (net (item_id (its ! k))))
                       (sanitizeFileName (upload_name (its ! k))) t = Inl e
                 \<longrightarrow> items (last tr) ! k
                     = (its ! k)\<lparr>status := Error, progress := 0, error := Some (error_message e)\<rparr>)
            \<and> (\<forall>r t u evs code. source (net (item_id (its ! k))) = Inr r \<and> ok r \<and> blob r = Inr t
                   \<and> getPresignedUrl cfg (broker (net (item_id (its ! k))))
                       (sanitizeFileName (upload_name (its ! k))) t = Inr u
                   \<and> transfer (net (item_id (its ! k))) u = (evs, Load code)
                 \<longrightarrow> items (last tr) ! k
                     = (if code = 200 \<or> code = 201
                        then (its ! k)\<lparr>status := Success, progress := 100\<rparr>
                        else (its ! k)\<lparr>status := Error, progress := 0,
                                       error := Some (js ''Upload failed: '' @ decimal code)\<rparr>))
            \<and> (\<forall>r t u evs. source (net (item_id (its ! k))) = Inr r \<and> ok r \<and> blob r = Inr t
                   \<and> getPresignedUrl cfg (broker (net (item_id (its ! k))))
                       (sanitizeFileName (upload_name (its ! k))) t = Inr u
                   \<and> transfer (net (item_id (its ! k))) u = (evs, NetworkError)
                 \<longrightarrow> items (last tr) ! k
                     = (its ! k)\<lparr>status := Error, progress := 0,
                                 error := Some (js ''Network error'')\<rparr>)
            \<and> (\<forall>r t u evs e. source (net (item_id (its ! k))) = Inr r \<and> ok r \<and> blob r = Inr t
                   \<and> getPresignedUrl cfg (broker (net (item_id (its ! k))))
                       (sanitizeFileName (upload_name (its ! k))) t = Inr u
                   \<and> transfer (net (item_id (its ! k))) u = (evs, SetupThrows e)
                 \<longrightarrow> items (last tr) ! k
                     = (its ! k)\<lparr>status := Error, progress := 0, error := Some (error_message e)\<rparr>)
            \<and> (status (items (last tr) ! k) = Success \<or> status (items (last tr) ! k) = Error)
            \<and> (status (items (last tr) ! k) = Success \<longleftrightarrow>
                 (\<exists>r t u evs code. source (net (item_id (its ! k))) = Inr r \<and> ok r \<and> blob r = Inr t
                    \<and> getPresignedUrl cfg (broker (net (item_id (its ! k))))
                        (sanitizeFileName (upload_name (its ! k))) t = Inr u
                    \<and> transfer (net (item_id (its ! k))) u = (evs, Load code)
                    \<and> (code = 200 \<or> code = 201))))
      \<and> (\<forall>j j' k. j \<le> j' \<and> j' < length tr \<and> k < length its
            \<and> (status (items (tr ! j) ! k) = Success \<or> status (items (tr ! j) ! k) = Error)
            \<longrightarrow> items (tr ! j') ! k = items (tr ! j) ! k))
   \<and> (\<forall>post n t.
        getPresignedUrl cfg post n t =
          (if isCloudConfigured cfg
           then (case post \<lparr>endpoint = broker_endpoint (provider cfg),
                             req_fileName = sanitizeFileName n,
                             req_fileType = sanitizeInput t,
                             req_config = cfg\<rparr> of
                   Inl e \<Rightarrow> Inl e
                 | Inr (ReplyOk answer) \<Rightarrow> answer
                 | Inr (ReplyNotOk (Inl e)) \<Rightarrow> Inl e
                 | Inr (ReplyNotOk (Inr None)) \<Rightarrow>
                     Inl (ErrorObject (js ''Failed to get '' @ provider_upper (provider cfg)
                                       @ js '' signed URL''))
                 | Inr (ReplyNotOk (Inr (Some m))) \<Rightarrow>
                     Inl (ErrorObject
                            (if m = [] then js ''Failed to get '' @ provider_upper (provider cfg)
                                            @ js '' signed URL''
                             else m)))
           else Inl (ErrorObject
                  ((case provider cfg of S3 \<Rightarrow> js ''S3'' | GCP \<Rightarrow> js ''GCP'' | Azure \<Rightarrow> js ''Azure'')
                   @ js '' configuration required''))))"
proof -
  from handler_batch [OF assms] obtain its where tr: "tr = run_batch cfg net its"
    and d: "distinct (map item_id its)" and p: "\<forall>x \<in> set its. status x = Pending"
    by blast
  have s: "settled cfg net = (\<lambda>x. finish (upload_result cfg (net (item_id x)) x) x)"
    by (simp add: settled_def fun_eq_iff)
  have a: "hd tr = \<lparr>items = its, isUploading = True\<rparr>"
    unfolding tr by (rule run_batch_hd [OF d])
  have b: "last tr = \<lparr>items = map (\<lambda>x. finish (upload_result cfg (net (item_id x)) x) x) its,
                    isUploading = False\<rparr>"
    unfolding tr run_batch_last [OF d] s ..
  have fin: "items (last tr) ! k = finish (upload_result cfg (net (item_id (its ! k))) (its ! k)) (its ! k)"
    if "k < length its" for k
    unfolding b using that by simp
  have c: "status (its ! k) = Pending
            \<and> (\<exists>j < length tr. status (items (tr ! j) ! k) = Uploading)
            \<and> (upload_result cfg (net (item_id (its ! k))) (its ! k) = Inr ()
                 \<longrightarrow> items (last tr) ! k = (its ! k)\<lparr>status := Success, progress := 100\<rparr>)
            \<and> (\<forall>e. upload_result cfg (net (item_id (its ! k))) (its ! k) = Inl e
                 \<longrightarrow> items (last tr) ! k
                     = (its ! k)\<lparr>status := Error, progress := 0, error := Some (error_message e)\<rparr>)"
    if k: "k < length its" for k
  proof -
    from run_batch_attempts [OF d k, of cfg net]
    obtain st' where "st' \<in> set tr" "status (items st' ! k) = Uploading"
      unfolding tr by blast
    then have "\<exists>j < length tr. status (items (tr ! j) ! k) = Uploading"
      by (metis in_set_conv_nth)
    then show ?thesis using p k fin [OF k] by (auto simp: finish_def)
  qed
  have e: "items (tr ! j') ! k = items (tr ! j) ! k"
    if "j \<le> j'" "j' < length tr" "k < length its"
      "status (items (tr ! j) ! k) = Success \<or> status (items (tr ! j) ! k) = Error" for j j' k
  proof (cases "j = j'")
    case True
    then show ?thesis by simp
  next
    case False
    with that have lt: "j < j'" by simp
    have "sorted_wrt stays_settled tr"
      unfolding tr by (rule run_batch_stays [OF d p])
    with lt that(2) have st: "stays_settled (tr ! j) (tr ! j')"
      by (simp add: sorted_wrt_iff_nth_less)
    have "tr ! j \<in> set tr" using lt that(2) by simp
    then have "length (items (tr ! j)) = length its"
      unfolding tr by (rule run_batch_length_items [OF d])
    with st that(3,4) show ?thesis
      unfolding stays_settled_def terminal_def by auto
  qed
  show ?thesis
    apply (rule conjI)
     apply (rule exI [of _ its])
     apply (rule conjI, rule a)
     apply (rule conjI, rule b)
     apply (rule conjI)
      apply (intro allI impI)
    subgoal premises k for k
      using c [OF k] finish_cases [OF fin [OF k]] finish_status [OF fin [OF k]]
      by (intro conjI) (elim conjE, assumption)+
    using e apply blast
    apply (simp add: getPresignedUrl_cases)
    done
qed


lemma demo_handlers:
  "demo_trace = handleBulkUpload s3_ready demo_URL (\<lambda>_. 7) demo_net (js ''http://a/1,not-a-url,http://b/2'')
      \<or> demo_trace = handleFileUpload s3_ready demo_URL (\<lambda>_. 7) demo_net None
      \<or> demo_trace = handleSingleUpload s3_ready demo_URL (\<lambda>_. 7) demo_net []"
  by (simp add: demo_trace_def)

text \<open>
  A batch of six in which every kind of failure occurs once: the fetch of item 0
  rejects, the response for item 1 is not ok, the broker refuses item 2, the transfer of
  item 3 ends with status 403, the transfer of item 4 ends with a network error, and item
  5 is uploaded.
\<close>

definition env_offline :: outcome where
  "env_offline = env_ok\<lparr>source := Inl (ErrorObject (js ''Failed to fetch''))\<rparr>"

definition env_not_found :: outcome where
  "env_not_found =
     env_ok\<lparr>source := Inr \<lparr>ok = False, statusText = js ''Not Found'', blob = Inr (js ''text/html'')\<rparr>\<rparr>"

definition env_forbidden :: outcome where
  "env_forbidden = env_ok\<lparr>transfer := (\<lambda>u. ([ProgressEvent True 100], Load 403))\<rparr>"

definition env_dropped :: outcome where
  "env_dropped = env_ok\<lparr>transfer := (\<lambda>u. ([ProgressEvent True 40], NetworkError))\<rparr>"

definition failing_net :: "item_id \<Rightarrow> outcome" where
  "failing_net i =
     (if i = BatchId 7 0 then env_offline
      else if i = BatchId 7 1 then env_not_found
      else if i = BatchId 7 2 then env_broker_fails
      else if i = BatchId 7 3 then env_forbidden
      else if i = BatchId 7 4 then env_dropped
      else env_ok)"

definition failing_urls :: "jstring list" where
  "failing_urls =
     [js ''http://h/0'', js ''http://h/1'', js ''http://h/2'', js ''http://h/3'', js ''http://h/4'',
      js ''http://h/5'']"

definition failing_URL :: "jstring \<Rightarrow> jstring option" where
  "failing_URL u = (if u \<in> set failing_urls then Some (js ''http:'') else None)"

definition failing_trace :: "UploadState list" where
  "failing_trace =
     handleBulkUpload s3_ready failing_URL (\<lambda>_. 7) failing_net
       (js ''http://h/0,http://h/1,http://h/2,http://h/3,http://h/4,http://h/5'')"

lemma failing_parse:
  "parseUrls failing_URL (js ''http://h/0,http://h/1,http://h/2,http://h/3,http://h/4,http://h/5'')
   = failing_urls"
  by (simp add: parseUrls_def split_separators.simps js_def is_separator_def sanitizeUrl_def trim_def
      is_whitespace_def is_markup_char_def isValidUrl_def failing_URL_def failing_urls_def truthy_def)

lemma failing_items:
  "make_items (\<lambda>_. 7) failing_urls =
     [demo_item 0 (js ''http://h/0'') Pending 0 None, demo_item 1 (js ''http://h/1'') Pending 0 None,
      demo_item 2 (js ''http://h/2'') Pending 0 None, demo_item 3 (js ''http://h/3'') Pending 0 None,
      demo_item 4 (js ''http://h/4'') Pending 0 None, demo_item 5 (js ''http://h/5'') Pending 0 None]"
  by (simp add: make_items_def failing_urls_def demo_item_def enumerate_eq_zip upt_rec)

lemma failing_trace_run_batch:
  "failing_trace = run_batch s3_ready failing_net (make_items (\<lambda>_. 7) failing_urls)"
  by (simp add: failing_trace_def handleBulkUpload_run_batch failing_parse) (simp add: failing_urls_def)

lemma failing_handlers:
  "failing_trace = handleBulkUpload s3_ready failing_URL (\<lambda>_. 7) failing_net
       (js ''http://h/0,http://h/1,http://h/2,http://h/3,http://h/4,http://h/5'')
   \<or> failing_trace = handleFileUpload s3_ready failing_URL (\<lambda>_. 7) failing_net None
   \<or> failing_trace = handleSingleUpload s3_ready failing_URL (\<lambda>_. 7) failing_net []"
  by (simp add: failing_trace_def)

lemma list_of_six:
  assumes "length xs = 6"
  shows "xs = [xs ! 0, xs ! 1, xs ! 2, xs ! 3, xs ! 4, xs ! 5]"
proof (rule nth_equalityI)
  show "length xs = length [xs ! 0, xs ! 1, xs ! 2, xs ! 3, xs ! 4, xs ! 5]"
    using assms by simp
next
  fix i assume "i < length xs"
  with assms have "i = 0 \<or> i = 1 \<or> i = 2 \<or> i = 3 \<or> i = 4 \<or> i = 5" by auto
  then show "xs ! i = [xs ! 0, xs ! 1, xs ! 2, xs ! 3, xs ! 4, xs ! 5] ! i"
    by (elim disjE) simp_all
qed

theorem batch_failures_isolated_witness:
  "map status (items (hd failing_trace)) = [Pending, Pending, Pending, Pending, Pending, Pending]
   \<and> map status (items (last failing_trace)) = [Error, Error, Error, Error, Error, Success]
   \<and> map progress (items (last failing_trace)) = [0, 0, 0, 0, 0, 100]
   \<and> map error (items (last failing_trace))
       = [Some (js ''Failed to fetch''), Some (js ''Fetch failed: Not Found''),
          Some (js ''Invalid request data''), Some (js ''Upload failed: 403''),
          Some (js ''Network error''), None]
   \<and> map status (items (last demo_trace)) = [Error, Success]
   \<and> map error (items (last demo_trace)) = [Some (js ''Invalid request data''), None]"
proof -
  let ?its = "make_items (\<lambda>_. 7) failing_urls"
  have d: "distinct (map item_id ?its)" by (rule make_items_ids)
  have ne: "failing_trace \<noteq> []"
    unfolding failing_trace_run_batch run_batch_eq [OF d] by simp
  have h: "hd failing_trace = \<lparr>items = ?its, isUploading = True\<rparr>"
    unfolding failing_trace_run_batch by (rule run_batch_hd [OF d])
  note t = batch_failures_isolated [OF failing_handlers ne]
  from t have g: "\<And>n t. getPresignedUrl s3_ready (\<lambda>r. Inr (ReplyOk (Inr (js ''https://bucket/put?sig'')))) n t
      = Inr (js ''https://bucket/put?sig'')"
    "\<And>n t. getPresignedUrl s3_ready (\<lambda>r. Inr (ReplyNotOk (Inr (Some (js ''Invalid request data''))))) n t
      = Inl (ErrorObject (js ''Invalid request data''))"
    by (simp_all add: isCloudConfigured_def s3_ready_def truthy_def js_def)
  have start: "map status (items (hd failing_trace)) = [Pending, Pending, Pending, Pending, Pending, Pending]"
    unfolding h by (simp add: failing_items demo_item_def)
  have demo: "map status (items (last demo_trace)) = [Error, Success]"
    "map error (items (last demo_trace)) = [Some (js ''Invalid request data''), None]"
    by (simp_all add: demo_trace_eq demo_state_def demo_item_def)
  let ?ok = "\<lparr>ok = True, statusText = js ''OK'', blob = Inr (js ''image/png'')\<rparr>"
  show ?thesis
    using t [THEN conjunct1]
    apply (elim exE conjE)
    subgoal premises p for its
    proof -
      from p(1) h have its: "its = ?its" by simp
      note b = p(2)
      note item = p(3) [rule_format]
      note c = conjunct2
      note fetch_rejects = item [THEN c, THEN c, THEN c, THEN c, THEN conjunct1, rule_format]
      note fetch_not_ok = item [THEN c, THEN c, THEN c, THEN c, THEN c, THEN conjunct1, rule_format]
      note broker_fails =
        item [THEN c, THEN c, THEN c, THEN c, THEN c, THEN c, THEN c, THEN conjunct1, rule_format]
      note transfer_ends =
        item [THEN c, THEN c, THEN c, THEN c, THEN c, THEN c, THEN c, THEN c, THEN conjunct1,
          rule_format]
      note transfer_drops =
        item [THEN c, THEN c, THEN c, THEN c, THEN c, THEN c, THEN c, THEN c, THEN c,
          THEN conjunct1, rule_format]
      have len: "length (items (last failing_trace)) = 6"
        unfolding b its by (simp add: failing_items)
      have n0: "items (last failing_trace) ! 0
          = demo_item 0 (js ''http://h/0'') Error 0 (Some (js ''Failed to fetch''))"
        using fetch_rejects [of 0 "ErrorObject (js ''Failed to fetch'')"]
        by (simp add: its failing_items demo_item_def failing_net_def env_offline_def
            error_message_def)
      have n1: "items (last failing_trace) ! 1
          = demo_item 1 (js ''http://h/1'') Error 0 (Some (js ''Fetch failed: Not Found''))"
        using fetch_not_ok [of 1 "\<lparr>ok = False, statusText = js ''Not Found'',
            blob = Inr (js ''text/html'')\<rparr>"]
        by (simp add: its failing_items demo_item_def failing_net_def env_not_found_def js_def)
      have n2: "items (last failing_trace) ! 2
          = demo_item 2 (js ''http://h/2'') Error 0 (Some (js ''Invalid request data''))"
        using broker_fails [of 2 ?ok "js ''image/png''" "ErrorObject (js ''Invalid request data'')"]
        by (simp add: its failing_items demo_item_def failing_net_def env_broker_fails_def
            env_ok_def g error_message_def)
      have n3: "items (last failing_trace) ! 3
          = demo_item 3 (js ''http://h/3'') Error 0 (Some (js ''Upload failed: 403''))"
        using transfer_ends [of 3 ?ok "js ''image/png''" "js ''https://bucket/put?sig''"
            "[ProgressEvent True 100]" 403]
        by (simp add: its failing_items demo_item_def failing_net_def env_forbidden_def env_ok_def g)
          (simp add: decimal.simps js_def)
      have n4: "items (last failing_trace) ! 4
          = demo_item 4 (js ''http://h/4'') Error 0 (Some (js ''Network error''))"
        using transfer_drops [of 4 ?ok "js ''image/png''" "js ''https://bucket/put?sig''"
            "[ProgressEvent True 40]"]
        by (simp add: its failing_items demo_item_def failing_net_def env_dropped_def env_ok_def g)
      have n5: "items (last failing_trace) ! 5 = demo_item 5 (js ''http://h/5'') Success 100 None"
        using transfer_ends [of 5 ?ok "js ''image/png''" "js ''https://bucket/put?sig''"
            "[ProgressEvent True 40, ProgressEvent False 0, ProgressEvent True 100]" 200]
        by (simp add: its failing_items demo_item_def failing_net_def env_ok_def g)
      have fin: "items (last failing_trace)
          = [demo_item 0 (js ''http://h/0'') Error 0 (Some (js ''Failed to fetch'')),
             demo_item 1 (js ''http://h/1'') Error 0 (Some (js ''Fetch failed: Not Found'')),
             demo_item 2 (js ''http://h/2'') Error 0 (Some (js ''Invalid request data'')),
             demo_item 3 (js ''http://h/3'') Error 0 (Some (js ''Upload failed: 403'')),
             demo_item 4 (js ''http://h/4'') Error 0 (Some (js ''Network error'')),
             demo_item 5 (js ''http://h/5'') Success 100 None]"
        using list_of_six [OF len] unfolding n0 n1 n2 n3 n4 n5 .
      have "map status (items (last failing_trace)) = [Error, Error, Error, Error, Error, Success]"
        "map progress (items (last failing_trace)) = [0, 0, 0, 0, 0, 100]"
        "map error (items (last failing_trace))
           = [Some (js ''Failed to fetch''), Some (js ''Fetch failed: Not Found''),
              Some (js ''Invalid request data''), Some (js ''Upload failed: 403''),
              Some (js ''Network error''), None]"
        unfolding fin by (simp_all add: demo_item_def)
      with start demo show ?thesis by blast
    qed
    done
qed

text \<open>
  C7. For every item whose fetch and credential request succeed and whose transfer ends
  with a final HTTP status: a status of 200 or 201 makes \<open>uploadFileToCloud\<close> resolve and
  the item end as \<open>success\<close> with progress 100; any other status makes it reject and the
  item end as \<open>error\<close> (with progress 0 and the message \<open>Upload failed: <status>\<close>).
\<close>

theorem transfer_status_decides:
  assumes "item_id x = item_id item"
    and "item_id item \<notin> item_id ` set A" and "item_id item \<notin> item_id ` set B"
    and "source env = Inr response" and "ok response" and "blob response = Inr blob_type"
    and "getPresignedUrl cfg (broker env) (sanitizeFileName (upload_name item)) blob_type = Inr signedUrl"
    and "transfer env signedUrl = (events, Load code)"
  shows "last (processUpload cfg env item (st\<lparr>items := A @ x # B\<rparr>))
         = st\<lparr>items := A @
               (if code = 200 \<or> code = 201 then x\<lparr>status := Success, progress := 100\<rparr>
                else x\<lparr>status := Error, progress := 0,
                       error := Some (js ''Upload failed: '' @ decimal code)\<rparr>) # B\<rparr>
       \<and> (snd (uploadFileToCloud (transfer env) signedUrl (item_id item) s) = Inr ()
            \<longleftrightarrow> code = 200 \<or> code = 201)"
proof -
  have r: "upload_result cfg env item =
      (if code = 200 \<or> code = 201 then Inr ()
       else Inl (ErrorObject (js ''Upload failed: '' @ decimal code)))"
    using assms(4-8)
    by (simp add: upload_result_def try_upload_def uploadFileToCloud_def Let_def)
  from processUpload_trace [OF assms(1-3), of cfg env st]
  have "last (processUpload cfg env item (st\<lparr>items := A @ x # B\<rparr>))
      = st\<lparr>items := A @ finish (upload_result cfg env item) x # B\<rparr>"
    by auto
  then have "last (processUpload cfg env item (st\<lparr>items := A @ x # B\<rparr>))
         = st\<lparr>items := A @
               (if code = 200 \<or> code = 201 then x\<lparr>status := Success, progress := 100\<rparr>
                else x\<lparr>status := Error, progress := 0,
                       error := Some (js ''Upload failed: '' @ decimal code)\<rparr>) # B\<rparr>"
    unfolding r by (simp add: finish_def error_message_def)
  moreover have "snd (uploadFileToCloud (transfer env) signedUrl (item_id item) s) = Inr ()
            \<longleftrightarrow> code = 200 \<or> code = 201"
    using assms(8) by (simp add: uploadFileToCloud_def)
  ultimately show ?thesis by blast
qed

definition env_rejected :: outcome where
  "env_rejected = env_ok\<lparr>transfer := (\<lambda>u. ([ProgressEvent True 100], Load 403))\<rparr>"

theorem transfer_status_decides_witness:
  "last (processUpload s3_ready env_ok (demo_item 0 (js ''http://a/1'') Pending 0 None)
           \<lparr>items = [demo_item 0 (js ''http://a/1'') Pending 0 None], isUploading = True\<rparr>)
     = \<lparr>items = [demo_item 0 (js ''http://a/1'') Success 100 None], isUploading = True\<rparr>
   \<and> last (processUpload s3_ready env_rejected (demo_item 0 (js ''http://a/1'') Pending 0 None)
           \<lparr>items = [demo_item 0 (js ''http://a/1'') Pending 0 None], isUploading = True\<rparr>)
     = \<lparr>items = [demo_item 0 (js ''http://a/1'') Error 0 (Some (js ''Upload failed: 403''))],
        isUploading = True\<rparr>"
proof -
  let ?x = "demo_item 0 (js ''http://a/1'') Pending 0 None"
  let ?st = "\<lparr>items = [?x], isUploading = True\<rparr>"
  let ?resp = "\<lparr>ok = True, statusText = js ''OK'', blob = Inr (js ''image/png'')\<rparr>"
  have i1: "item_id ?x = item_id ?x" by simp
  have i2: "item_id ?x \<notin> item_id ` set []" by simp
  have s1: "source env_ok = Inr ?resp" by (simp add: env_ok_def)
  have s2: "source env_rejected = Inr ?resp" by (simp add: env_rejected_def env_ok_def)
  have o: "ok ?resp" by simp
  have b: "blob ?resp = Inr (js ''image/png'')" by simp
  have g1: "getPresignedUrl s3_ready (broker env_ok) (sanitizeFileName (upload_name ?x)) (js ''image/png'')
      = Inr (js ''https://bucket/put?sig'')"
    by (simp add: getPresignedUrl_def check_config_def s3_ready_def env_ok_def truthy_def js_def)
  have g2: "getPresignedUrl s3_ready (broker env_rejected) (sanitizeFileName (upload_name ?x)) (js ''image/png'')
      = Inr (js ''https://bucket/put?sig'')"
    by (simp add: getPresignedUrl_def check_config_def s3_ready_def env_ok_def env_rejected_def
        truthy_def js_def)
  have t1: "transfer env_ok (js ''https://bucket/put?sig'')
      = ([ProgressEvent True 40, ProgressEvent False 0, ProgressEvent True 100], Load 200)"
    by (simp add: env_ok_def)
  have t2: "transfer env_rejected (js ''https://bucket/put?sig'') = ([ProgressEvent True 100], Load 403)"
    by (simp add: env_rejected_def)
  have e: "?st\<lparr>items := [] @ ?x # []\<rparr> = ?st" by simp
  have d: "js ''Upload failed: '' @ decimal 403 = js ''Upload failed: 403''"
    by (simp add: js_def decimal.simps)
  from transfer_status_decides [OF i1 i2 i2 s1 o b g1 t1, of ?st]
  have "last (processUpload s3_ready env_ok ?x ?st)
      = \<lparr>items = [demo_item 0 (js ''http://a/1'') Success 100 None], isUploading = True\<rparr>"
    unfolding e by (simp add: demo_item_def)
  moreover from transfer_status_decides [OF i1 i2 i2 s2 o b g2 t2, of ?st]
  have "last (processUpload s3_ready env_rejected ?x ?st)
      = \<lparr>items = [demo_item 0 (js ''http://a/1'') Error 0 (Some (js ''Upload failed: 403''))],
         isUploading = True\<rparr>"
    unfolding e d by (simp add: demo_item_def)
  ultimately show ?thesis by blast
qed

lemma sum_progress_without_failed:
  "failed_at_zero xs \<Longrightarrow>
   sum_list (map progress xs) = sum_list (map progress (filter (\<lambda>x. status x \<noteq> Error) xs))"
  by (induction xs) (auto simp: failed_at_zero_def)

text \<open>
  C10. In every state a batch sets, every item whose status is \<open>error\<close> has progress 0:
  the update that sets \<open>error\<close> sets the progress to 0 with it. A failed item therefore
  contributes 0 to the sum of the aggregate progress, which is the sum over the items
  that have not failed, divided by the number of all items and rounded.
\<close>

theorem failed_items_have_zero_progress:
  assumes "tr = handleBulkUpload cfg U now net bulkUrls \<or> tr = handleFileUpload cfg U now net chosen
           \<or> tr = handleSingleUpload cfg U now net singleUrl"
    and "st \<in> set tr"
  shows "(\<forall>x \<in> set (items st). status x = Error \<longrightarrow> progress x = 0)
       \<and> sum_list (map progress (items st))
           = sum_list (map progress (filter (\<lambda>x. status x \<noteq> Error) (items st)))
       \<and> getOverallProgress st
           = (if items st = [] then 0
              else round (real_of_int (sum_list (map progress (filter (\<lambda>x. status x \<noteq> Error) (items st))))
                          / real (length (items st))))"
proof -
  from assms(2) have ne: "tr \<noteq> []" by auto
  from handler_batch [OF assms(1) ne] obtain its where tr: "tr = run_batch cfg net its"
    and d: "distinct (map item_id its)" and p: "\<forall>x \<in> set its. status x = Pending"
    by blast
  have f: "failed_at_zero (items st)"
    using run_batch_failed_at_zero [OF d p] assms(2) unfolding tr by blast
  note sm = sum_progress_without_failed [OF f]
  have "getOverallProgress st
      = (if items st = [] then 0
         else round (real_of_int (sum_list (map progress (items st))) / real (length (items st))))"
    by (simp add: getOverallProgress_round mean_progress_def)
  with f sm show ?thesis unfolding failed_at_zero_def by simp
qed

theorem failed_items_have_zero_progress_witness:
  "status (items (demo_trace ! 4) ! 0) = Error
   \<and> progress (items (demo_trace ! 4) ! 0) = 0
   \<and> getOverallProgress (demo_trace ! 4) = 20"
proof -
  have m: "demo_trace ! 4 \<in> set demo_trace"
    by (simp add: demo_trace_eq)
  have e: "status (items (demo_trace ! 4) ! 0) = Error"
    by (simp add: demo_trace_eq demo_state_def demo_item_def)
  have i: "items (demo_trace ! 4) ! 0 \<in> set (items (demo_trace ! 4))"
    by (simp add: demo_trace_eq demo_state_def)
  have g: "getOverallProgress (demo_trace ! 4) = 20"
    by (simp add: demo_trace_eq demo_state_def demo_item_def getOverallProgress_int)
  from failed_items_have_zero_progress [OF demo_handlers m] i e
  have "progress (items (demo_trace ! 4) ! 0) = 0" by blast
  with e g show ?thesis by blast
qed

section \<open>The server: the credential brokers\<close>

text \<open>
  The repository holds two versions of each of the three routes. \<open>src/server/index.ts\<close>
  mounts the routes of \<open>src/server/routes/s3.ts\<close>, \<open>gcp.ts\<close> and \<open>azure.ts\<close>; they are
  \<open>s3Routes\<close>, \<open>gcpRoutes\<close> and \<open>azureRoutes\<close> below. The other version (the files listed as
  \<open>unnamed/part_000\<close> and \<open>unnamed/part_001\<close>) tells validation errors, unparsable
  credentials and provider failures apart; its routes carry the suffix of their file.
\<close>

subsection \<open>Request bodies and schemas\<close>

text \<open>
  \<open>req.body\<close> is a JSON value: a string, an object (a partial map from keys to values) or
  something else. A \<open>zod\<close> schema either yields the validated data or makes \<open>parse\<close> throw
  a \<open>ZodError\<close> (\<open>None\<close>). \<open>z_string lo hi\<close> is \<open>z.string().min(lo)\<close>, with \<open>.max(hi)\<close> when
  given; \<open>z_optional_string\<close> is \<open>z.string().optional()\<close>; \<open>z_literal\<close> is \<open>z.literal\<close>;
  \<open>z_object\<close> accepts an object and hands its entries to the field schemas.
\<close>

datatype json = JString jstring | JObject "string \<Rightarrow> json option" | JOther

definition z_object :: "json option \<Rightarrow> (string \<Rightarrow> json option) option" where
  "z_object v = (case v of Some (JObject entries) \<Rightarrow> Some entries | _ \<Rightarrow> None)"

definition z_string :: "nat \<Rightarrow> nat option \<Rightarrow> json option \<Rightarrow> jstring option" where
  "z_string lo hi v =
     (case v of
        Some (JString s) \<Rightarrow>
          if lo \<le> length s \<and> (case hi of None \<Rightarrow> True | Some h \<Rightarrow> length s \<le> h) then Some s
          else None
      | _ \<Rightarrow> None)"

definition z_optional_string :: "json option \<Rightarrow> jstring option option" where
  "z_optional_string v =
     (case v of None \<Rightarrow> Some None | Some (JString s) \<Rightarrow> Some (Some s) | Some _ \<Rightarrow> None)"

definition z_literal :: "jstring \<Rightarrow> json option \<Rightarrow> unit option" where
  "z_literal l v = (if v = Some (JString l) then Some () else None)"

text \<open>
  Every request schema has the form
  \<open>z.object({fileName, fileType, config: z.object({...})})\<close>; \<open>request_schema\<close> takes the
  bound on the file name (\<open>.max(255)\<close> in the second version only) and the schema of
  \<open>config\<close>. \<open>azure_config_refined\<close> adds the second version's
  \<open>.refine(data => data.accountKey || data.sasToken)\<close>.
\<close>

record 'c validated =
  v_fileName :: jstring
  v_fileType :: jstring
  v_config :: 'c

definition request_schema ::
  "nat option \<Rightarrow> ((string \<Rightarrow> json option) \<Rightarrow> 'c option) \<Rightarrow> json \<Rightarrow> 'c validated option" where
  "request_schema name_max config_schema req_body =
     (case z_object (Some req_body) of
        None \<Rightarrow> None
      | Some b \<Rightarrow>
          (case (z_string 1 name_max (b ''fileName''), z_string 1 None (b ''fileType''),
                 z_object (b ''config'')) of
             (Some n, Some t, Some c) \<Rightarrow>
               (case config_schema c of
                  None \<Rightarrow> None
                | Some cfg \<Rightarrow> Some \<lparr>v_fileName = n, v_fileType = t, v_config = cfg\<rparr>)
           | _ \<Rightarrow> None))"

definition s3_config_schema :: "(string \<Rightarrow> json option) \<Rightarrow> S3Config option" where
  "s3_config_schema c =
     (case (z_literal (js ''s3'') (c ''provider''), z_string 1 None (c ''bucket''),
            z_string 1 None (c ''region''), z_string 1 None (c ''accessKeyId''),
            z_string 1 None (c ''secretAccessKey''), z_optional_string (c ''sessionToken''),
            z_optional_string (c ''endpoint'')) of
        (Some _, Some b, Some r, Some k, Some s, Some t, Some e) \<Rightarrow>
          Some \<lparr>S3Config.bucket = b, region = r, accessKeyId = k, secretAccessKey = s,
                sessionToken = t, S3Config.endpoint = e\<rparr>
      | _ \<Rightarrow> None)"

definition gcp_config_schema :: "(string \<Rightarrow> json option) \<Rightarrow> GCPConfig option" where
  "gcp_config_schema c =
     (case (z_literal (js ''gcp'') (c ''provider''), z_string 1 None (c ''bucket''),
            z_string 1 None (c ''projectId''), z_string 1 None (c ''keyFile'')) of
        (Some _, Some b, Some p, Some k) \<Rightarrow>
          Some \<lparr>GCPConfig.bucket = b, projectId = p, keyFile = k\<rparr>
      | _ \<Rightarrow> None)"

definition azure_config_schema :: "(string \<Rightarrow> json option) \<Rightarrow> AzureConfig option" where
  "azure_config_schema c =
     (case (z_literal (js ''azure'') (c ''provider''), z_string 1 None (c ''accountName''),
            z_string 1 None (c ''containerName''), z_optional_string (c ''accountKey''),
            z_optional_string (c ''sasToken'')) of
        (Some _, Some a, Some n, Some k, Some t) \<Rightarrow>
          Some \<lparr>accountName = a, containerName = n, accountKey = k, sasToken = t\<rparr>
      | _ \<Rightarrow> None)"

definition azure_config_refined :: "(string \<Rightarrow> json option) \<Rightarrow> AzureConfig option" where
  "azure_config_refined c =
     (case azure_config_schema c of
        None \<Rightarrow> None
      | Some data \<Rightarrow> if present (accountKey data) \<or> present (sasToken data) then Some data else None)"

definition s3ConfigSchema :: "json \<Rightarrow> S3Config validated option" where
  "s3ConfigSchema = request_schema None s3_config_schema"

definition gcpConfigSchema :: "json \<Rightarrow> GCPConfig validated option" where
  "gcpConfigSchema = request_schema None gcp_config_schema"

definition azureConfigSchema :: "json \<Rightarrow> AzureConfig validated option" where
  "azureConfigSchema = request_schema None azure_config_schema"

definition s3RequestSchema :: "json \<Rightarrow> S3Config validated option" where
  "s3RequestSchema = request_schema (Some 255) s3_config_schema"

definition gcpRequestSchema :: "json \<Rightarrow> GCPConfig validated option" where
  "gcpRequestSchema = request_schema (Some 255) gcp_config_schema"

definition azureRequestSchema :: "json \<Rightarrow> AzureConfig validated option" where
  "azureRequestSchema = request_schema (Some 255) azure_config_refined"

subsection \<open>Responses and the storage SDKs\<close>

text \<open>
  A route answers with an HTTP status and a body: \<open>{signedUrl}\<close> or the error envelope, of
  which the code and the message are kept (\<open>MessageOf e\<close> is \<open>e.message\<close>). The SDKs are
  not code of this repository. What the routes ask of them is recorded as a list of
  signing calls, and their answers are parameters: \<open>sign\<close> answers a signing call,
  \<open>blob_url\<close> builds the blob client and reads its \<open>url\<close>, and \<open>JSON_parse\<close> is \<open>JSON.parse\<close>
  (\<open>None\<close> when it throws). \<open>now\<close> is \<open>Date.now()\<close> in milliseconds.
\<close>

datatype server_error = ZodError | Thrown jstring

datatype message = Text jstring | MessageOf server_error

datatype response_body = SignedUrl jstring | ErrorBody jstring message

record http_response =
  http_status :: nat
  body :: response_body

record blob_client =
  service_url :: jstring
  shared_key :: "(jstring \<times> jstring) option"
  container :: jstring
  blob_name :: jstring

record sas_options =
  permissions :: jstring
  startsOn :: "nat option"
  expiresOn :: nat

record s3_presign =
  client_region :: jstring
  client_accessKeyId :: jstring
  client_secretAccessKey :: jstring
  client_sessionToken :: "jstring option"
  client_endpoint :: "jstring option"
  put_Bucket :: jstring
  put_Key :: jstring
  put_ContentType :: jstring
  expiresIn :: nat

record gcs_presign =
  storage_projectId :: jstring
  storage_credentials :: "jstring + json"
  gcs_bucket :: jstring
  gcs_file :: jstring
  gcs_version :: jstring
  gcs_action :: jstring
  gcs_expires :: nat
  gcs_contentType :: jstring

datatype sdk_call =
  S3GetSignedUrl s3_presign
| GcsGetSignedUrl gcs_presign
| AzureGenerateBlobSASQueryParameters blob_client sas_options
| AzureGenerateSasUrl blob_client sas_options

record sdk =
  sign :: "sdk_call \<Rightarrow> server_error + jstring"
  blob_url :: "blob_client \<Rightarrow> server_error + jstring"
  JSON_parse :: "jstring \<Rightarrow> json option"

definition hour_ms :: nat where
  "hour_ms = 60 * 60 * 1000"

definition error_response :: "nat \<Rightarrow> jstring \<Rightarrow> message \<Rightarrow> http_response" where
  "error_response st code m = \<lparr>http_status = st, body = ErrorBody code m\<rparr>"

definition ok_response :: "jstring \<Rightarrow> http_response" where
  "ok_response u = \<lparr>http_status = 200, body = SignedUrl u\<rparr>"

definition azure_service_url :: "jstring \<Rightarrow> jstring" where
  "azure_service_url account = js ''https://'' @ account @ js ''.blob.core.windows.net''"

subsection \<open>The routes\<close>

text \<open>
  \<open>nonempty v\<close> is the value of a truthy optional string. In \<open>src/server/routes/azure.ts\<close>
  the handler picks the client by \<open>if (config.accountKey) ... else if (config.sasToken)
  ... else throw\<close> and then calls \<open>blobClient.generateSasUrl\<close> on whichever client it
  built; every failure is caught and answered with status 400 and the code
  \<open>AZURE_SAS_URL_ERROR\<close>.
\<close>

definition nonempty :: "jstring option \<Rightarrow> jstring option" where
  "nonempty v = (case v of None \<Rightarrow> None | Some s \<Rightarrow> if truthy s then Some s else None)"

definition azureRoutes :: "sdk \<Rightarrow> nat \<Rightarrow> json \<Rightarrow> http_response \<times> sdk_call list" where
  "azureRoutes sdk now req_body =
     (case azureConfigSchema req_body of
        None \<Rightarrow> (error_response 400 (js ''AZURE_SAS_URL_ERROR'') (MessageOf ZodError), [])
      | Some validatedData \<Rightarrow>
          (let config = v_config validatedData;
               client =
                 (case nonempty (accountKey config) of
                    Some key \<Rightarrow>
                      Inr \<lparr>service_url = azure_service_url (accountName config),
                           shared_key = Some (accountName config, key),
                           container = containerName config, blob_name = v_fileName validatedData\<rparr>
                  | None \<Rightarrow>
                      (case nonempty (sasToken config) of
                         Some token \<Rightarrow>
                           Inr \<lparr>service_url = azure_service_url (accountName config) @ js ''?'' @ token,
                                shared_key = None,
                                container = containerName config,
                                blob_name = v_fileName validatedData\<rparr>
                       | None \<Rightarrow>
                           Inl (Thrown (js ''Either accountKey or sasToken must be provided''))))
           in case client of
                Inl e \<Rightarrow> (error_response 400 (js ''AZURE_SAS_URL_ERROR'') (MessageOf e), [])
              | Inr blobClient \<Rightarrow>
                  (case blob_url sdk blobClient of
                     Inl e \<Rightarrow> (error_response 400 (js ''AZURE_SAS_URL_ERROR'') (MessageOf e), [])
                   | Inr _ \<Rightarrow>
                       (let call = AzureGenerateSasUrl blobClient
                                     \<lparr>permissions = js ''w'', startsOn = None,
                                      expiresOn = now + hour_ms\<rparr>
                        in case sign sdk call of
                             Inl e \<Rightarrow>
                               (error_response 400 (js ''AZURE_SAS_URL_ERROR'') (MessageOf e), [call])
                           | Inr sasUrl \<Rightarrow> (ok_response sasUrl, [call])))))"

text \<open>
  In the second version the account-key branch signs with
  \<open>generateBlobSASQueryParameters\<close> (\<open>startsOn: new Date()\<close>, one hour to \<open>expiresOn\<close>) and
  appends the result to the blob's URL; the SAS-token branch returns the URL of the
  client built from the token; a \<open>ZodError\<close> is answered with 400 and
  \<open>VALIDATION_ERROR\<close>, anything else with 500 and \<open>AZURE_ERROR\<close>.
\<close>

definition azureRoutes_part_001 :: "sdk \<Rightarrow> nat \<Rightarrow> json \<Rightarrow> http_response \<times> sdk_call list" where
  "azureRoutes_part_001 sdk now req_body =
     (case azureRequestSchema req_body of
        None \<Rightarrow> (error_response 400 (js ''VALIDATION_ERROR'') (Text (js ''Invalid request data'')), [])
      | Some validatedData \<Rightarrow>
          (let config = v_config validatedData;
               failed = error_response 500 (js ''AZURE_ERROR'')
                          (Text (js ''Failed to generate Azure SAS URL''))
           in case nonempty (accountKey config) of
                Some key \<Rightarrow>
                  (let blobClient = \<lparr>service_url = azure_service_url (accountName config),
                                     shared_key = Some (accountName config, key),
                                     container = containerName config,
                                     blob_name = v_fileName validatedData\<rparr>
                   in case blob_url sdk blobClient of
                        Inl e \<Rightarrow> (failed, [])
                      | Inr client_url \<Rightarrow>
                          (let call = AzureGenerateBlobSASQueryParameters blobClient
                                        \<lparr>permissions = js ''w'', startsOn = Some now,
                                         expiresOn = now + hour_ms\<rparr>
                           in case sign sdk call of
                                Inl e \<Rightarrow> (failed, [call])
                              | Inr sas_query \<Rightarrow>
                                  (ok_response (client_url @ js ''?'' @ sas_query), [call])))
              | None \<Rightarrow>
                  (case nonempty (sasToken config) of
                     Some token \<Rightarrow>
                       (let blobClient = \<lparr>service_url = azure_service_url (accountName config)
                                                        @ js ''?'' @ token,
                                          shared_key = None,
                                          container = containerName config,
                                          blob_name = v_fileName validatedData\<rparr>
                        in case blob_url sdk blobClient of
                             Inl e \<Rightarrow> (failed, [])
                           | Inr client_url \<Rightarrow> (ok_response client_url, []))
                   | None \<Rightarrow> (failed, []))))"

text \<open>
  \<open>src/server/routes/gcp.ts\<close> passes \<open>config.keyFile\<close> to the client as \<open>keyFilename\<close>
  and never parses it; the second version parses it with \<open>JSON.parse\<close> and answers
  \<open>INVALID_CREDENTIALS\<close> when that throws.
\<close>

definition gcpRoutes :: "sdk \<Rightarrow> nat \<Rightarrow> json \<Rightarrow> http_response \<times> sdk_call list" where
  "gcpRoutes sdk now req_body =
     (case gcpConfigSchema req_body of
        None \<Rightarrow> (error_response 400 (js ''GCP_SIGNED_URL_ERROR'') (MessageOf ZodError), [])
      | Some validatedData \<Rightarrow>
          (let config = v_config validatedData;
               call = GcsGetSignedUrl
                        \<lparr>storage_projectId = projectId config,
                         storage_credentials = Inl (keyFile config),
                         gcs_bucket = GCPConfig.bucket config, gcs_file = v_fileName validatedData,
                         gcs_version = js ''v4'', gcs_action = js ''write'',
                         gcs_expires = now + hour_ms, gcs_contentType = v_fileType validatedData\<rparr>
           in case sign sdk call of
                Inl e \<Rightarrow> (error_response 400 (js ''GCP_SIGNED_URL_ERROR'') (MessageOf e), [call])
              | Inr signedUrl \<Rightarrow> (ok_response signedUrl, [call])))"

definition gcpRoutes_part_000 :: "sdk \<Rightarrow> nat \<Rightarrow> json \<Rightarrow> http_response \<times> sdk_call list" where
  "gcpRoutes_part_000 sdk now req_body =
     (case gcpRequestSchema req_body of
        None \<Rightarrow> (error_response 400 (js ''VALIDATION_ERROR'') (Text (js ''Invalid request data'')), [])
      | Some validatedData \<Rightarrow>
          (let config = v_config validatedData
           in case JSON_parse sdk (keyFile config) of
                None \<Rightarrow>
                  (error_response 400 (js ''INVALID_CREDENTIALS'')
                     (Text (js ''Invalid service account key format'')), [])
              | Some credentials \<Rightarrow>
                  (let call = GcsGetSignedUrl
                                \<lparr>storage_projectId = projectId config,
                                 storage_credentials = Inr credentials,
                                 gcs_bucket = GCPConfig.bucket config,
                                 gcs_file = v_fileName validatedData,
                                 gcs_version = js ''v4'', gcs_action = js ''write'',
                                 gcs_expires = now + hour_ms,
                                 gcs_contentType = v_fileType validatedData\<rparr>
                   in case sign sdk call of
                        Inl e \<Rightarrow>
                          (error_response 500 (js ''GCP_ERROR'')
                             (Text (js ''Failed to generate GCP signed URL'')), [call])
                      | Inr signedUrl \<Rightarrow> (ok_response signedUrl, [call]))))"

text \<open>
  \<open>src/server/routes/s3.ts\<close> passes the session token and the endpoint only when they are
  truthy; the second version passes them as they are. Both sign with \<open>expiresIn: 3600\<close>.
\<close>

definition s3Routes :: "sdk \<Rightarrow> nat \<Rightarrow> json \<Rightarrow> http_response \<times> sdk_call list" where
  "s3Routes sdk now req_body =
     (case s3ConfigSchema req_body of
        None \<Rightarrow> (error_response 400 (js ''S3_PRESIGNED_URL_ERROR'') (MessageOf ZodError), [])
      | Some validatedData \<Rightarrow>
          (let config = v_config validatedData;
               call = S3GetSignedUrl
                        \<lparr>client_region = region config,
                         client_accessKeyId = accessKeyId config,
                         client_secretAccessKey = secretAccessKey config,
                         client_sessionToken = nonempty (sessionToken config),
                         client_endpoint = nonempty (S3Config.endpoint config),
                         put_Bucket = S3Config.bucket config, put_Key = v_fileName validatedData,
                         put_ContentType = v_fileType validatedData, expiresIn = 3600\<rparr>
           in case sign sdk call of
                Inl e \<Rightarrow> (error_response 400 (js ''S3_PRESIGNED_URL_ERROR'') (MessageOf e), [call])
              | Inr signedUrl \<Rightarrow> (ok_response signedUrl, [call])))"

definition s3Routes_part_001 :: "sdk \<Rightarrow> nat \<Rightarrow> json \<Rightarrow> http_response \<times> sdk_call list" where
  "s3Routes_part_001 sdk now req_body =
     (case s3RequestSchema req_body of
        None \<Rightarrow> (error_response 400 (js ''VALIDATION_ERROR'') (Text (js ''Invalid request data'')), [])
      | Some validatedData \<Rightarrow>
          (let config = v_config validatedData;
               call = S3GetSignedUrl
                        \<lparr>client_region = region config,
                         client_accessKeyId = accessKeyId config,
                         client_secretAccessKey = secretAccessKey config,
                         client_sessionToken = sessionToken config,
                         client_endpoint = S3Config.endpoint config,
                         put_Bucket = S3Config.bucket config, put_Key = v_fileName validatedData,
                         put_ContentType = v_fileType validatedData, expiresIn = 3600\<rparr>
           in case sign sdk call of
                Inl e \<Rightarrow>
                  (error_response 500 (js ''S3_ERROR'')
                     (Text (js ''Failed to generate S3 presigned URL'')), [call])
              | Inr signedUrl \<Rightarrow> (ok_response signedUrl, [call])))"

subsection \<open>Results on the credential brokers\<close>

text \<open>
  Example requests: an Azure request with the given account key and SAS token, and a GCP
  request with the given key file (left out when \<open>None\<close>).
\<close>

definition azure_body :: "jstring option \<Rightarrow> jstring option \<Rightarrow> json" where
  "azure_body key token =
     JObject (map_of
       [(''fileName'', JString (js ''a.png'')), (''fileType'', JString (js ''image/png'')),
        (''config'', JObject (map_of
           ([(''provider'', JString (js ''azure'')), (''accountName'', JString (js ''acct'')),
             (''containerName'', JString (js ''files''))]
            @ (case key of None \<Rightarrow> [] | Some k \<Rightarrow> [(''accountKey'', JString k)])
            @ (case token of None \<Rightarrow> [] | Some t \<Rightarrow> [(''sasToken'', JString t)]))))])"

definition gcp_body :: "jstring option \<Rightarrow> json" where
  "gcp_body key =
     JObject (map_of
       [(''fileName'', JString (js ''a.png'')), (''fileType'', JString (js ''image/png'')),
        (''config'', JObject (map_of
           ([(''provider'', JString (js ''gcp'')), (''bucket'', JString (js ''files'')),
             (''projectId'', JString (js ''proj''))]
            @ (case key of None \<Rightarrow> [] | Some k \<Rightarrow> [(''keyFile'', JString k)]))))])"

definition sas_only_client :: blob_client where
  "sas_only_client =
     \<lparr>service_url = js ''https://acct.blob.core.windows.net?sv=1&sig=x'', shared_key = None,
      container = js ''files'', blob_name = js ''a.png''\<rparr>"

lemmas schema_defs =
  request_schema_def z_object_def z_string_def z_literal_def z_optional_string_def

lemma azure_body_sas_only:
  "request_schema None azure_config_schema (azure_body (Some []) (Some (js ''sv=1&sig=x'')))
     = Some \<lparr>v_fileName = js ''a.png'', v_fileType = js ''image/png'',
             v_config = \<lparr>accountName = js ''acct'', containerName = js ''files'',
                         accountKey = Some [], sasToken = Some (js ''sv=1&sig=x'')\<rparr>\<rparr>"
  by (simp add: schema_defs azure_config_schema_def azure_body_def js_def)

lemma azure_body_sas_only_refined:
  "azureRequestSchema (azure_body (Some []) (Some (js ''sv=1&sig=x'')))
     = Some \<lparr>v_fileName = js ''a.png'', v_fileType = js ''image/png'',
             v_config = \<lparr>accountName = js ''acct'', containerName = js ''files'',
                         accountKey = Some [], sasToken = Some (js ''sv=1&sig=x'')\<rparr>\<rparr>"
  by (simp add: azureRequestSchema_def schema_defs azure_config_refined_def azure_config_schema_def
      azure_body_def present_def truthy_def js_def)

text \<open>
  C2. The claim is that with only a SAS token the broker returns the blob's URL with the
  token and signs nothing. For the request with an empty account key and the SAS token
  \<open>sv=1&sig=x\<close>, the route of \<open>src/server/routes/azure.ts\<close> builds the client from the
  token and then asks the SDK to sign (\<open>generateSasUrl\<close>, with no shared key), answering
  with whatever that call gives; the second version answers with the client's URL and
  makes no signing call.
\<close>

theorem azureRoutes_sas_token_signs_again:
  "azureRoutes sdk now (azure_body (Some []) (Some (js ''sv=1&sig=x''))) =
     (case blob_url sdk sas_only_client of
        Inl e \<Rightarrow> (error_response 400 (js ''AZURE_SAS_URL_ERROR'') (MessageOf e), [])
      | Inr u \<Rightarrow>
          (case sign sdk (AzureGenerateSasUrl sas_only_client
                  \<lparr>permissions = js ''w'', startsOn = None, expiresOn = now + 3600000\<rparr>) of
             Inl e \<Rightarrow>
               (error_response 400 (js ''AZURE_SAS_URL_ERROR'') (MessageOf e),
                [AzureGenerateSasUrl sas_only_client
                   \<lparr>permissions = js ''w'', startsOn = None, expiresOn = now + 3600000\<rparr>])
           | Inr sasUrl \<Rightarrow>
               (ok_response sasUrl,
                [AzureGenerateSasUrl sas_only_client
                   \<lparr>permissions = js ''w'', startsOn = None, expiresOn = now + 3600000\<rparr>])))
   \<and> azureRoutes_part_001 sdk now (azure_body (Some []) (Some (js ''sv=1&sig=x''))) =
     (case blob_url sdk sas_only_client of
        Inl e \<Rightarrow>
          (error_response 500 (js ''AZURE_ERROR'') (Text (js ''Failed to generate Azure SAS URL'')), [])
      | Inr u \<Rightarrow> (ok_response u, []))"
proof -
  have t: "nonempty (Some []) = None" "nonempty (Some (js ''sv=1&sig=x'')) = Some (js ''sv=1&sig=x'')"
    by (simp_all add: nonempty_def truthy_def js_def)
  have u: "azure_service_url (js ''acct'') @ js ''?'' @ js ''sv=1&sig=x''
      = js ''https://acct.blob.core.windows.net?sv=1&sig=x''"
    by (simp add: azure_service_url_def js_def)
  have h: "hour_ms = 3600000" by (simp add: hour_ms_def)
  have a: "azureConfigSchema (azure_body (Some []) (Some (js ''sv=1&sig=x'')))
     = Some \<lparr>v_fileName = js ''a.png'', v_fileType = js ''image/png'',
             v_config = \<lparr>accountName = js ''acct'', containerName = js ''files'',
                         accountKey = Some [], sasToken = Some (js ''sv=1&sig=x'')\<rparr>\<rparr>"
    unfolding azureConfigSchema_def by (rule azure_body_sas_only)
  show ?thesis
    unfolding azureRoutes_def azureRoutes_part_001_def a azure_body_sas_only_refined
    by (simp add: t u h sas_only_client_def Let_def split: sum.splits)
qed

text \<open>
  The second version does what the specification says of the Azure broker, for every
  request that has the fields' shapes: with an account key, one write-only signing call
  with the shared key, starting now and expiring 3600 seconds later, whatever the SAS
  token; with a SAS token only, no signing call and the client's URL; with neither,
  \<open>VALIDATION_ERROR\<close> and no call.
\<close>

lemma azureRoutes_part_001_branches:
  assumes "request_schema (Some 255) azure_config_schema req_body = Some v"
  shows "(\<forall>key. nonempty (accountKey (v_config v)) = Some key \<longrightarrow>
            set (snd (azureRoutes_part_001 sdk now req_body))
              \<subseteq> {AzureGenerateBlobSASQueryParameters
                    \<lparr>service_url = azure_service_url (accountName (v_config v)),
                     shared_key = Some (accountName (v_config v), key),
                     container = containerName (v_config v), blob_name = v_fileName v\<rparr>
                    \<lparr>permissions = js ''w'', startsOn = Some now, expiresOn = now + 3600 * 1000\<rparr>}
            \<and> (\<forall>u q. blob_url sdk
                        \<lparr>service_url = azure_service_url (accountName (v_config v)),
                         shared_key = Some (accountName (v_config v), key),
                         container = containerName (v_config v), blob_name = v_fileName v\<rparr> = Inr u
                     \<and> sign sdk (AzureGenerateBlobSASQueryParameters
                          \<lparr>service_url = azure_service_url (accountName (v_config v)),
                           shared_key = Some (accountName (v_config v), key),
                           container = containerName (v_config v), blob_name = v_fileName v\<rparr>
                          \<lparr>permissions = js ''w'', startsOn = Some now,
                           expiresOn = now + 3600 * 1000\<rparr>) = Inr q
                   \<longrightarrow> azureRoutes_part_001 sdk now req_body
                       = (ok_response (u @ js ''?'' @ q),
                          [AzureGenerateBlobSASQueryParameters
                             \<lparr>service_url = azure_service_url (accountName (v_config v)),
                              shared_key = Some (accountName (v_config v), key),
                              container = containerName (v_config v), blob_name = v_fileName v\<rparr>
                             \<lparr>permissions = js ''w'', startsOn = Some now,
                              expiresOn = now + 3600 * 1000\<rparr>])))
       \<and> (\<forall>token. nonempty (accountKey (v_config v)) = None
              \<and> nonempty (sasToken (v_config v)) = Some token \<longrightarrow>
            snd (azureRoutes_part_001 sdk now req_body) = []
            \<and> (\<forall>u. blob_url sdk
                      \<lparr>service_url = azure_service_url (accountName (v_config v)) @ js ''?'' @ token,
                       shared_key = None,
                       container = containerName (v_config v), blob_name = v_fileName v\<rparr> = Inr u
                   \<longrightarrow> fst (azureRoutes_part_001 sdk now req_body) = ok_response u))
       \<and> (nonempty (accountKey (v_config v)) = None \<and> nonempty (sasToken (v_config v)) = None \<longrightarrow>
            azureRoutes_part_001 sdk now req_body
              = (error_response 400 (js ''VALIDATION_ERROR'') (Text (js ''Invalid request data'')), []))"
proof -
  have p: "present x \<longleftrightarrow> nonempty x \<noteq> None" for x
    by (simp add: present_def nonempty_def split: option.splits)
  have r: "azureRequestSchema req_body
      = (if nonempty (accountKey (v_config v)) \<noteq> None \<or> nonempty (sasToken (v_config v)) \<noteq> None
         then Some v else None)"
    using assms
    by (auto simp: azureRequestSchema_def request_schema_def azure_config_refined_def p
        split: option.splits prod.splits)
  show ?thesis
    unfolding azureRoutes_part_001_def r
    by (auto simp: Let_def hour_ms_def split: sum.splits option.splits)
qed

definition gcs_call :: "nat \<Rightarrow> jstring + json \<Rightarrow> sdk_call" where
  "gcs_call now credentials =
     GcsGetSignedUrl
       \<lparr>storage_projectId = js ''proj'', storage_credentials = credentials,
        gcs_bucket = js ''files'', gcs_file = js ''a.png'', gcs_version = js ''v4'',
        gcs_action = js ''write'', gcs_expires = now + 3600000, gcs_contentType = js ''image/png''\<rparr>"

lemma gcp_body_missing_key: "request_schema hi gcp_config_schema (gcp_body None) = None"
  by (simp add: schema_defs gcp_config_schema_def gcp_body_def js_def
      split: option.splits)

lemma gcp_body_with_key:
  "hi = None \<or> hi = Some 255 \<Longrightarrow> k \<noteq> [] \<Longrightarrow>
   request_schema hi gcp_config_schema (gcp_body (Some k))
     = Some \<lparr>v_fileName = js ''a.png'', v_fileType = js ''image/png'',
             v_config = \<lparr>GCPConfig.bucket = js ''files'', projectId = js ''proj'', keyFile = k\<rparr>\<rparr>"
  by (auto simp: schema_defs gcp_config_schema_def gcp_body_def js_def Suc_le_eq)

text \<open>
  C3. The claim is that a missing required field is answered with \<open>VALIDATION_ERROR\<close> and
  unparsable key material with \<open>INVALID_CREDENTIALS\<close>. For a GCP request without
  \<open>keyFile\<close>, the route of \<open>src/server/routes/gcp.ts\<close> answers 400 with the code
  \<open>GCP_SIGNED_URL_ERROR\<close>; for the key material \<open>{not json\<close> it goes on to the signing call
  with the text as a file name. The second version answers \<open>VALIDATION_ERROR\<close> and,
  when \<open>JSON.parse\<close> throws, \<open>INVALID_CREDENTIALS\<close>.
\<close>

theorem gcpRoutes_error_codes:
  "gcpRoutes sdk now (gcp_body None)
     = (error_response 400 (js ''GCP_SIGNED_URL_ERROR'') (MessageOf ZodError), [])
   \<and> gcpRoutes_part_000 sdk now (gcp_body None)
     = (error_response 400 (js ''VALIDATION_ERROR'') (Text (js ''Invalid request data'')), [])
   \<and> gcpRoutes sdk now (gcp_body (Some (js ''{not json'')))
     = (case sign sdk (gcs_call now (Inl (js ''{not json''))) of
          Inl e \<Rightarrow>
            (error_response 400 (js ''GCP_SIGNED_URL_ERROR'') (MessageOf e),
             [gcs_call now (Inl (js ''{not json''))])
        | Inr signedUrl \<Rightarrow> (ok_response signedUrl, [gcs_call now (Inl (js ''{not json''))]))
   \<and> gcpRoutes_part_000 sdk now (gcp_body (Some (js ''{not json'')))
     = (case JSON_parse sdk (js ''{not json'') of
          None \<Rightarrow>
            (error_response 400 (js ''INVALID_CREDENTIALS'')
               (Text (js ''Invalid service account key format'')), [])
        | Some credentials \<Rightarrow>
            (case sign sdk (gcs_call now (Inr credentials)) of
               Inl e \<Rightarrow>
                 (error_response 500 (js ''GCP_ERROR'') (Text (js ''Failed to generate GCP signed URL'')),
                  [gcs_call now (Inr credentials)])
             | Inr signedUrl \<Rightarrow> (ok_response signedUrl, [gcs_call now (Inr credentials)])))"
proof -
  have k: "js ''{not json'' \<noteq> []" by (simp add: js_def)
  have h: "hour_ms = 3600000" by (simp add: hour_ms_def)
  show ?thesis
    unfolding gcpRoutes_def gcpRoutes_part_000_def gcpConfigSchema_def gcpRequestSchema_def
      gcp_body_missing_key gcp_body_with_key [OF disjI1 [OF refl] k]
      gcp_body_with_key [OF disjI2 [OF refl] k]
    by (simp add: Let_def gcs_call_def h split: sum.splits option.splits)
qed

text \<open>
  The mounted routes have one error code each and the status 400 for every failure; the
  second version's routes reject a request that lacks a required field with
  \<open>VALIDATION_ERROR\<close> before any call, answer a provider failure with the provider's code
  and status 500, and never call the SDK twice.
\<close>

lemma live_routes_codes:
  "(\<exists>u. fst (s3Routes sdk now b) = ok_response u)
     \<or> (\<exists>m. fst (s3Routes sdk now b) = error_response 400 (js ''S3_PRESIGNED_URL_ERROR'') m)"
  "(\<exists>u. fst (gcpRoutes sdk now b) = ok_response u)
     \<or> (\<exists>m. fst (gcpRoutes sdk now b) = error_response 400 (js ''GCP_SIGNED_URL_ERROR'') m)"
  "(\<exists>u. fst (azureRoutes sdk now b) = ok_response u)
     \<or> (\<exists>m. fst (azureRoutes sdk now b) = error_response 400 (js ''AZURE_SAS_URL_ERROR'') m)"
  by (auto simp: s3Routes_def gcpRoutes_def azureRoutes_def Let_def split: option.splits sum.splits)

lemma request_schema_requires:
  assumes "request_schema hi config_schema req_body = Some v"
  shows "\<exists>b c. req_body = JObject b \<and> b ''fileName'' = Some (JString (v_fileName v))
           \<and> v_fileName v \<noteq> [] \<and> b ''fileType'' = Some (JString (v_fileType v))
           \<and> v_fileType v \<noteq> [] \<and> b ''config'' = Some (JObject c)
           \<and> config_schema c = Some (v_config v)"
  using assms
  by (auto simp: schema_defs split: option.splits json.splits if_splits)

lemma s3_config_requires:
  assumes "s3_config_schema c = Some cfg"
  shows "c ''provider'' = Some (JString (js ''s3''))
       \<and> c ''bucket'' = Some (JString (S3Config.bucket cfg)) \<and> S3Config.bucket cfg \<noteq> []
       \<and> c ''region'' = Some (JString (region cfg)) \<and> region cfg \<noteq> []
       \<and> c ''accessKeyId'' = Some (JString (accessKeyId cfg)) \<and> accessKeyId cfg \<noteq> []
       \<and> c ''secretAccessKey'' = Some (JString (secretAccessKey cfg)) \<and> secretAccessKey cfg \<noteq> []"
  using assms
  by (auto simp: s3_config_schema_def schema_defs split: option.splits json.splits if_splits)

lemma gcp_config_requires:
  assumes "gcp_config_schema c = Some cfg"
  shows "c ''provider'' = Some (JString (js ''gcp''))
       \<and> c ''bucket'' = Some (JString (GCPConfig.bucket cfg)) \<and> GCPConfig.bucket cfg \<noteq> []
       \<and> c ''projectId'' = Some (JString (projectId cfg)) \<and> projectId cfg \<noteq> []
       \<and> c ''keyFile'' = Some (JString (keyFile cfg)) \<and> keyFile cfg \<noteq> []"
  using assms
  by (auto simp: gcp_config_schema_def schema_defs split: option.splits json.splits if_splits)

lemma azure_config_requires:
  assumes "azure_config_refined c = Some cfg"
  shows "c ''provider'' = Some (JString (js ''azure''))
       \<and> c ''accountName'' = Some (JString (accountName cfg)) \<and> accountName cfg \<noteq> []
       \<and> c ''containerName'' = Some (JString (containerName cfg)) \<and> containerName cfg \<noteq> []
       \<and> (present (accountKey cfg) \<or> present (sasToken cfg))"
  using assms
  by (auto simp: azure_config_refined_def azure_config_schema_def schema_defs
      split: option.splits json.splits if_splits)

lemma part_routes_error_codes:
  "s3RequestSchema b = None \<Longrightarrow>
     s3Routes_part_001 sdk now b
       = (error_response 400 (js ''VALIDATION_ERROR'') (Text (js ''Invalid request data'')), [])"
  "gcpRequestSchema b = None \<Longrightarrow>
     gcpRoutes_part_000 sdk now b
       = (error_response 400 (js ''VALIDATION_ERROR'') (Text (js ''Invalid request data'')), [])"
  "azureRequestSchema b = None \<Longrightarrow>
     azureRoutes_part_001 sdk now b
       = (error_response 400 (js ''VALIDATION_ERROR'') (Text (js ''Invalid request data'')), [])"
  "gcpRequestSchema b = Some v \<Longrightarrow> JSON_parse sdk (keyFile (v_config v)) = None \<Longrightarrow>
     gcpRoutes_part_000 sdk now b
       = (error_response 400 (js ''INVALID_CREDENTIALS'')
            (Text (js ''Invalid service account key format'')), [])"
  by (simp_all add: s3Routes_part_001_def gcpRoutes_part_000_def azureRoutes_part_001_def)

lemma part_routes_no_retry:
  "length (snd (s3Routes_part_001 sdk now b)) \<le> 1"
  "length (snd (gcpRoutes_part_000 sdk now b)) \<le> 1"
  "length (snd (azureRoutes_part_001 sdk now b)) \<le> 1"
  by (auto simp: s3Routes_part_001_def gcpRoutes_part_000_def azureRoutes_part_001_def Let_def
      split: option.splits sum.splits)

lemma part_routes_provider_failure:
  "snd (s3Routes_part_001 sdk now b) = [c] \<Longrightarrow> sign sdk c = Inl e \<Longrightarrow>
     fst (s3Routes_part_001 sdk now b)
       = error_response 500 (js ''S3_ERROR'') (Text (js ''Failed to generate S3 presigned URL''))"
  "snd (gcpRoutes_part_000 sdk now b) = [c] \<Longrightarrow> sign sdk c = Inl e \<Longrightarrow>
     fst (gcpRoutes_part_000 sdk now b)
       = error_response 500 (js ''GCP_ERROR'') (Text (js ''Failed to generate GCP signed URL''))"
  "snd (azureRoutes_part_001 sdk now b) = [c] \<Longrightarrow> sign sdk c = Inl e \<Longrightarrow>
     fst (azureRoutes_part_001 sdk now b)
       = error_response 500 (js ''AZURE_ERROR'') (Text (js ''Failed to generate Azure SAS URL''))"
  by (auto simp: s3Routes_part_001_def gcpRoutes_part_000_def azureRoutes_part_001_def Let_def
      split: option.splits sum.splits)

text \<open>
  The mounted Azure route does what the specification says in its two other branches:
  with an account key it signs with the shared key, write-only, for one hour; with
  neither credential it fails before any signing call.
\<close>

lemma azureRoutes_branches:
  assumes "azureConfigSchema req_body = Some v"
  shows "(\<forall>key. nonempty (accountKey (v_config v)) = Some key \<longrightarrow>
            set (snd (azureRoutes sdk now req_body))
              \<subseteq> {AzureGenerateSasUrl
                    \<lparr>service_url = azure_service_url (accountName (v_config v)),
                     shared_key = Some (accountName (v_config v), key),
                     container = containerName (v_config v), blob_name = v_fileName v\<rparr>
                    \<lparr>permissions = js ''w'', startsOn = None, expiresOn = now + 3600 * 1000\<rparr>})
       \<and> (\<forall>token u. nonempty (accountKey (v_config v)) = None
              \<and> nonempty (sasToken (v_config v)) = Some token
              \<and> blob_url sdk
                    \<lparr>service_url = azure_service_url (accountName (v_config v)) @ js ''?'' @ token,
                     shared_key = None,
                     container = containerName (v_config v), blob_name = v_fileName v\<rparr> = Inr u \<longrightarrow>
            snd (azureRoutes sdk now req_body)
              = [AzureGenerateSasUrl
                   \<lparr>service_url = azure_service_url (accountName (v_config v)) @ js ''?'' @ token,
                    shared_key = None,
                    container = containerName (v_config v), blob_name = v_fileName v\<rparr>
                   \<lparr>permissions = js ''w'', startsOn = None, expiresOn = now + 3600 * 1000\<rparr>])
       \<and> (nonempty (accountKey (v_config v)) = None \<and> nonempty (sasToken (v_config v)) = None \<longrightarrow>
            azureRoutes sdk now req_body
              = (error_response 400 (js ''AZURE_SAS_URL_ERROR'')
                   (MessageOf (Thrown (js ''Either accountKey or sasToken must be provided''))), []))"
  unfolding azureRoutes_def assms
  by (auto simp: Let_def hour_ms_def split: sum.splits option.splits)

end
